(* ===== verification/Prelude.thy ===== *)
theory Prelude
  imports Main "HOL-Library.Word" "HOL-Library.Monad_Syntax"
begin

text \<open>
  Shared vocabulary of the development.

  C strings are HOL strings: the list holds the characters before the
  terminating NUL, and a pointer into a string is the suffix it points to, so
  \<open>p[i]\<close> is read with \<open>ch_at p i\<close>, which yields NUL at the end.
  C arrays of fixed size are lists of that length; \<open>arr_get\<close> and
  \<open>arr_set\<close> yield None on an index out of bounds, so a model that
  returns Some has made no access outside its arrays.  The macro
  \<open>ruri_error\<close> (include/ruri.h) ends the process with status 114; it is
  the left summand \<open>Fatal\<close> of a result, and \<open>Undefined\<close> is
  undefined behaviour of C (an invalid free, a store outside an object).
  \<open>Exited\<close> is a regular end of the process.  The libc functions the sources
  use (strchr, strstr, strtok, strtol, atoi, the %d of printf) are defined here
  on these strings.
\<close>

section \<open>Collections of hints\<close>

named_theorems arr_simps
named_theorems cstr_simps

section \<open>Fixed-size arrays with bounds checks\<close>

definition arr_get :: "'a list \<Rightarrow> nat \<Rightarrow> 'a option" where
  "arr_get a i = (if i < length a then Some (a ! i) else None)"

definition arr_set :: "'a list \<Rightarrow> nat \<Rightarrow> 'a \<Rightarrow> 'a list option" where
  "arr_set a i v = (if i < length a then Some (a[i := v]) else None)"

lemma arr_get_Some [arr_simps]: "i < length a \<Longrightarrow> arr_get a i = Some (a ! i)"
  by (simp add: arr_get_def)

lemma arr_set_Some [arr_simps]: "i < length a \<Longrightarrow> arr_set a i v = Some (a[i := v])"
  by (simp add: arr_set_def)

lemma arr_get_append [arr_simps]: "arr_get (xs @ y # ys) (length xs) = Some y"
  by (simp add: arr_get_def)

lemma arr_set_append [arr_simps]:
  "arr_set (xs @ y # ys) (length xs) v = Some (xs @ v # ys)"
  by (simp add: arr_set_def)

lemma arr_set_length: "arr_set a i v = Some b \<Longrightarrow> length b = length a"
  by (auto simp: arr_set_def split: if_splits)

fun fold_opt :: "('s \<Rightarrow> 'a \<Rightarrow> 's option) \<Rightarrow> 'a list \<Rightarrow> 's \<Rightarrow> 's option" where
  "fold_opt f [] s = Some s"
| "fold_opt f (x # xs) s = f s x \<bind> fold_opt f xs"

section \<open>Errors as values\<close>

datatype fault = Fatal string | Undefined string | Exited string

type_synonym 'a result = "fault + 'a"

fun res_bind :: "'a result \<Rightarrow> ('a \<Rightarrow> 'b result) \<Rightarrow> 'b result" where
  "res_bind (Inl e) f = Inl e"
| "res_bind (Inr v) f = f v"

lemma res_bind_eq_Inr: "res_bind r f = Inr v \<longleftrightarrow> (\<exists>u. r = Inr u \<and> f u = Inr v)"
  by (cases r) auto

text \<open>A chain of tests that select an operation: what holds for each alternative
  holds for the one selected.\<close>

lemma select_chain:
  "(if b then Some x else y) = Some h \<Longrightarrow> Q x \<Longrightarrow> (y = Some h \<Longrightarrow> Q h) \<Longrightarrow> Q h"
  by (simp split: if_splits)

lemma select_chain_if:
  "(if b then Some x else y) = Some h \<Longrightarrow> (b \<Longrightarrow> Q x) \<Longrightarrow> (y = Some h \<Longrightarrow> Q h) \<Longrightarrow> Q h"
  by (simp split: if_splits)

section \<open>Characters\<close>

abbreviation nul :: char where "nul \<equiv> CHR 0x00"
abbreviation tab :: char where "tab \<equiv> CHR 0x09"
abbreviation newline :: char where "newline \<equiv> CHR 0x0A"
abbreviation blank :: char where "blank \<equiv> CHR 0x20"
abbreviation dquote :: char where "dquote \<equiv> CHR 0x22"
abbreviation colon :: char where "colon \<equiv> CHR 0x3A"
abbreviation backslash :: char where "backslash \<equiv> CHR 0x5C"

definition is_digit :: "char \<Rightarrow> bool" where
  "is_digit c = (48 \<le> (of_char c :: nat) \<and> (of_char c :: nat) \<le> 57)"

definition is_space :: "char \<Rightarrow> bool" where
  "is_space c = (c \<in> {blank, tab, newline, CHR 0x0B, CHR 0x0C, CHR 0x0D})"

definition to_lower :: "char \<Rightarrow> char" where
  "to_lower c = (let n = (of_char c :: nat) in if 65 \<le> n \<and> n \<le> 90 then char_of (n + 32) else c)"

definition ch_at :: "string \<Rightarrow> nat \<Rightarrow> char" where
  "ch_at p i = (if i < length p then p ! i else nul)"

lemma ch_at_simps [cstr_simps]:
  "ch_at [] i = nul" "ch_at (c # cs) 0 = c" "ch_at (c # cs) (Suc i) = ch_at cs i"
  by (simp_all add: ch_at_def)

section \<open>Searching a string\<close>

fun strchr_ix :: "char \<Rightarrow> string \<Rightarrow> nat option" where
  "strchr_ix c [] = None"
| "strchr_ix c (x # xs) = (if x = c then Some 0 else map_option Suc (strchr_ix c xs))"

definition strchr :: "char \<Rightarrow> string \<Rightarrow> string option" where
  "strchr c s = map_option (\<lambda>i. drop i s) (strchr_ix c s)"

fun is_prefix :: "string \<Rightarrow> string \<Rightarrow> bool" where
  "is_prefix [] s = True"
| "is_prefix (x # xs) [] = False"
| "is_prefix (x # xs) (y # ys) = (x = y \<and> is_prefix xs ys)"

fun strstr_ix :: "string \<Rightarrow> string \<Rightarrow> nat option" where
  "strstr_ix [] needle = (if needle = [] then Some 0 else None)"
| "strstr_ix (x # xs) needle =
     (if is_prefix needle (x # xs) then Some 0 else map_option Suc (strstr_ix xs needle))"

definition strstr :: "string \<Rightarrow> string \<Rightarrow> string option" where
  "strstr s needle = map_option (\<lambda>i. drop i s) (strstr_ix s needle)"

lemma is_prefix_append [simp, cstr_simps]: "is_prefix p (p @ s)"
  by (induction p) auto

lemma takeWhile_stop [cstr_simps]: "c \<notin> set s \<Longrightarrow> takeWhile (\<lambda>x. x \<noteq> c) (s @ c # t) = s"
  by (induction s) auto

lemma is_prefix_refl [simp, cstr_simps]: "is_prefix p p"
  by (induction p) auto

lemma is_prefix_iff: "is_prefix p s \<longleftrightarrow> (\<exists>t. s = p @ t)"
  by (induction p s rule: is_prefix.induct) auto

text \<open>strncmp with the length of the prefix, first match wins; the text after it.\<close>

fun find_prefix :: "(string \<times> 'a) list \<Rightarrow> string \<Rightarrow> ('a \<times> string) option" where
  "find_prefix [] s = None"
| "find_prefix ((p, v) # ps) s =
     (if is_prefix p s then Some (v, drop (length p) s) else find_prefix ps s)"

lemma find_prefix_Some:
  "find_prefix ps s = Some (v, r) \<Longrightarrow> \<exists>p. (p, v) \<in> set ps \<and> s = p @ r"
  by (induction ps s rule: find_prefix.induct) (auto simp: is_prefix_iff split: if_splits)

lemma strchr_ix_None_iff: "strchr_ix c s = None \<longleftrightarrow> c \<notin> set s"
  by (induction s) auto

lemma strchr_ix_append [cstr_simps]:
  "c \<notin> set s \<Longrightarrow> strchr_ix c (s @ c # t) = Some (length s)"
  by (induction s) auto

lemma strchr_ix_append2:
  "c \<notin> set s \<Longrightarrow> strchr_ix c (s @ t) = map_option (\<lambda>i. length s + i) (strchr_ix c t)"
  by (induction s) (cases "strchr_ix c t"; auto)+

lemma strchr_ix_Some:
  "strchr_ix c s = Some i \<Longrightarrow> i < length s \<and> s ! i = c \<and> c \<notin> set (take i s)"
  by (induction s arbitrary: i) (auto split: if_splits)

lemma strchr_append [cstr_simps]: "c \<notin> set s \<Longrightarrow> strchr c (s @ c # t) = Some (c # t)"
  by (simp add: strchr_def strchr_ix_append)

lemma strchr_None_iff: "strchr c s = None \<longleftrightarrow> c \<notin> set s"
  by (simp add: strchr_def strchr_ix_None_iff)

lemma strchr_head [cstr_simps]: "strchr c (c # t) = Some (c # t)"
  by (simp add: strchr_def)

lemma strchr_Some_suffix:
  "strchr c s = Some t \<Longrightarrow> \<exists>pre r. s = pre @ c # r \<and> t = c # r \<and> c \<notin> set pre"
proof -
  assume "strchr c s = Some t"
  then obtain i where i: "strchr_ix c s = Some i" and t: "t = drop i s"
    by (auto simp: strchr_def)
  from strchr_ix_Some[OF i] have "i < length s" "s ! i = c" "c \<notin> set (take i s)" by auto
  moreover from this have "s = take i s @ c # drop (Suc i) s"
    by (metis id_take_nth_drop)
  moreover have "t = c # drop (Suc i) s"
    using t calculation by (metis Cons_nth_drop_Suc)
  ultimately show ?thesis by blast
qed

lemma strchr_shorter: "strchr c s = Some t \<Longrightarrow> length (tl t) < length s"
  by (drule strchr_Some_suffix) auto

section \<open>Numbers\<close>

definition digit_val :: "char \<Rightarrow> nat" where
  "digit_val c = (of_char c :: nat) - 48"

definition digit_char :: "nat \<Rightarrow> char" where
  "digit_char d = char_of (48 + d)"

fun digits_val :: "nat \<Rightarrow> string \<Rightarrow> nat" where
  "digits_val acc [] = acc"
| "digits_val acc (c # cs) =
     (if is_digit c then digits_val (acc * 10 + digit_val c) cs else acc)"

definition signed_val :: "string \<Rightarrow> int" where
  "signed_val s = (case s of [] \<Rightarrow> 0
     | c # cs \<Rightarrow> if c = CHR ''-'' then - int (digits_val 0 cs)
                else if c = CHR ''+'' then int (digits_val 0 cs)
                else int (digits_val 0 s))"

definition strtol :: "string \<Rightarrow> int" where
  "strtol s = max (- (2 ^ 63)) (min (2 ^ 63 - 1) (signed_val (dropWhile is_space s)))"

text \<open>What strtol leaves in *endptr: the text after the digits, or all of it
  when there is no digit.\<close>

definition strtol_end :: "string \<Rightarrow> string" where
  "strtol_end s =
     (let t = dropWhile is_space s;
          u = (case t of [] \<Rightarrow> [] | c # cs \<Rightarrow> if c = CHR ''-'' \<or> c = CHR ''+'' then cs else t)
      in if u \<noteq> [] \<and> is_digit (hd u) then dropWhile is_digit u else s)"

definition atoi :: "string \<Rightarrow> int" where
  "atoi s = signed_take_bit 31 (strtol s)"

fun show_nat :: "nat \<Rightarrow> string" where
  "show_nat n = (if n < 10 then [digit_char n]
                 else show_nat (n div 10) @ [digit_char (n mod 10)])"

declare show_nat.simps [simp del]

definition show_int :: "int \<Rightarrow> string" where
  "show_int i = (if i < 0 then CHR ''-'' # show_nat (nat (- i)) else show_nat (nat i))"

lemma of_digit_char: "d < 10 \<Longrightarrow> (of_char (digit_char d) :: nat) = 48 + d"
  by (simp add: digit_char_def)

lemma digit_char_props [simp]:
  assumes "d < 10"
  shows "is_digit (digit_char d)" "digit_val (digit_char d) = d"
  using of_digit_char[OF assms] assms by (simp_all add: is_digit_def digit_val_def)

lemma digits_val_append:
  "\<forall>c \<in> set s. is_digit c \<Longrightarrow> digits_val a (s @ t) = digits_val (digits_val a s) t"
  by (induction s arbitrary: a) auto

lemma show_nat_digits: "c \<in> set (show_nat n) \<Longrightarrow> is_digit c"
proof (induction n rule: show_nat.induct)
  case (1 n)
  then show ?case by (subst (asm) (2) show_nat.simps) (auto split: if_splits)
qed

lemma show_nat_nonempty [simp]: "show_nat n \<noteq> []"
  by (subst show_nat.simps) simp

lemma digits_val_show_nat [simp]: "digits_val 0 (show_nat n) = n"
proof (induction n rule: show_nat.induct)
  case (1 n)
  show ?case
  proof (cases "n < 10")
    case True
    then show ?thesis by (subst show_nat.simps) simp
  next
    case False
    have "digits_val 0 (show_nat n) = digits_val (digits_val 0 (show_nat (n div 10))) [digit_char (n mod 10)]"
      using False by (subst show_nat.simps) (simp add: digits_val_append show_nat_digits)
    also have "\<dots> = n div 10 * 10 + n mod 10" using False 1 by simp
    finally show ?thesis by simp
  qed
qed

lemma is_digit_not: "is_digit c \<Longrightarrow> \<not> is_space c \<and> c \<noteq> CHR ''-'' \<and> c \<noteq> CHR ''+'' \<and> c \<noteq> colon
    \<and> c \<noteq> newline \<and> c \<noteq> dquote \<and> c \<noteq> backslash \<and> c \<noteq> nul \<and> c \<noteq> CHR ''['' \<and> c \<noteq> CHR '','' \<and> c \<noteq> CHR '']''"
  by (auto simp: is_digit_def is_space_def)

lemma signed_val_show_int: "signed_val (show_int i) = i"
proof (cases "i < 0")
  case True
  then show ?thesis by (simp add: signed_val_def show_int_def)
next
  case False
  obtain c cs where s: "show_nat (nat i) = c # cs" by (meson neq_Nil_conv show_nat_nonempty)
  have "c \<noteq> CHR ''-'' \<and> c \<noteq> CHR ''+''"
    using show_nat_digits[of c "nat i"] s is_digit_not by auto
  moreover have "digits_val 0 (c # cs) = nat i" using s digits_val_show_nat[of "nat i"] by simp
  ultimately show ?thesis using False s
    by (simp add: signed_val_def show_int_def del: digits_val.simps)
qed

lemma dropWhile_space_show_int: "dropWhile is_space (show_int i) = show_int i"
proof (cases "i < 0")
  case True
  then show ?thesis by (simp add: show_int_def is_space_def)
next
  case False
  obtain c cs where s: "show_nat (nat i) = c # cs" by (meson neq_Nil_conv show_nat_nonempty)
  then have "\<not> is_space c" using show_nat_digits[of c "nat i"] is_digit_not by auto
  then show ?thesis using s False by (simp add: show_int_def)
qed

lemma strtol_end_show_int: "strtol_end (show_int i) = []"
proof -
  have d: "\<forall>c \<in> set (show_nat n). is_digit c" for n using show_nat_digits by blast
  have e: "dropWhile is_digit (show_nat n) = []" "is_digit (hd (show_nat n))" for n
    using d[of n] by (auto simp: dropWhile_eq_Nil_conv)
  show ?thesis
  proof (cases "i < 0")
    case True
    then show ?thesis using e dropWhile_space_show_int[of i]
      by (simp add: strtol_end_def show_int_def)
  next
    case False
    obtain c cs where s: "show_nat (nat i) = c # cs" by (meson neq_Nil_conv show_nat_nonempty)
    then have "c \<noteq> CHR ''-'' \<and> c \<noteq> CHR ''+''" using d[of "nat i"] is_digit_not by auto
    then show ?thesis using False s e[of "nat i"] dropWhile_space_show_int[of i]
      by (auto simp: strtol_end_def show_int_def Let_def)
  qed
qed

lemma strtol_show_int:
  assumes "- (2 ^ 63) \<le> i" "i < 2 ^ 63"
  shows "strtol (show_int i) = i"
  using assms by (simp add: strtol_def dropWhile_space_show_int signed_val_show_int)

lemma atoi_show_int:
  assumes "- (2 ^ 31) \<le> i" "i < 2 ^ 31"
  shows "atoi (show_int i) = i"
proof -
  have "strtol (show_int i) = i"
    using assms by (simp add: strtol_def dropWhile_space_show_int signed_val_show_int)
  moreover have "signed_take_bit 31 i = i"
    using assms by (simp add: signed_take_bit_int_eq_self)
  ultimately show ?thesis by (simp add: atoi_def)
qed

end
