(* ===== verification/Caplist.thy ===== *)
theory Caplist
  imports Prelude
begin

text \<open>
  The capability lists of caplist.c and their use by drop_caps (chroot.c).

  A list is the C array \<open>cap_value_t drop_caplist[RURI_CAP_LAST_CAP + 1]\<close>: 115
  cells, the entries standing before the first \<open>RURI_INIT_VALUE\<close>.  Every
  operation is the C loop over indices; an access outside the array would make
  it None.  \<open>caps_of\<close> abstracts an array to the entries it holds and
  \<open>caplist_wf\<close> is the invariant all operations keep.  The contract the
  callers rely on is the locale \<open>cap_store\<close>; it is interpreted on the C
  operations, and the loops of ruri_build_caplist are proved through it.

  Outside the model: the content of /proc/sys/kernel/cap_last_cap, the answers
  of cap_get_bound, the constant CAP_LAST_CAP of the build and libcap's
  cap_from_name are fields or arguments.
\<close>

section \<open>Constants and data\<close>

definition ruri_cap_last_cap :: nat where "ruri_cap_last_cap = 114"

definition ruri_init_value :: int where "ruri_init_value = -114"

type_synonym caplist = "int list"

text \<open>What get_last_cap observes: its thread-local variable, the number fscanf
  reads from the proc file (None when the file cannot be opened or holds no
  number), the capabilities for which cap_get_bound fails with EINVAL, and the
  compiled-in CAP_LAST_CAP.\<close>

record cap_kernel =
  last_cap_cache :: int
  last_cap_file :: "int option"
  bound_einval :: "int \<Rightarrow> bool"
  compiled_last_cap :: int

fun probe_bound :: "(int \<Rightarrow> bool) \<Rightarrow> nat list \<Rightarrow> int" where
  "probe_bound einval [] = -1"
| "probe_bound einval (i # is) =
     (if einval (int i) then int i - 1 else probe_bound einval is)"

definition get_last_cap :: "cap_kernel \<Rightarrow> int" where
  "get_last_cap k =
     (if last_cap_cache k \<noteq> -1 then last_cap_cache k
      else case last_cap_file k of
        Some n \<Rightarrow> if n \<ge> int ruri_cap_last_cap then compiled_last_cap k else n
      | None \<Rightarrow>
          (let ret = probe_bound (bound_einval k) [0..<ruri_cap_last_cap]
           in if ret = -1 then compiled_last_cap k else ret))"

section \<open>Operations\<close>

text \<open>ruri_cap_from_name lowers the case, prefixes names of more than four
  characters, and asks libcap (an argument: None is a negative return).\<close>

definition ruri_cap_from_name :: "(string \<Rightarrow> int option) \<Rightarrow> string \<Rightarrow> int option" where
  "ruri_cap_from_name cap_from_name str =
     (let buf = map to_lower str in
      let buf' = (if length buf > 4 \<and> \<not> is_prefix ''cap_'' buf then ''cap_'' @ buf else buf)
      in cap_from_name buf')"

text \<open>The loops run the index i (or k) up to RURI_CAP_LAST_CAP.\<close>

function is_in_loop :: "nat \<Rightarrow> caplist \<Rightarrow> int \<Rightarrow> bool option" where
  "is_in_loop i list cap =
     (if i < ruri_cap_last_cap then do {
        v \<leftarrow> arr_get list i;
        if v = cap then Some True
        else if v = ruri_init_value then Some False
        else is_in_loop (Suc i) list cap }
      else Some False)"
  by auto
termination by (relation "measure (\<lambda>(i, _). ruri_cap_last_cap - i)") auto

definition ruri_is_in_caplist :: "caplist \<Rightarrow> int \<Rightarrow> bool option" where
  "ruri_is_in_caplist list cap = is_in_loop 0 list cap"

function add_loop :: "nat \<Rightarrow> caplist \<Rightarrow> int \<Rightarrow> caplist option" where
  "add_loop k list cap =
     (if k < ruri_cap_last_cap then do {
        v \<leftarrow> arr_get list k;
        if v = ruri_init_value then do {
          list' \<leftarrow> arr_set list k cap;
          arr_set list' (k + 1) ruri_init_value }
        else add_loop (Suc k) list cap }
      else Some list)"
  by auto
termination by (relation "measure (\<lambda>(k, _). ruri_cap_last_cap - k)") auto

definition ruri_add_to_caplist :: "cap_kernel \<Rightarrow> caplist \<Rightarrow> int \<Rightarrow> caplist option" where
  "ruri_add_to_caplist kern list cap =
     (if cap > get_last_cap kern then Some list
      else do {
        present \<leftarrow> ruri_is_in_caplist list cap;
        if \<not> present then add_loop 0 list cap else Some list })"

text \<open>The inner while loop of ruri_del_from_caplist: it shifts the tail down one
  cell and returns the index it stopped at.\<close>

function del_shift :: "nat \<Rightarrow> caplist \<Rightarrow> (nat \<times> caplist) option" where
  "del_shift i list =
     (if i < ruri_cap_last_cap then do {
        v \<leftarrow> arr_get list i;
        if v \<noteq> ruri_init_value then do {
          w \<leftarrow> arr_get list (i + 1);
          list' \<leftarrow> arr_set list i w;
          del_shift (Suc i) list' }
        else Some (i, list) }
      else Some (i, list))"
  by auto
termination by (relation "measure (\<lambda>(i, _). ruri_cap_last_cap - i)") auto

function del_loop :: "nat \<Rightarrow> caplist \<Rightarrow> int \<Rightarrow> caplist option" where
  "del_loop i list cap =
     (if i < ruri_cap_last_cap then do {
        v \<leftarrow> arr_get list i;
        if v = cap then do {
          (j, list') \<leftarrow> del_shift i list;
          if j = 0 then None else arr_set list' (j - 1) ruri_init_value }
        else if v = ruri_init_value then Some list
        else del_loop (Suc i) list cap }
      else Some list)"
  by auto
termination by (relation "measure (\<lambda>(i, _). ruri_cap_last_cap - i)") auto

definition ruri_del_from_caplist :: "caplist \<Rightarrow> int \<Rightarrow> caplist option" where
  "ruri_del_from_caplist list cap = del_loop 0 list cap"

text \<open>ruri_build_caplist: the loop that writes all capabilities, the loop that
  deletes the entries of a list (run on keep_caplist_common and on
  keep_caplist_extra), and the loop that adds those of drop_caplist_extra.\<close>

definition keep_caplist_common :: "caplist" where
  "keep_caplist_common = [0, 1, 4, 3, 6, 7, 31, 8, 10, 5, 29, ruri_init_value]"

fun fill_loop :: "nat list \<Rightarrow> caplist \<Rightarrow> caplist option" where
  "fill_loop [] list = Some list"
| "fill_loop (i # is) list = do {
     list' \<leftarrow> arr_set list i (int i);
     list'' \<leftarrow> arr_set list' (i + 1) ruri_init_value;
     fill_loop is list'' }"

function del_each :: "nat \<Rightarrow> caplist \<Rightarrow> caplist \<Rightarrow> caplist option" where
  "del_each i from list =
     (if i < ruri_cap_last_cap then do {
        v \<leftarrow> arr_get from i;
        if v = ruri_init_value then Some list
        else do { list' \<leftarrow> ruri_del_from_caplist list v; del_each (Suc i) from list' } }
      else Some list)"
  by auto
termination by (relation "measure (\<lambda>(i, _). ruri_cap_last_cap - i)") auto

function add_each :: "cap_kernel \<Rightarrow> nat \<Rightarrow> caplist \<Rightarrow> caplist \<Rightarrow> caplist option" where
  "add_each kern i from list =
     (if i < ruri_cap_last_cap then do {
        v \<leftarrow> arr_get from i;
        if v = ruri_init_value then Some list
        else do { list' \<leftarrow> ruri_add_to_caplist kern list v; add_each kern (Suc i) from list' } }
      else Some list)"
  by auto
termination by (relation "measure (\<lambda>(_, i, _). ruri_cap_last_cap - i)") auto

definition ruri_build_caplist ::
    "cap_kernel \<Rightarrow> caplist \<Rightarrow> bool \<Rightarrow> caplist \<Rightarrow> caplist \<Rightarrow> caplist option" where
  "ruri_build_caplist kern list privileged drop_extra keep_extra = do {
     list0 \<leftarrow> arr_set list 0 ruri_init_value;
     list1 \<leftarrow> (if \<not> privileged then do {
                full \<leftarrow> fill_loop [0..<nat (get_last_cap kern + 1)] list0;
                del_each 0 keep_caplist_common full }
              else Some list0);
     d \<leftarrow> arr_get drop_extra 0;
     list2 \<leftarrow> (if d \<noteq> ruri_init_value then add_each kern 0 drop_extra list1 else Some list1);
     k \<leftarrow> arr_get keep_extra 0;
     if k \<noteq> ruri_init_value then del_each 0 keep_extra list2 else Some list2 }"

declare del_each.simps [simp del] add_each.simps [simp del]

text \<open>drop_caps of chroot.c, on the capability sets of the process.  libcap's
  CAP_IS_SUPPORTED and the success of cap_drop_bound are fields; a failed drop is
  a warning, which force_panic turns into ruri_error.  The results of capget(2) and capset(2)
  are fields as well, the code ignores both: if capget fails, capset is given what malloc(3)
  returned, of which \<open>unread_inheritable\<close> and \<open>unread_permitted\<close> are the two sets that
  matter.  Version 3 of the calls passes two words for each set, and the code zeroes the first
  of the inheritable set: the capabilities below 32.  Capabilities that are not inheritable and
  permitted leave the ambient set (capabilities(7)).\<close>

record cap_sets =
  cap_bounding :: "int set"
  cap_ambient :: "int set"
  cap_inheritable :: "int set"

record drop_env =
  cap_is_supported :: "int \<Rightarrow> bool"
  cap_drop_bound_ok :: "int \<Rightarrow> bool"
  drop_force_panic :: bool
  capget_ok :: bool
  capset_ok :: bool
  unread_inheritable :: "int set"
  unread_permitted :: "int set"

function drop_caps_loop :: "drop_env \<Rightarrow> nat \<Rightarrow> caplist \<Rightarrow> cap_sets \<Rightarrow> cap_sets result option" where
  "drop_caps_loop env i list st =
     (if i < ruri_cap_last_cap + 1 then do {
        c \<leftarrow> arr_get list i;
        if c = ruri_init_value then Some (Inr st)
        else if \<not> cap_is_supported env c then drop_caps_loop env (Suc i) list st
        else if \<not> cap_drop_bound_ok env c \<and> drop_force_panic env
          then Some (Inl (Fatal ''Force panic is enabled, exiting now.''))
        else
          (let st1 = (if cap_drop_bound_ok env c
                      then st\<lparr>cap_bounding := cap_bounding st - {c}\<rparr> else st);
               st2 = st1\<lparr>cap_ambient := cap_ambient st1 - {c}\<rparr>
           in drop_caps_loop env (Suc i) list st2) }
      else Some (Inr st))"
  by auto
termination by (relation "measure (\<lambda>(_, i, _). ruri_cap_last_cap + 1 - i)") auto

definition capset_sets :: "int set \<Rightarrow> int set \<Rightarrow> cap_sets \<Rightarrow> cap_sets" where
  "capset_sets inheritable permitted st =
     (let inh = Set.filter (\<lambda>c. c \<ge> 32) inheritable in
      st\<lparr>cap_inheritable := inh, cap_ambient := cap_ambient st \<inter> inh \<inter> permitted\<rparr>)"

definition clear_inheritable :: "drop_env \<Rightarrow> cap_sets \<Rightarrow> cap_sets" where
  "clear_inheritable env st =
     (if \<not> capset_ok env then st
      else if capget_ok env then capset_sets (cap_inheritable st) UNIV st
      else capset_sets (unread_inheritable env) (unread_permitted env) st)"

definition drop_caps :: "drop_env \<Rightarrow> caplist \<Rightarrow> cap_sets \<Rightarrow> cap_sets result option" where
  "drop_caps env list st = do {
     r \<leftarrow> drop_caps_loop env 0 list st;
     Some (res_bind r (\<lambda>st'. Inr (clear_inheritable env st'))) }"

declare drop_caps_loop.simps [simp del]
declare is_in_loop.simps [simp del] add_loop.simps [simp del]
  del_shift.simps [simp del] del_loop.simps [simp del]

section \<open>Contents of an array and the invariant\<close>

definition caps_of :: "caplist \<Rightarrow> int list" where
  "caps_of list = takeWhile (\<lambda>c. c \<noteq> ruri_init_value) list"

definition caplist_wf :: "int \<Rightarrow> caplist \<Rightarrow> bool" where
  "caplist_wf lc list =
     (length list = ruri_cap_last_cap + 1 \<and> ruri_init_value \<in> set list \<and>
      distinct (caps_of list) \<and> (\<forall>c \<in> set (caps_of list). 0 \<le> c \<and> c \<le> lc))"

lemma caps_of_shape [simp]:
  "ruri_init_value \<notin> set xs \<Longrightarrow> caps_of (xs @ ruri_init_value # junk) = xs"
  unfolding caps_of_def by (induction xs) auto

lemma caplist_shape:
  assumes "ruri_init_value \<in> set list"
  obtains junk where "list = caps_of list @ ruri_init_value # junk"
    "ruri_init_value \<notin> set (caps_of list)"
proof -
  have "dropWhile (\<lambda>c. c \<noteq> ruri_init_value) list \<noteq> []" using assms by (auto simp: dropWhile_eq_Nil_conv)
  then obtain x junk where d: "dropWhile (\<lambda>c. c \<noteq> ruri_init_value) list = x # junk"
    by (meson neq_Nil_conv)
  then have "x = ruri_init_value" by (simp add: dropWhile_eq_Cons_conv)
  with d takeWhile_dropWhile_id[of "\<lambda>c. c \<noteq> ruri_init_value" list]
  have "list = caps_of list @ ruri_init_value # junk"
    unfolding caps_of_def by simp
  moreover have "ruri_init_value \<notin> set (caps_of list)"
    by (auto simp: caps_of_def dest: set_takeWhileD)
  ultimately show ?thesis using that by blast
qed

lemma is_in_loop_shape:
  assumes "length (pre @ xs) \<le> ruri_cap_last_cap" "cap \<noteq> ruri_init_value"
    "ruri_init_value \<notin> set xs"
  shows "is_in_loop (length pre) (pre @ xs @ ruri_init_value # junk) cap = Some (cap \<in> set xs)"
  using assms
proof (induction xs arbitrary: pre)
  case Nil
  then show ?case by (subst is_in_loop.simps) (auto simp: arr_simps)
next
  case (Cons x xs)
  have "is_in_loop (length (pre @ [x])) ((pre @ [x]) @ xs @ ruri_init_value # junk) cap
      = Some (cap \<in> set xs)"
    by (rule Cons.IH) (use Cons.prems in auto)
  then show ?case using Cons.prems by (subst is_in_loop.simps) (auto simp: arr_simps)
qed

lemma add_loop_shape:
  assumes "length (pre @ xs) < ruri_cap_last_cap" "ruri_init_value \<notin> set xs"
  shows "add_loop (length pre) (pre @ xs @ ruri_init_value # y # junk) cap
      = Some (pre @ xs @ cap # ruri_init_value # junk)"
  using assms
proof (induction xs arbitrary: pre)
  case Nil
  then show ?case by (subst add_loop.simps) (auto simp: arr_simps arr_set_def list_update_append)
next
  case (Cons x xs)
  have "add_loop (length (pre @ [x])) ((pre @ [x]) @ xs @ ruri_init_value # y # junk) cap
      = Some ((pre @ [x]) @ xs @ cap # ruri_init_value # junk)"
    by (rule Cons.IH) (use Cons.prems in auto)
  then show ?case using Cons.prems by (subst add_loop.simps) (auto simp: arr_simps)
qed

lemma del_shift_shape:
  assumes "length (pre @ x # xs) \<le> ruri_cap_last_cap" "ruri_init_value \<notin> set xs"
    "x \<noteq> ruri_init_value"
  shows "del_shift (length pre) (pre @ x # xs @ ruri_init_value # junk)
      = Some (length pre + length xs + 1, pre @ xs @ ruri_init_value # ruri_init_value # junk)"
  using assms
proof (induction xs arbitrary: pre x)
  case Nil
  have step: "del_shift (Suc (length pre)) (pre @ ruri_init_value # ruri_init_value # junk)
      = Some (Suc (length pre), pre @ ruri_init_value # ruri_init_value # junk)"
    by (subst del_shift.simps) (simp add: arr_get_def nth_append)
  show ?case using Nil step
    by (subst del_shift.simps) (simp add: arr_simps arr_get_def nth_append)
next
  case (Cons y ys)
  have "del_shift (length (pre @ [y])) ((pre @ [y]) @ y # ys @ ruri_init_value # junk)
      = Some (length (pre @ [y]) + length ys + 1, (pre @ [y]) @ ys @ ruri_init_value # ruri_init_value # junk)"
    by (rule Cons.IH) (use Cons.prems in auto)
  then show ?case using Cons.prems
    by (subst del_shift.simps) (simp add: arr_simps arr_get_def nth_append)
qed

lemma del_loop_shape:
  assumes "length (pre @ xs) \<le> ruri_cap_last_cap" "ruri_init_value \<notin> set xs"
    "cap \<noteq> ruri_init_value"
  shows "\<exists>junk'. length junk' = length junk + (if cap \<in> set xs then 1 else 0) \<and>
     del_loop (length pre) (pre @ xs @ ruri_init_value # junk) cap
       = Some (pre @ remove1 cap xs @ ruri_init_value # junk')"
  using assms
proof (induction xs arbitrary: pre)
  case Nil
  then show ?case by (subst del_loop.simps) (auto simp: arr_simps)
next
  case (Cons x xs)
  show ?case
  proof (cases "x = cap")
    case True
    then show ?thesis using Cons.prems del_shift_shape[of pre x xs junk]
      by (subst del_loop.simps) (auto simp: arr_simps arr_set_def list_update_append nth_append
          intro!: exI[of _ "ruri_init_value # junk"])
  next
    case False
    have "\<exists>junk'. length junk' = length junk + (if cap \<in> set xs then 1 else 0) \<and>
      del_loop (length (pre @ [x])) ((pre @ [x]) @ xs @ ruri_init_value # junk) cap
       = Some ((pre @ [x]) @ remove1 cap xs @ ruri_init_value # junk')"
      by (rule Cons.IH) (use Cons.prems in auto)
    then show ?thesis using Cons.prems False by (subst del_loop.simps) (auto simp: arr_simps)
  qed
qed

section \<open>The contract of a capability list\<close>

locale cap_store =
  fixes isin :: "'s \<Rightarrow> 'a \<Rightarrow> bool option"
    and add :: "'s \<Rightarrow> 'a \<Rightarrow> 's option"
    and del :: "'s \<Rightarrow> 'a \<Rightarrow> 's option"
    and entries :: "'s \<Rightarrow> 'a list"
    and inv :: "'s \<Rightarrow> bool"
    and admissible :: "'a \<Rightarrow> bool"
    and supported :: "'a \<Rightarrow> bool"
  assumes isin_law: "inv s \<Longrightarrow> admissible x \<Longrightarrow> isin s x = Some (x \<in> set (entries s))"
    and add_law: "inv s \<Longrightarrow> admissible x \<Longrightarrow> \<exists>t. add s x = Some t \<and> inv t \<and>
      entries t = entries s @ (if supported x \<and> x \<notin> set (entries s) then [x] else [])"
    and del_law: "inv s \<Longrightarrow> admissible x \<Longrightarrow> \<exists>t. del s x = Some t \<and> inv t \<and>
      entries t = remove1 x (entries s)"
    and distinct_law: "inv s \<Longrightarrow> distinct (entries s)"
begin

lemma add_all:
  assumes "inv s" "\<forall>x \<in> set xs. admissible x"
  shows "\<exists>t. fold_opt add xs s = Some t \<and> inv t \<and>
    set (entries t) = set (entries s) \<union> {x \<in> set xs. supported x}"
  using assms
proof (induction xs arbitrary: s)
  case (Cons x xs)
  then obtain t where t: "add s x = Some t" "inv t"
    "entries t = entries s @ (if supported x \<and> x \<notin> set (entries s) then [x] else [])"
    using add_law by fastforce
  with Cons.IH[of t] Cons.prems(2) show ?case by (auto split: if_splits)
qed simp

lemma del_all:
  assumes "inv s" "\<forall>x \<in> set xs. admissible x"
  shows "\<exists>t. fold_opt del xs s = Some t \<and> inv t \<and>
    set (entries t) = set (entries s) - set xs"
  using assms
proof (induction xs arbitrary: s)
  case (Cons x xs)
  then obtain t where t: "del s x = Some t" "inv t" "entries t = remove1 x (entries s)"
    using del_law by fastforce
  have "set (entries t) = set (entries s) - {x}"
    using t distinct_law[OF Cons.prems(1)] by (simp add: set_remove1_eq)
  with t Cons.IH[of t] Cons.prems(2) show ?case by fastforce
qed simp

lemma isin_after_add:
  assumes "inv s" "admissible x" "admissible y" "supported x" "add s x = Some t"
  shows "isin t y = Some (y = x \<or> y \<in> set (entries s))"
proof -
  have "inv t" "entries t = entries s @ (if x \<notin> set (entries s) then [x] else [])"
    using add_law[OF assms(1,2)] assms(4,5) by simp_all
  then show ?thesis using isin_law[of t y] assms(3) by (cases "x \<in> set (entries s)") auto
qed

lemma isin_after_del:
  assumes "inv s" "admissible x" "admissible y" "del s x = Some t"
  shows "isin t y = Some (y \<noteq> x \<and> y \<in> set (entries s))"
  using assms del_law[of s x] isin_law[of t y] distinct_law[of s] by (auto simp: set_remove1_eq)

end

section \<open>The C operations meet the contract\<close>

lemma caplist_wf_length_entries:
  assumes "caplist_wf lc l" "lc < int ruri_cap_last_cap"
  shows "length (caps_of l) \<le> ruri_cap_last_cap"
    and "0 \<le> x \<Longrightarrow> x \<le> lc \<Longrightarrow> x \<notin> set (caps_of l) \<Longrightarrow> length (caps_of l) < ruri_cap_last_cap"
proof -
  have d: "distinct (caps_of l)" and sub: "set (caps_of l) \<subseteq> {0..lc}"
    using assms(1) by (auto simp: caplist_wf_def)
  have "card (set (caps_of l)) \<le> card {0..lc}" using sub by (intro card_mono) auto
  then show "length (caps_of l) \<le> ruri_cap_last_cap"
    using d assms(2) by (simp add: distinct_card ruri_cap_last_cap_def)
  assume x: "0 \<le> x" "x \<le> lc" "x \<notin> set (caps_of l)"
  then have "card (insert x (set (caps_of l))) \<le> card {0..lc}" using sub by (intro card_mono) auto
  then show "length (caps_of l) < ruri_cap_last_cap"
    using d x assms(2) by (simp add: distinct_card ruri_cap_last_cap_def)
qed

lemma init_not_nonneg: "(0::int) \<le> x \<Longrightarrow> x \<noteq> ruri_init_value"
  by (auto simp: ruri_init_value_def)

lemma is_in_caplist_correct:
  assumes "caplist_wf lc l" "lc < int ruri_cap_last_cap" "0 \<le> cap"
  shows "ruri_is_in_caplist l cap = Some (cap \<in> set (caps_of l))"
proof -
  obtain junk where l: "l = caps_of l @ ruri_init_value # junk" and n: "ruri_init_value \<notin> set (caps_of l)"
    using assms(1) caplist_shape unfolding caplist_wf_def by blast
  show ?thesis
    using is_in_loop_shape[of "[]" "caps_of l" cap junk] caplist_wf_length_entries(1)[OF assms(1,2)]
      l n init_not_nonneg[OF assms(3)] by (simp add: ruri_is_in_caplist_def)
qed

lemma caplist_wfI:
  assumes "length (xs @ ruri_init_value # junk) = ruri_cap_last_cap + 1"
    "distinct xs" "\<forall>c \<in> set xs. 0 \<le> c \<and> c \<le> lc"
  shows "caplist_wf lc (xs @ ruri_init_value # junk) \<and> caps_of (xs @ ruri_init_value # junk) = xs"
proof -
  have "ruri_init_value \<notin> set xs" using assms(3) init_not_nonneg by blast
  then show ?thesis using assms by (simp add: caplist_wf_def)
qed

lemma add_to_caplist_correct:
  assumes wf: "caplist_wf (get_last_cap kern) l" and lc: "get_last_cap kern < int ruri_cap_last_cap"
    and cap: "0 \<le> cap"
  shows "\<exists>t. ruri_add_to_caplist kern l cap = Some t \<and> caplist_wf (get_last_cap kern) t \<and>
    caps_of t = caps_of l @ (if cap \<le> get_last_cap kern \<and> cap \<notin> set (caps_of l) then [cap] else [])"
proof (cases "cap \<le> get_last_cap kern \<and> cap \<notin> set (caps_of l)")
  case False
  then show ?thesis using wf is_in_caplist_correct[OF wf lc cap]
    by (auto simp: ruri_add_to_caplist_def)
next
  case True
  obtain junk where l: "l = caps_of l @ ruri_init_value # junk" and n: "ruri_init_value \<notin> set (caps_of l)"
    using wf caplist_shape unfolding caplist_wf_def by blast
  define xs where "xs = caps_of l"
  have len: "length xs < ruri_cap_last_cap"
    using caplist_wf_length_entries(2)[OF wf lc cap] True by (simp add: xs_def)
  have ltot: "length l = ruri_cap_last_cap + 1" using wf by (simp add: caplist_wf_def)
  have llen: "length (xs @ ruri_init_value # junk) = ruri_cap_last_cap + 1"
    using ltot l by (metis xs_def)
  then obtain y junk' where junk: "junk = y # junk'" using len by (cases junk) auto
  have "ruri_add_to_caplist kern l cap = Some (xs @ cap # ruri_init_value # junk')"
    using True is_in_caplist_correct[OF wf lc cap] add_loop_shape[of "[]" xs y junk' cap] len n l junk
    by (simp add: ruri_add_to_caplist_def xs_def)
  moreover have "caplist_wf (get_last_cap kern) ((xs @ [cap]) @ ruri_init_value # junk') \<and>
      caps_of ((xs @ [cap]) @ ruri_init_value # junk') = xs @ [cap]"
    by (rule caplist_wfI) (use llen junk wf True cap xs_def in \<open>auto simp: caplist_wf_def\<close>)
  ultimately show ?thesis using True by (simp add: xs_def)
qed

lemma del_from_caplist_correct:
  assumes wf: "caplist_wf lc l" and lc: "lc < int ruri_cap_last_cap" and cap: "0 \<le> cap"
  shows "\<exists>t. ruri_del_from_caplist l cap = Some t \<and> caplist_wf lc t \<and>
    caps_of t = remove1 cap (caps_of l)"
proof -
  obtain junk where l: "l = caps_of l @ ruri_init_value # junk" and n: "ruri_init_value \<notin> set (caps_of l)"
    using wf caplist_shape unfolding caplist_wf_def by blast
  define xs where "xs = caps_of l"
  have ltot: "length l = ruri_cap_last_cap + 1" using wf by (simp add: caplist_wf_def)
  have llen: "length (xs @ ruri_init_value # junk) = ruri_cap_last_cap + 1"
    using ltot l by (metis xs_def)
  have len: "length xs \<le> ruri_cap_last_cap"
    using caplist_wf_length_entries(1)[OF wf lc] by (simp add: xs_def)
  obtain junk' where j: "length junk' = length junk + (if cap \<in> set xs then 1 else 0)"
    and r: "ruri_del_from_caplist l cap = Some (remove1 cap xs @ ruri_init_value # junk')"
    using del_loop_shape[of "[]" xs cap junk] len n init_not_nonneg[OF cap] l
    by (auto simp: ruri_del_from_caplist_def xs_def)
  have "caplist_wf lc (remove1 cap xs @ ruri_init_value # junk') \<and>
      caps_of (remove1 cap xs @ ruri_init_value # junk') = remove1 cap xs"
  proof (rule caplist_wfI)
    have "cap \<in> set xs \<Longrightarrow> Suc (length (remove1 cap xs)) = length xs"
      using length_pos_if_in_set[of cap xs] by (simp add: length_remove1)
    then show "length (remove1 cap xs @ ruri_init_value # junk') = ruri_cap_last_cap + 1"
      using llen j by (cases "cap \<in> set xs") (simp_all add: remove1_idem)
    show "distinct (remove1 cap xs)" "\<forall>c \<in> set (remove1 cap xs). 0 \<le> c \<and> c \<le> lc"
      using wf xs_def by (auto simp: caplist_wf_def dest: set_remove1_subset[THEN subsetD])
  qed
  then show ?thesis using r by (simp add: xs_def)
qed

text \<open>The kernel of the interpretation is fixed by a guard in the invariant: the
  lists are well formed for the number get_last_cap reports, which is below the
  array bound.\<close>

definition caplist_inv :: "cap_kernel \<Rightarrow> caplist \<Rightarrow> bool" where
  "caplist_inv kern l =
     (caplist_wf (get_last_cap kern) l \<and> get_last_cap kern < int ruri_cap_last_cap)"

interpretation caps: cap_store ruri_is_in_caplist "ruri_add_to_caplist kern" ruri_del_from_caplist
  caps_of "caplist_inv kern" "\<lambda>c. 0 \<le> c" "\<lambda>c. c \<le> get_last_cap kern" for kern
proof unfold_locales
  fix s :: caplist and x :: int
  assume s: "caplist_inv kern s" and x: "0 \<le> x"
  then have wf: "caplist_wf (get_last_cap kern) s" and lc: "get_last_cap kern < int ruri_cap_last_cap"
    by (auto simp: caplist_inv_def)
  show "ruri_is_in_caplist s x = Some (x \<in> set (caps_of s))"
    using is_in_caplist_correct[OF wf lc x] .
  show "\<exists>t. ruri_add_to_caplist kern s x = Some t \<and> caplist_inv kern t \<and>
      caps_of t = caps_of s @ (if x \<le> get_last_cap kern \<and> x \<notin> set (caps_of s) then [x] else [])"
    using add_to_caplist_correct[OF wf lc x] lc by (simp add: caplist_inv_def)
  show "\<exists>t. ruri_del_from_caplist s x = Some t \<and> caplist_inv kern t \<and>
      caps_of t = remove1 x (caps_of s)"
    using del_from_caplist_correct[OF wf lc x] lc by (simp add: caplist_inv_def)
next
  fix s assume "caplist_inv kern s"
  then show "distinct (caps_of s)" by (simp add: caplist_inv_def caplist_wf_def)
qed

section \<open>ruri_build_caplist\<close>

lemma del_each_drop:
  "i \<le> ruri_cap_last_cap \<Longrightarrow> from = pre @ xs @ ruri_init_value # junk \<Longrightarrow> i = length pre \<Longrightarrow>
   ruri_init_value \<notin> set xs \<Longrightarrow> length (pre @ xs) \<le> ruri_cap_last_cap \<Longrightarrow>
   del_each i from l = fold_opt ruri_del_from_caplist xs l"
proof (induction xs arbitrary: i pre l)
  case Nil
  then show ?case by (subst del_each.simps) (auto simp: arr_simps)
next
  case (Cons x xs)
  have "del_each (Suc i) from t = fold_opt ruri_del_from_caplist xs t" for t
    by (rule Cons.IH[of _ "pre @ [x]"]) (use Cons.prems in auto)
  then have "del_each (Suc i) from = fold_opt ruri_del_from_caplist xs" by blast
  then show ?case using Cons.prems by (subst del_each.simps) (auto simp: arr_simps)
qed

lemma add_each_drop:
  "i \<le> ruri_cap_last_cap \<Longrightarrow> from = pre @ xs @ ruri_init_value # junk \<Longrightarrow> i = length pre \<Longrightarrow>
   ruri_init_value \<notin> set xs \<Longrightarrow> length (pre @ xs) \<le> ruri_cap_last_cap \<Longrightarrow>
   add_each kern i from l = fold_opt (ruri_add_to_caplist kern) xs l"
proof (induction xs arbitrary: i pre l)
  case Nil
  then show ?case by (subst add_each.simps) (auto simp: arr_simps)
next
  case (Cons x xs)
  have "add_each kern (Suc i) from t = fold_opt (ruri_add_to_caplist kern) xs t" for t
    by (rule Cons.IH[of _ "pre @ [x]"]) (use Cons.prems in auto)
  then have "add_each kern (Suc i) from = fold_opt (ruri_add_to_caplist kern) xs" by blast
  then show ?case using Cons.prems by (subst add_each.simps) (auto simp: arr_simps)
qed

lemma each_is_fold:
  assumes "ruri_init_value \<in> set from" "length (caps_of from) \<le> ruri_cap_last_cap"
  shows "del_each 0 from l = fold_opt ruri_del_from_caplist (caps_of from) l"
    and "add_each kern 0 from l = fold_opt (ruri_add_to_caplist kern) (caps_of from) l"
proof -
  obtain junk where j: "from = caps_of from @ ruri_init_value # junk" "ruri_init_value \<notin> set (caps_of from)"
    using caplist_shape[OF assms(1)] by blast
  show "del_each 0 from l = fold_opt ruri_del_from_caplist (caps_of from) l"
    by (rule del_each_drop[of _ _ "[]" _ junk]) (use j assms(2) in auto)
  show "add_each kern 0 from l = fold_opt (ruri_add_to_caplist kern) (caps_of from) l"
    by (rule add_each_drop[of _ _ "[]" _ junk]) (use j assms(2) in auto)
qed

lemma fill_loop_shape:
  "length pre + length rest = ruri_cap_last_cap + 1 \<Longrightarrow> length pre + n \<le> ruri_cap_last_cap \<Longrightarrow>
   n \<noteq> 0 \<Longrightarrow> 
   fill_loop [length pre..<length pre + n] (pre @ rest)
     = Some (pre @ map int [length pre..<length pre + n] @ ruri_init_value # drop (n + 1) rest)"
proof (induction n arbitrary: pre rest)
  case (Suc n)
  then obtain a b rest' where r: "rest = a # b # rest'"
    by (cases rest; cases "tl rest") auto
  show ?case
  proof (cases "n = 0")
    case True
    then show ?thesis by (simp add: r arr_set_def list_update_append)
  next
    case False
    have "fill_loop [length (pre @ [int (length pre)])..<length (pre @ [int (length pre)]) + n]
        ((pre @ [int (length pre)]) @ ruri_init_value # rest')
      = Some ((pre @ [int (length pre)]) @ map int [length (pre @ [int (length pre)])..<length (pre @ [int (length pre)]) + n]
          @ ruri_init_value # drop (n + 1) (ruri_init_value # rest'))"
      by (rule Suc.IH) (use Suc.prems r False in auto)
    then show ?thesis using False
      by (simp add: r arr_set_def list_update_append upt_rec[of "length pre"] del: upt_Suc)
  qed
qed simp

lemma fill_loop_all:
  assumes "length l = ruri_cap_last_cap + 1" "0 \<le> n" "n < int ruri_cap_last_cap"
  shows "\<exists>t. fill_loop [0..<nat (n + 1)] l = Some t \<and> caplist_wf n t \<and>
    set (caps_of t) = {0..n}"
proof -
  define m where "m = nat (n + 1)"
  define t where "t = map int [0..<m] @ ruri_init_value # drop (m + 1) l"
  have m: "m \<noteq> 0" "m \<le> ruri_cap_last_cap" using assms by (auto simp: m_def)
  have f: "fill_loop [0..<m] l = Some t"
    using fill_loop_shape[of "[]" l m] assms(1) m by (simp add: t_def)
  have el: "set (map int [0..<m]) = {0..n}"
  proof -
    have "set (map int [0..<m]) = {0..int m - 1}"
      using m by (auto simp: image_iff intro!: bexI[of _ "nat _"])
    then show ?thesis using assms(2) by (simp add: m_def)
  qed
  have "caplist_wf n t \<and> caps_of t = map int [0..<m]"
    unfolding t_def
  proof (rule caplist_wfI)
    show "length (map int [0..<m] @ ruri_init_value # drop (m + 1) l) = ruri_cap_last_cap + 1"
      using assms(1) m by simp
    show "\<forall>c \<in> set (map int [0..<m]). 0 \<le> c \<and> c \<le> n" using el by auto
  qed (simp add: distinct_map)
  then show ?thesis using f el by (auto simp: m_def)
qed

lemma keep_common_facts:
  "ruri_init_value \<in> set keep_caplist_common"
  "caps_of keep_caplist_common = [0, 1, 4, 3, 6, 7, 31, 8, 10, 5, 29]"
  by (simp_all add: keep_caplist_common_def caps_of_def ruri_init_value_def)

lemma caplist_inv_emptied:
  assumes "length l = ruri_cap_last_cap + 1" "get_last_cap kern < int ruri_cap_last_cap"
  shows "\<exists>t. arr_set l 0 ruri_init_value = Some t \<and> caplist_inv kern t \<and> caps_of t = []
    \<and> length t = ruri_cap_last_cap + 1"
proof -
  obtain y r where l: "l = y # r" using assms(1) by (cases l) auto
  have "caplist_wf (get_last_cap kern) ([] @ ruri_init_value # r) \<and> caps_of ([] @ ruri_init_value # r) = []"
    by (rule caplist_wfI) (use assms(1) l in auto)
  then show ?thesis using assms l by (simp add: arr_set_def caplist_inv_def)
qed

lemma caplist_head_init:
  "caplist_wf lc l \<Longrightarrow> arr_get l 0 = Some (l ! 0) \<and> (l ! 0 = ruri_init_value \<longleftrightarrow> caps_of l = [])"
  by (cases l) (auto simp: arr_get_def caplist_wf_def caps_of_def)

text \<open>What the default list contains, before the extra lists are applied.\<close>

definition default_dropped :: "int \<Rightarrow> bool \<Rightarrow> int set" where
  "default_dropped lc privileged =
     (if privileged then {} else {0..lc} - set (caps_of keep_caplist_common))"

lemma build_base:
  assumes l0: "caplist_inv kern l0" "caps_of l0 = []" "length l0 = ruri_cap_last_cap + 1"
    and lc: "0 \<le> get_last_cap kern"
  shows "\<exists>t. (if \<not> privileged then do {
                full \<leftarrow> fill_loop [0..<nat (get_last_cap kern + 1)] l0;
                del_each 0 keep_caplist_common full }
              else Some l0) = Some t \<and> caplist_inv kern t \<and>
          set (caps_of t) = default_dropped (get_last_cap kern) privileged"
proof (cases privileged)
  case False
  have lt: "get_last_cap kern < int ruri_cap_last_cap" using l0(1) by (simp add: caplist_inv_def)
  obtain f where f: "fill_loop [0..<nat (get_last_cap kern + 1)] l0 = Some f"
    "caplist_inv kern f" "set (caps_of f) = {0..get_last_cap kern}"
    using fill_loop_all[OF l0(3) lc lt] lt by (auto simp: caplist_inv_def)
  have "\<forall>x \<in> set (caps_of keep_caplist_common). 0 \<le> x" by (simp add: keep_common_facts)
  then obtain t where "fold_opt ruri_del_from_caplist (caps_of keep_caplist_common) f = Some t"
    "caplist_inv kern t" "set (caps_of t) = set (caps_of f) - set (caps_of keep_caplist_common)"
    using caps.del_all[OF f(2)] by blast
  then show ?thesis using False f
      each_is_fold(1)[of keep_caplist_common f] keep_common_facts
    by (simp add: default_dropped_def ruri_cap_last_cap_def)
qed (use l0 in \<open>auto simp: default_dropped_def\<close>)

lemma build_caplist_spec:
  assumes lc: "0 \<le> get_last_cap kern" "get_last_cap kern < int ruri_cap_last_cap"
    and list: "length list = ruri_cap_last_cap + 1"
    and drop: "caplist_wf (get_last_cap kern) drop_extra"
    and keep: "caplist_wf (get_last_cap kern) keep_extra"
  shows "\<exists>t. ruri_build_caplist kern list privileged drop_extra keep_extra = Some t \<and>
    caplist_wf (get_last_cap kern) t \<and>
    set (caps_of t) = default_dropped (get_last_cap kern) privileged
      \<union> set (caps_of drop_extra) - set (caps_of keep_extra)"
proof -
  obtain l0 where l0: "arr_set list 0 ruri_init_value = Some l0" "caplist_inv kern l0"
    "caps_of l0 = []" "length l0 = ruri_cap_last_cap + 1"
    using caplist_inv_emptied[OF list lc(2)] by blast
  obtain l1 where l1: "(if \<not> privileged then do {
                full \<leftarrow> fill_loop [0..<nat (get_last_cap kern + 1)] l0;
                del_each 0 keep_caplist_common full } else Some l0) = Some l1"
    "caplist_inv kern l1" "set (caps_of l1) = default_dropped (get_last_cap kern) privileged"
    using build_base[OF l0(2-4) lc(1)] by blast
  have ad: "\<forall>x \<in> set (caps_of drop_extra). 0 \<le> x" "\<forall>x \<in> set (caps_of drop_extra). x \<le> get_last_cap kern"
    and ak: "\<forall>x \<in> set (caps_of keep_extra). 0 \<le> x"
    using drop keep by (auto simp: caplist_wf_def)
  obtain l2 where l2: "add_each kern 0 drop_extra l1 = Some l2" "caplist_inv kern l2"
    "set (caps_of l2) = set (caps_of l1) \<union> set (caps_of drop_extra)"
    using caps.add_all[OF l1(2) ad(1)] each_is_fold(2)[of drop_extra kern l1]
      caplist_wf_length_entries(1)[OF drop lc(2)] drop ad(2)
    by (auto simp: caplist_wf_def)
  have l2': "(if drop_extra ! 0 \<noteq> ruri_init_value then add_each kern 0 drop_extra l1 else Some l1)
     = Some (if caps_of drop_extra = [] then l1 else l2)"
    using caplist_head_init[OF drop] l2(1) by simp
  define l2x where "l2x = (if caps_of drop_extra = [] then l1 else l2)"
  have x: "caplist_inv kern l2x" "set (caps_of l2x) = set (caps_of l1) \<union> set (caps_of drop_extra)"
    using l1 l2 by (auto simp: l2x_def)
  obtain l3 where l3: "del_each 0 keep_extra l2x = Some l3" "caplist_inv kern l3"
    "set (caps_of l3) = set (caps_of l2x) - set (caps_of keep_extra)"
    using caps.del_all[OF x(1) ak] each_is_fold(1)[of keep_extra l2x]
      caplist_wf_length_entries(1)[OF keep lc(2)] keep
    by (auto simp: caplist_wf_def)
  have "ruri_build_caplist kern list privileged drop_extra keep_extra
      = (if keep_extra ! 0 \<noteq> ruri_init_value then Some l3 else Some l2x)"
    using l0(1) l1(1) l2' l3(1) caplist_head_init[OF drop] caplist_head_init[OF keep]
    by (simp add: ruri_build_caplist_def l2x_def)
  then show ?thesis
    using l3 x l1(3) caplist_head_init[OF keep] by (auto simp: caplist_inv_def)
qed

section \<open>get_last_cap\<close>

lemma probe_bound_less: "\<forall>i \<in> set is. int i < n \<Longrightarrow> 0 \<le> n \<Longrightarrow> probe_bound e is < n"
  by (induction "is") auto

lemma get_last_cap_cached:
  "get_last_cap (kern\<lparr>last_cap_cache := get_last_cap kern\<rparr>) = get_last_cap kern"
  by (auto simp: get_last_cap_def Let_def split: option.splits)

lemma get_last_cap_bound:
  assumes "last_cap_cache kern = -1" "0 \<le> compiled_last_cap kern"
    "compiled_last_cap kern < int ruri_cap_last_cap"
  shows "get_last_cap kern < int ruri_cap_last_cap"
proof -
  have "probe_bound e [0..<ruri_cap_last_cap] < int ruri_cap_last_cap" for e
    by (rule probe_bound_less) auto
  then show ?thesis using assms by (auto simp: get_last_cap_def Let_def split: option.splits)
qed

section \<open>drop_caps\<close>

lemma drop_caps_loop_shape:
  assumes "length (pre @ xs) \<le> ruri_cap_last_cap" "ruri_init_value \<notin> set xs"
    "\<forall>c \<in> set xs. cap_is_supported env c \<longrightarrow> cap_drop_bound_ok env c \<or> \<not> drop_force_panic env"
  shows "drop_caps_loop env (length pre) (pre @ xs @ ruri_init_value # junk) st = Some (Inr
    (st\<lparr>cap_bounding := cap_bounding st - {c \<in> set xs. cap_is_supported env c \<and> cap_drop_bound_ok env c},
        cap_ambient := cap_ambient st - {c \<in> set xs. cap_is_supported env c}\<rparr>))"
  using assms
proof (induction xs arbitrary: pre st)
  case Nil
  then show ?case by (subst drop_caps_loop.simps) (simp add: arr_simps)
next
  case (Cons x xs)
  have IH: "drop_caps_loop env (Suc (length pre)) (pre @ x # xs @ ruri_init_value # junk) st' = Some (Inr
    (st'\<lparr>cap_bounding := cap_bounding st' - {c \<in> set xs. cap_is_supported env c \<and> cap_drop_bound_ok env c},
        cap_ambient := cap_ambient st' - {c \<in> set xs. cap_is_supported env c}\<rparr>))" for st'
    using Cons.IH[of "pre @ [x]" st'] Cons.prems by simp
  show ?case using Cons.prems
    by (subst drop_caps_loop.simps)
       (auto simp: arr_simps IH Let_def intro!: arg_cong2[where f = "\<lambda>b a. st\<lparr>cap_bounding := b, cap_ambient := a\<rparr>"])
qed

lemma drop_caps_spec:
  assumes "caplist_wf lc l" "lc < int ruri_cap_last_cap"
    "\<forall>c \<in> set (caps_of l). cap_is_supported env c \<longrightarrow> cap_drop_bound_ok env c \<or> \<not> drop_force_panic env"
  shows "drop_caps env l st = Some (Inr (clear_inheritable env
    \<lparr>cap_bounding = cap_bounding st - {c \<in> set (caps_of l). cap_is_supported env c \<and> cap_drop_bound_ok env c},
     cap_ambient = cap_ambient st - {c \<in> set (caps_of l). cap_is_supported env c},
     cap_inheritable = cap_inheritable st\<rparr>))"
proof -
  obtain junk where j: "l = caps_of l @ ruri_init_value # junk" "ruri_init_value \<notin> set (caps_of l)"
    using caplist_shape[of l] assms(1) unfolding caplist_wf_def by blast
  have "drop_caps_loop env 0 l st = Some (Inr
    (st\<lparr>cap_bounding := cap_bounding st - {c \<in> set (caps_of l). cap_is_supported env c \<and> cap_drop_bound_ok env c},
        cap_ambient := cap_ambient st - {c \<in> set (caps_of l). cap_is_supported env c}\<rparr>))"
    using drop_caps_loop_shape[of "[]" "caps_of l" env junk st] j
      caplist_wf_length_entries(1)[OF assms(1,2)] assms(3) by simp
  moreover have "st\<lparr>cap_bounding := b, cap_ambient := a\<rparr>
      = \<lparr>cap_bounding = b, cap_ambient = a, cap_inheritable = cap_inheritable st\<rparr>" for a b by simp
  ultimately show ?thesis using j(1) by (simp add: drop_caps_def)
qed

section \<open>Properties\<close>

definition sample_kernel :: cap_kernel where
  "sample_kernel = \<lparr>last_cap_cache = -1, last_cap_file = Some 40,
     bound_einval = (\<lambda>c. c > 40), compiled_last_cap = 40\<rparr>"

definition empty_caplist :: caplist where
  "empty_caplist = replicate (ruri_cap_last_cap + 1) ruri_init_value"

lemma empty_caplist_facts: "caplist_wf lc empty_caplist" "caps_of empty_caplist = []"
  "length empty_caplist = ruri_cap_last_cap + 1"
  by (simp_all add: empty_caplist_def caplist_wf_def caps_of_def ruri_cap_last_cap_def)

lemma sample_kernel_last: "get_last_cap sample_kernel = 40"
  by (simp add: sample_kernel_def get_last_cap_def ruri_cap_last_cap_def)

text \<open>C11: ruri_build_caplist never accesses its arrays out of bounds, leaves a
  well-formed list (terminated, without duplicates, every entry a capability the
  kernel knows), and that list holds exactly: for an unprivileged container all
  capabilities up to the last one but the common kept ones, for a privileged one
  none, plus the extra ones to drop, minus the extra ones to keep, which win.\<close>

theorem build_caplist_exact:
  assumes "0 \<le> get_last_cap kern" "get_last_cap kern < int ruri_cap_last_cap"
    and "length list = ruri_cap_last_cap + 1"
    and "caplist_wf (get_last_cap kern) drop_extra"
    and "caplist_wf (get_last_cap kern) keep_extra"
  shows "\<exists>t. ruri_build_caplist kern list privileged drop_extra keep_extra = Some t \<and>
    caplist_wf (get_last_cap kern) t \<and>
    set (caps_of t) =
      (if privileged then {} else {0..get_last_cap kern} - {0, 1, 3, 4, 5, 6, 7, 8, 10, 29, 31})
      \<union> set (caps_of drop_extra) - set (caps_of keep_extra)"
proof -
  have "default_dropped lc privileged
      = (if privileged then {} else {0..lc} - {0, 1, 3, 4, 5, 6, 7, 8, 10, 29, 31})" for lc
    by (auto simp: default_dropped_def keep_common_facts)
  then show ?thesis using build_caplist_spec[OF assms, of privileged] by presburger
qed

theorem build_caplist_exact_witness:
  "\<exists>t. ruri_build_caplist sample_kernel empty_caplist True
      (21 # replicate ruri_cap_last_cap ruri_init_value) empty_caplist = Some t \<and>
    set (caps_of t) = {21}"
proof -
  have "caplist_wf 40 (21 # replicate ruri_cap_last_cap ruri_init_value)"
    and "caps_of (21 # replicate ruri_cap_last_cap ruri_init_value) = [21]"
    by (simp_all add: caplist_wf_def caps_of_def ruri_cap_last_cap_def ruri_init_value_def)
  then show ?thesis
    using build_caplist_exact[of sample_kernel empty_caplist
        "21 # replicate ruri_cap_last_cap ruri_init_value" empty_caplist True]
    by (auto simp: sample_kernel_last empty_caplist_facts ruri_cap_last_cap_def)
qed

text \<open>C5: the confinement of an unprivileged container: when the kernel supports
  and lets drop every capability up to the last one, the process that ran
  drop_caps on the list ruri_build_caplist built keeps in its bounding and ambient
  sets, among the capabilities the kernel knows, only the common kept ones that
  were not dropped explicitly and the ones the user asked to keep.  When capget and capset
  succeed, no capability below 32 stays in the inheritable and ambient sets; inheritable
  capabilities from 32 on stay as they were, dropped or not, since the code clears one of the
  two words only.\<close>

theorem unprivileged_confined:
  assumes "0 \<le> get_last_cap kern" "get_last_cap kern < int ruri_cap_last_cap"
    and "length list = ruri_cap_last_cap + 1"
    and "caplist_wf (get_last_cap kern) drop_extra"
    and "caplist_wf (get_last_cap kern) keep_extra"
    and ok: "\<forall>c. 0 \<le> c \<and> c \<le> get_last_cap kern \<longrightarrow> cap_is_supported env c \<and> cap_drop_bound_ok env c"
    and built: "ruri_build_caplist kern list False drop_extra keep_extra = Some t"
  shows "\<exists>st'. drop_caps env t st = Some (Inr st') \<and>
    (capget_ok env \<and> capset_ok env \<longrightarrow> cap_inheritable st' = {c \<in> cap_inheritable st. 32 \<le> c}
       \<and> cap_ambient st' \<subseteq> {c \<in> cap_inheritable st. 32 \<le> c}) \<and>
    (\<forall>c. (c \<in> cap_bounding st' \<or> c \<in> cap_ambient st') \<and> 0 \<le> c \<and> c \<le> get_last_cap kern \<longrightarrow>
       c \<in> set (caps_of keep_extra) \<or>
       (c \<in> set (caps_of keep_caplist_common) \<and> c \<notin> set (caps_of drop_extra)))"
proof -
  have t: "caplist_wf (get_last_cap kern) t"
    "set (caps_of t) = default_dropped (get_last_cap kern) False
      \<union> set (caps_of drop_extra) - set (caps_of keep_extra)"
    using build_caplist_spec[OF assms(1-5), of False] built by auto
  have "\<forall>c \<in> set (caps_of t). cap_is_supported env c \<and> cap_drop_bound_ok env c"
    using t(1) ok by (auto simp: caplist_wf_def)
  then show ?thesis
    using drop_caps_spec[OF t(1) assms(2), of env st] t(2) ok
    by (auto simp: default_dropped_def clear_inheritable_def capset_sets_def Let_def)
qed

definition sample_drop_env :: drop_env where
  "sample_drop_env = \<lparr>cap_is_supported = (\<lambda>c. 0 \<le> c \<and> c \<le> 40), cap_drop_bound_ok = (\<lambda>_. True),
     drop_force_panic = False, capget_ok = True, capset_ok = True, unread_inheritable = {}, unread_permitted = {}\<rparr>"

theorem unprivileged_confined_witness:
  "\<exists>t st'. ruri_build_caplist sample_kernel empty_caplist False empty_caplist empty_caplist = Some t \<and>
     drop_caps sample_drop_env t \<lparr>cap_bounding = {0..40}, cap_ambient = {}, cap_inheritable = {3, 38}\<rparr>
       = Some (Inr st') \<and> 21 \<notin> cap_bounding st' \<and> cap_inheritable st' = {38}"
proof -
  obtain t where "ruri_build_caplist sample_kernel empty_caplist False empty_caplist empty_caplist = Some t"
    using build_caplist_spec[of sample_kernel empty_caplist empty_caplist empty_caplist False]
    by (auto simp: sample_kernel_last empty_caplist_facts ruri_cap_last_cap_def)
  moreover have "{c \<in> {3, 38}. 32 \<le> c} = {38::int}" by auto
  ultimately show ?thesis
    using unprivileged_confined[of sample_kernel empty_caplist empty_caplist empty_caplist
        sample_drop_env t "\<lparr>cap_bounding = {0..40}, cap_ambient = {}, cap_inheritable = {3, 38}\<rparr>"]
    by (fastforce simp: sample_drop_env_def sample_kernel_last empty_caplist_facts ruri_cap_last_cap_def keep_common_facts)
qed

end
