(* ===== verification/K2V3.thy ===== *)
theory K2V3
  imports Prelude
begin

text \<open>
  The configuration format of k2v3.c: the parser into a cache, the getters and
  the generators.

  The buffer being parsed is a suffix of the file's text (conf.str with its
  length), and v_jmp counts the characters a value consumed.  Every warning of
  the code is a message of the list a function returns beside its result; where
  the caller's flag k2v3_stop_at_warning is set (it is, when ruri reads a
  configuration), the first one ends the program, and k2v3_errno is RECOVERABLE
  exactly when the list is not empty.  k2v3_error is None.  Allocation does not
  fail.  A cache is the list of its nodes in order.
\<close>

section \<open>Data\<close>

datatype k2v3_type = K2V3_SCALAR | K2V3_ARRAY | K2V3_ANY

record k2v3_value =
  v_type :: k2v3_type
  v_scalar :: "string option"
  v_array :: "string list option"
  v_empty :: bool
  v_jmp :: nat

record k2v3_buf =
  b_type :: k2v3_type
  b_key :: string
  b_scalar :: "string option"
  b_array :: "string list option"
  b_empty :: bool

type_synonym k2v3_cache = "k2v3_buf list"

section \<open>Parsing into the cache\<close>

fun correct_backslash :: "string \<Rightarrow> string" where
  "correct_backslash [] = []"
| "correct_backslash [c] = [c]"
| "correct_backslash (c # d # cs) =
     (if c = backslash then
        (if d = CHR ''n'' then [backslash, CHR ''n'']
         else if d = CHR ''t'' then [backslash, CHR ''t'']
         else if d = CHR ''r'' then [backslash, CHR ''r'']
         else if d = dquote then [backslash, dquote]
         else [d]) @ correct_backslash cs
      else c # correct_backslash (d # cs))"

definition key_char :: "char \<Rightarrow> bool" where
  "key_char c = (let n = (of_char c :: nat) in
     (48 \<le> n \<and> n \<le> 57) \<or> (97 \<le> n \<and> n \<le> 122) \<or> (65 \<le> n \<and> n \<le> 90) \<or> c = CHR ''_'')"

text \<open>The loop of get_key: the key read so far and what follows it, or the
  warning that ended it.\<close>

fun key_scan :: "string \<Rightarrow> string + string \<times> string" where
  "key_scan [] = Inr ([], [])"
| "key_scan (c # cs) =
     (if c = CHR ''='' \<or> c = newline then Inr ([], c # cs)
      else if c = blank then Inl ''Spaces are not allowed in keys.''
      else if \<not> key_char c then Inl ''Invalid character in key.''
      else (case key_scan cs of
              Inl w \<Rightarrow> Inl w
            | Inr (k, rest) \<Rightarrow> Inr (c # k, rest)))"

text \<open>get_key: the warning, or the key and the text after the equals sign.\<close>

definition get_key :: "string \<Rightarrow> string + string \<times> string" where
  "get_key conf =
     (case key_scan conf of
        Inl w \<Rightarrow> Inl w
      | Inr (k, rest) \<Rightarrow>
          if k = [] then Inl ''Key cannot be empty.''
          else (case rest of
                  [] \<Rightarrow> Inl ''Key must end with =''
                | c # cs \<Rightarrow> if c = CHR ''='' then Inr (k, cs) else Inl ''Key must end with =''))"

definition next_line :: "string \<Rightarrow> nat" where
  "next_line conf = (case strchr_ix newline conf of Some n \<Rightarrow> n + 1 | None \<Rightarrow> length conf)"

definition is_blank :: "char \<Rightarrow> bool" where
  "is_blank c = (c = blank \<or> c = newline)"

text \<open>The value returned by every recovered error of get_value.\<close>

definition bad_value :: "string \<Rightarrow> k2v3_value" where
  "bad_value conf = \<lparr>v_type = K2V3_SCALAR, v_scalar = None, v_array = None,
     v_empty = True, v_jmp = next_line conf\<rparr>"

text \<open>Scalars: index of the closing quote, looked for up to the boundary.\<close>

fun scalar_scan :: "nat \<Rightarrow> nat \<Rightarrow> bool \<Rightarrow> string \<Rightarrow> nat option" where
  "scalar_scan boundary i esc [] = None"
| "scalar_scan boundary i esc (c # cs) =
     (if \<not> esc \<and> c = dquote then Some i
      else if i \<ge> boundary then None
      else scalar_scan boundary (Suc i) (\<not> esc \<and> c = backslash) cs)"

text \<open>Arrays: the text up to the first unescaped closing bracket.\<close>

fun close_scan :: "bool \<Rightarrow> string \<Rightarrow> nat option" where
  "close_scan esc [] = None"
| "close_scan esc (c # cs) =
     (if \<not> esc \<and> c = CHR '']'' then Some 0
      else map_option Suc (close_scan (\<not> esc \<and> c = backslash) cs))"

text \<open>One element, from after its opening quote: the element and the text from
  the closing quote on, within the body of the array.  None: no closing quote
  before the last character.\<close>

fun elem_scan :: "bool \<Rightarrow> string \<Rightarrow> (string \<times> string) option" where
  "elem_scan esc [] = Some ([], [])"
| "elem_scan esc (c # cs) =
     (if \<not> esc \<and> c = dquote then Some ([], c # cs)
      else if cs = [] then None
      else map_option (\<lambda>(el, rest). (c # el, rest)) (elem_scan (\<not> esc \<and> c = backslash) cs))"

datatype elems = Elems "string list" | Bad_elem string | Trailing_separator

lemma elem_scan_shorter: "elem_scan esc s = Some (el, rest) \<Longrightarrow> length rest \<le> length s"
  by (induction esc s arbitrary: el rest rule: elem_scan.induct) (fastforce split: if_splits)+

lemma array_step_shorter:
  assumes "dropWhile is_blank s = q # s1" "elem_scan e s1 = Some (el, rest)"
    "dropWhile is_blank (tl rest) = c # s2"
  shows "length (dropWhile is_blank s2) < length s"
proof -
  have "length (dropWhile is_blank s2) \<le> length s2" by (rule length_dropWhile_le)
  also have "\<dots> < length (dropWhile is_blank (tl rest))" using assms(3) by simp
  also have "\<dots> \<le> length (tl rest)" by (rule length_dropWhile_le)
  also have "\<dots> \<le> length s1" using elem_scan_shorter[OF assms(2)] by simp
  also have "\<dots> \<le> length (dropWhile is_blank s)" using assms(1) by simp
  also have "\<dots> \<le> length s" by (rule length_dropWhile_le)
  finally show ?thesis .
qed

function array_loop :: "string \<Rightarrow> string list \<Rightarrow> elems" where
  "array_loop s acc =
     (if s = [] then Elems acc
      else (case dropWhile is_blank s of
        [] \<Rightarrow> Bad_elem ''Array elements must start with a quote.''
      | q # s1 \<Rightarrow>
          if q \<noteq> dquote then Bad_elem ''Array elements must start with a quote.''
          else (case elem_scan False s1 of
              None \<Rightarrow> Bad_elem ''Unterminated array element.''
            | Some (el, rest) \<Rightarrow>
                if el = [] then Bad_elem ''NULL element in array is not allowed''
                else (case dropWhile is_blank (tl rest) of
                    [] \<Rightarrow> Elems (acc @ [el])
                  | c # s2 \<Rightarrow>
                      if c = CHR '','' \<or> c = CHR '';'' then
                        (if dropWhile is_blank s2 = [] then Trailing_separator
                         else array_loop (dropWhile is_blank s2) (acc @ [el]))
                      else Bad_elem ''Array elements must be separated by , or ;.''))))"
  by auto
termination
proof (relation "measure (\<lambda>(s, _). length s)", simp)
qed (auto simp del: dropWhile_eq_Nil_conv intro: array_step_shorter)

declare array_loop.simps [simp del]

text \<open>The part of get_value after the label \<open>end\<close>: spaces, a comment, then a
  newline or the end.  The comment's newline is searched from the start of the
  value, as in the code.\<close>

definition finish_value :: "string \<Rightarrow> k2v3_value \<Rightarrow> string list \<Rightarrow> k2v3_value \<times> string list" where
  "finish_value conf v ws =
     (let j1 = v_jmp v + length (takeWhile (\<lambda>c. c = blank) (drop (v_jmp v) conf));
          j2 = (if j1 < length conf \<and> conf ! j1 = CHR ''#''
                then (case strchr_ix newline conf of Some n \<Rightarrow> n | None \<Rightarrow> length conf)
                else j1)
      in if j2 < length conf \<and> conf ! j2 \<noteq> newline
         then (bad_value conf, ws @ [''Value must be followed by a newline.''])
         else (v\<lparr>v_jmp := j2\<rparr>, ws))"

definition get_value :: "string \<Rightarrow> (k2v3_value \<times> string list) option" where
  "get_value conf =
     (if conf = [] then None
      else let blanks = length (takeWhile is_blank (tl conf)) in
      if length conf \<ge> 2 \<and> conf ! 0 = dquote \<and> conf ! 1 = dquote then
        Some (finish_value conf \<lparr>v_type = K2V3_SCALAR, v_scalar = None, v_array = None,
          v_empty = True, v_jmp = 2\<rparr> [])
      else if length conf \<ge> 2 \<and> conf ! 0 = CHR ''['' \<and> blanks + 1 < length conf
          \<and> conf ! (blanks + 1) = CHR '']'' then
        Some (finish_value conf \<lparr>v_type = K2V3_ARRAY, v_scalar = None, v_array = None,
          v_empty = True, v_jmp = blanks + 2\<rparr> [])
      else if conf ! 0 = dquote then
        (let boundary = (case strchr_ix newline conf of Some n \<Rightarrow> n | None \<Rightarrow> length conf) in
         case scalar_scan boundary 1 False (tl conf) of
           None \<Rightarrow> Some (bad_value conf, [''Unterminated scalar value.''])
         | Some i \<Rightarrow> Some (finish_value conf \<lparr>v_type = K2V3_SCALAR,
             v_scalar = Some (take (i - 1) (tl conf)), v_array = None, v_empty = False,
             v_jmp = i + 1\<rparr> []))
      else if conf ! 0 = CHR ''['' then
        (case close_scan False (tl conf) of
           None \<Rightarrow> Some (bad_value conf, [''Unterminated array value.''])
         | Some n \<Rightarrow>
             (case array_loop (take n (tl conf)) [] of
                Bad_elem w \<Rightarrow> Some (bad_value conf, [w])
              | Trailing_separator \<Rightarrow> Some (finish_value conf
                  ((bad_value conf)\<lparr>v_jmp := n + 2\<rparr>)
                  [''Trailing separator in array is not allowed.''])
              | Elems es \<Rightarrow> Some (finish_value conf \<lparr>v_type = K2V3_ARRAY, v_scalar = None,
                  v_array = (if es = [] then None else Some es), v_empty = False,
                  v_jmp = n + 2\<rparr> [])))
      else Some (bad_value conf, [''Value must start with a quote for scalar or [ for array.'']))"

definition node_of :: "string \<Rightarrow> k2v3_value \<Rightarrow> k2v3_buf" where
  "node_of key v = \<lparr>b_type = v_type v, b_key = key,
     b_scalar = (if v_empty v then None else v_scalar v),
     b_array = (if v_empty v then None else v_array v), b_empty = v_empty v\<rparr>"

text \<open>Appending to the cache walks it and gives up at a node with the same key.\<close>

fun cache_append :: "k2v3_cache \<Rightarrow> k2v3_buf \<Rightarrow> k2v3_cache option" where
  "cache_append [] node = Some [node]"
| "cache_append (cur # cache) node =
     (if b_key cur = b_key node then None
      else map_option (\<lambda>c. cur # c) (cache_append cache node))"

datatype parse_out =
  Parsed k2v3_cache "string list"
| Early k2v3_cache "string list"
| Null_return "string list"
| Stopped string

lemma key_scan_shorter: "key_scan s = Inr (k, rest) \<Longrightarrow> length rest \<le> length s"
  by (induction s arbitrary: k rest) (fastforce split: if_splits sum.splits)+

lemma get_key_shorter: "get_key conf = Inr (k, rest) \<Longrightarrow> length rest < length conf"
  by (auto simp: get_key_def split: sum.splits list.splits if_splits dest!: key_scan_shorter)

function parse_loop :: "bool \<Rightarrow> k2v3_cache \<Rightarrow> string list \<Rightarrow> string \<Rightarrow> parse_out" where
  "parse_loop stop cache ws conf =
     (case conf of
        [] \<Rightarrow> Parsed cache ws
      | c # cs \<Rightarrow>
          if c = blank then
            (if stop then Stopped ''Leading spaces are not allowed.''
             else case strchr newline conf of
                None \<Rightarrow> Parsed cache (ws @ [''Leading spaces are not allowed.''])
              | Some q \<Rightarrow> parse_loop stop cache (ws @ [''Leading spaces are not allowed.'']) (tl q))
          else if c = newline then parse_loop stop cache ws cs
          else if c = CHR ''#'' then
            (case strchr newline conf of
                None \<Rightarrow> Parsed cache ws
              | Some q \<Rightarrow> parse_loop stop cache ws (tl q))
          else (case get_key conf of
              Inl w \<Rightarrow>
                (if stop then Stopped w
                 else case strchr newline conf of
                    None \<Rightarrow> Parsed cache (ws @ [w, ''Failed to parse key.''])
                  | Some q \<Rightarrow> parse_loop stop cache (ws @ [w, ''Failed to parse key.'']) (tl q))
            | Inr (key, conf1) \<Rightarrow>
                if conf1 = [] then Early cache ws
                else (case get_value conf1 of
                    None \<Rightarrow> if stop then Stopped ''Internal error'' else Null_return ws
                  | Some (v, ms) \<Rightarrow>
                      if stop \<and> ms \<noteq> [] then Stopped (hd ms)
                      else if v_scalar v = None \<and> v_array v = None \<and> \<not> v_empty v then
                        (if stop then Stopped ''Failed to parse value.'' else Null_return (ws @ ms))
                      else (case cache_append cache (node_of key v) of
                          Some cache' \<Rightarrow> parse_loop stop cache' (ws @ ms) (drop (v_jmp v) conf1)
                        | None \<Rightarrow>
                            if stop then Stopped ''Duplicate keys are not allowed.''
                            else parse_loop stop cache (ws @ ms @ [''Duplicate keys are not allowed.''])
                                   (drop (v_jmp v) conf1)))))"
  by auto
termination
  by (relation "measure (\<lambda>(_, _, _, conf). length conf)")
     (auto dest!: get_key_shorter strchr_shorter)

declare parse_loop.simps [simp del]

definition correct_node :: "k2v3_buf \<Rightarrow> k2v3_buf" where
  "correct_node b =
     (if b_empty b then b
      else if b_type b = K2V3_ARRAY then b\<lparr>b_array := map_option (map correct_backslash) (b_array b)\<rparr>
      else b\<lparr>b_scalar := map_option correct_backslash (b_scalar b)\<rparr>)"

definition k2v3_parse :: "bool \<Rightarrow> string \<Rightarrow> (k2v3_cache \<times> string list) result" where
  "k2v3_parse stop buf =
     (case parse_loop stop [] [] buf of
        Parsed cache ws \<Rightarrow> Inr (map correct_node cache, ws)
      | Early cache ws \<Rightarrow> Inr (cache, ws)
      | Null_return ws \<Rightarrow> Inr ([], ws)
      | Stopped w \<Rightarrow> Inl (Fatal w))"

section \<open>The parser on well-formed text\<close>

text \<open>Text that closes neither a quoted string nor an array, read with the
  parser's backslash rule: no character of \<open>bad\<close> stands unescaped and no
  backslash is left open.\<close>

fun quotable :: "char set \<Rightarrow> bool \<Rightarrow> string \<Rightarrow> bool" where
  "quotable bad esc [] = (\<not> esc)"
| "quotable bad esc (c # cs) =
     ((esc \<or> c \<notin> bad) \<and> quotable bad (\<not> esc \<and> c = backslash) cs)"

lemma quotable_append:
  "quotable bad esc s \<Longrightarrow> quotable bad esc (s @ t) = quotable bad False t"
  by (induction bad esc s rule: quotable.induct) auto

lemma quotable_mono: "quotable bad esc s \<Longrightarrow> bad' \<subseteq> bad \<Longrightarrow> quotable bad' esc s"
  by (induction bad esc s rule: quotable.induct) auto

lemma quotable_plain: "backslash \<notin> set s \<Longrightarrow> set s \<inter> bad = {} \<Longrightarrow> quotable bad False s"
  by (induction s) auto

lemma correct_backslash_plain: "backslash \<notin> set s \<Longrightarrow> correct_backslash s = s"
  by (induction s rule: correct_backslash.induct) auto

lemma scalar_scan_found:
  "quotable {dquote} esc v \<Longrightarrow> i + length v \<le> b \<Longrightarrow>
   scalar_scan b i esc (v @ dquote # t) = Some (i + length v)"
  by (induction "{dquote}" esc v arbitrary: i rule: quotable.induct) auto

lemma close_scan_found:
  "quotable {CHR '']''} esc body \<Longrightarrow> close_scan esc (body @ CHR '']'' # t) = Some (length body)"
  by (induction "{CHR '']''}" esc body rule: quotable.induct) auto

lemma elem_scan_found:
  "quotable {dquote} esc v \<Longrightarrow> elem_scan esc (v @ dquote # t) = Some (v, dquote # t)"
  by (induction "{dquote}" esc v rule: quotable.induct) auto

definition valid_key :: "string \<Rightarrow> bool" where
  "valid_key k = (k \<noteq> [] \<and> (\<forall>c \<in> set k. key_char c))"

lemma key_char_not:
  "key_char c \<Longrightarrow> c \<noteq> CHR ''='' \<and> c \<noteq> newline \<and> c \<noteq> blank \<and> c \<noteq> CHR ''#''"
  by (auto simp: key_char_def Let_def)

lemma key_scan_valid:
  "\<forall>c \<in> set k. key_char c \<Longrightarrow> key_scan (k @ CHR ''='' # t) = Inr (k, CHR ''='' # t)"
  by (induction k) (auto dest: key_char_not)

lemma get_key_valid: "valid_key k \<Longrightarrow> get_key (k @ CHR ''='' # t) = Inr (k, t)"
  by (simp add: get_key_def valid_key_def key_scan_valid)

lemma finish_at_newline:
  assumes "v_jmp v < length conf" "conf ! v_jmp v = newline"
  shows "finish_value conf v ws = (v, ws)"
proof -
  have "takeWhile (\<lambda>c. c = blank) (drop (v_jmp v) conf) = []"
    using assms by (simp add: Cons_nth_drop_Suc[symmetric])
  then show ?thesis using assms by (simp add: finish_value_def Let_def)
qed

definition empty_scalar :: "nat \<Rightarrow> k2v3_value" where
  "empty_scalar j = \<lparr>v_type = K2V3_SCALAR, v_scalar = None, v_array = None, v_empty = True, v_jmp = j\<rparr>"

lemma get_value_empty_scalar:
  "get_value (dquote # dquote # newline # t) = Some (empty_scalar 2, [])"
  by (simp add: get_value_def Let_def empty_scalar_def finish_at_newline)

lemma get_value_scalar:
  assumes "v \<noteq> []" "quotable {dquote} False v" "newline \<notin> set v"
  shows "get_value (dquote # v @ dquote # newline # t) = Some
    (\<lparr>v_type = K2V3_SCALAR, v_scalar = Some v, v_array = None, v_empty = False, v_jmp = length v + 2\<rparr>, [])"
proof -
  obtain c cs where v: "v = c # cs" using assms(1) by (cases v) auto
  then have c: "c \<noteq> dquote" using assms(2) by auto
  have b: "strchr_ix newline (dquote # v @ dquote # newline # t) = Some (length v + 2)"
    using assms(3) strchr_ix_append[of newline "dquote # v @ [dquote]" t] by simp
  have s: "scalar_scan (length v + 2) 1 False (v @ dquote # newline # t) = Some (1 + length v)"
    using scalar_scan_found[OF assms(2), of 1] by simp
  have n: "(dquote # v @ dquote # newline # t) ! (length v + 2) = newline"
    using nth_append_length[of "dquote # v @ [dquote]" newline t] by simp
  show ?thesis
    using c b s n v
    by (simp add: get_value_def Let_def finish_at_newline nth_append del: scalar_scan.simps)
qed

lemma get_value_empty_array:
  "get_value (CHR ''['' # CHR '']'' # newline # t) = Some
    (\<lparr>v_type = K2V3_ARRAY, v_scalar = None, v_array = None, v_empty = True, v_jmp = 2\<rparr>, [])"
  by (simp add: get_value_def Let_def finish_at_newline is_blank_def)

section \<open>No internal error, and what strictness changes\<close>

definition value_present :: "k2v3_value \<Rightarrow> bool" where
  "value_present v = (v_scalar v \<noteq> None \<or> v_array v \<noteq> None \<or> v_empty v)"

lemma finish_value_present: "value_present v \<Longrightarrow> value_present (fst (finish_value conf v ws))"
  by (simp add: finish_value_def Let_def value_present_def bad_value_def)

lemma array_loop_more: "array_loop s acc = Elems es \<Longrightarrow> s \<noteq> [] \<Longrightarrow> length acc < length es"
proof (induction s acc arbitrary: es rule: array_loop.induct)
  case (1 s acc)
  from 1(2,3) show ?case
    by (subst (asm) array_loop.simps)
       (auto split: list.splits if_splits option.splits prod.splits dest!: 1(1))
qed

lemma get_value_total:
  assumes "conf \<noteq> []"
  shows "\<exists>v ms. get_value conf = Some (v, ms) \<and> value_present v"
proof -
  obtain c cs where conf: "conf = c # cs" using assms by (cases conf) auto
  let ?r = "the (get_value conf)"
  have "get_value conf \<noteq> None" using conf by (auto simp: get_value_def Let_def split: option.splits elems.splits)
  moreover have "value_present (fst ?r)"
  proof -
    have e: "es \<noteq> []" if "close_scan False cs = Some n" "array_loop (take n cs) [] = Elems es"
      "\<not> (length conf \<ge> 2 \<and> length (takeWhile is_blank cs) + 1 < length conf
           \<and> conf ! (length (takeWhile is_blank cs) + 1) = CHR '']'')" for n es
    proof -
      have "take n cs \<noteq> []"
      proof
        assume "take n cs = []"
        then have "n = 0 \<or> cs = []" by simp
        then have "cs \<noteq> [] \<and> hd cs = CHR '']''" using that(1) by (cases cs) (auto split: if_splits)
        then show False using that(3) conf by (cases cs) (auto simp: is_blank_def)
      qed
      from array_loop_more[OF that(2) this] show ?thesis by auto
    qed
    have p: "value_present (fst (finish_value conf v ws))" if "value_present v" for v ws
      by (rule finish_value_present[OF that])
    show ?thesis using e conf p
      by (auto simp: get_value_def Let_def value_present_def[of "bad_value _"] bad_value_def
          value_present_def[of "_\<lparr>v_jmp := _\<rparr>"] value_present_def[of "\<lparr>v_type = _, v_scalar = _, v_array = _, v_empty = _, v_jmp = _\<rparr>"]
          split: option.splits elems.splits)
  qed
  ultimately show ?thesis by (cases "get_value conf") (auto simp: prod_eq_iff)
qed

lemma parse_loop_no_null: "parse_loop stop cache ws conf \<noteq> Null_return ws'"
proof (induction conf arbitrary: cache ws rule: length_induct)
  case (1 conf)
  then have IH: "parse_loop stop cache' ws'' t \<noteq> Null_return ws'"
    if "length t < length conf" for t cache' ws'' using that by blast
  have skip: "parse_loop stop cache' ws'' (tl q) \<noteq> Null_return ws'"
    if "strchr newline conf = Some q" for q cache' ws'' by (rule IH) (rule strchr_shorter[OF that])
  show ?case
  proof (cases "conf = [] \<or> hd conf = blank \<or> hd conf = newline \<or> hd conf = CHR ''#'' \<or> (\<exists>w. get_key conf = Inl w)")
    case True
    then show ?thesis using skip IH[of "tl conf"]
      by (subst parse_loop.simps) (cases conf; cases "strchr newline conf"; auto)
  next
    case False
    then obtain k conf1 where k: "get_key conf = Inr (k, conf1)" by (cases "get_key conf") auto
    have rest: "parse_loop stop cache' ws'' (drop n conf1) \<noteq> Null_return ws'" for n cache' ws''
      by (rule IH) (use get_key_shorter[OF k] in \<open>auto simp: less_diff_conv\<close>)
    show ?thesis
    proof (cases "conf1 = []")
      case True
      then show ?thesis using False k by (subst parse_loop.simps) (cases conf; simp)
    next
      case ne: False
      obtain v ms where v: "get_value conf1 = Some (v, ms)" "value_present v"
        using get_value_total[OF ne] by blast
      then show ?thesis using False k ne rest
        by (subst parse_loop.simps)
           (cases conf; cases "cache_append cache (node_of k v)"; auto simp: value_present_def)
    qed
  qed
qed

definition strict_rel :: "string list \<Rightarrow> parse_out \<Rightarrow> parse_out \<Rightarrow> bool" where
  "strict_rel ws f t = (case f of
     Parsed c ws' \<Rightarrow> \<exists>ms. ws' = ws @ ms \<and> (if ms = [] then t = f else \<exists>m. t = Stopped m)
   | Early c ws' \<Rightarrow> \<exists>ms. ws' = ws @ ms \<and> (if ms = [] then t = f else \<exists>m. t = Stopped m)
   | Null_return ws' \<Rightarrow> \<exists>m. t = Stopped m
   | Stopped m \<Rightarrow> False)"

lemma strict_rel_warned:
  "strict_rel (ws @ ms) f t \<Longrightarrow> ms \<noteq> [] \<Longrightarrow> strict_rel ws f (Stopped m)"
  by (auto simp: strict_rel_def split: parse_out.splits)

lemma parse_loop_strict: "strict_rel ws (parse_loop False cache ws conf) (parse_loop True cache ws conf)"
proof (induction conf arbitrary: cache ws rule: length_induct)
  case (1 conf)
  then have IH: "strict_rel ws' (parse_loop False cache' ws' t) (parse_loop True cache' ws' t)"
    if "length t < length conf" for t cache' ws' using that by blast
  have skip: "strict_rel ws' (parse_loop False cache' ws' (tl q)) (parse_loop True cache' ws' (tl q))"
    if "strchr newline conf = Some q" for q cache' ws' by (rule IH) (rule strchr_shorter[OF that])
  have skipw: "strict_rel ws' (parse_loop False cache' (ws' @ w # ms) (tl q)) (Stopped m)"
    if "strchr newline conf = Some q" for q cache' ws' w ms m
    by (rule strict_rel_warned[OF skip[OF that]]) simp
  show ?case
  proof (cases conf)
    case Nil
    then show ?thesis by (subst (1 2) parse_loop.simps) (simp add: strict_rel_def)
  next
    case (Cons c cs)
    consider "c = blank" | "c = newline" | "c = CHR ''#''" | "c \<noteq> blank" "c \<noteq> newline" "c \<noteq> CHR ''#''" by blast
    then show ?thesis
    proof cases
      case 1
      then show ?thesis using skipw[where ws' = ws and ms = "[]"] Cons
        by (subst (1 2) parse_loop.simps)
           (cases "strchr newline conf"; simp add: strict_rel_def[of _ "Parsed c w" for c w])
    next
      case 2
      then show ?thesis using IH[of cs] Cons by (subst (1 2) parse_loop.simps) simp
    next
      case 3
      then show ?thesis using skip Cons
        by (subst (1 2) parse_loop.simps)
           (cases "strchr newline conf"; simp add: strict_rel_def[of _ "Parsed c w" for c w])
    next
      case 4
      show ?thesis
      proof (cases "get_key conf")
        case (Inl w)
        then show ?thesis using skipw[where ws' = ws and w = w and ms = "[''Failed to parse key.'']"] Cons 4
          by (subst (1 2) parse_loop.simps)
             (cases "strchr newline conf"; simp add: strict_rel_def[of _ "Parsed c w" for c w])
      next
        case (Inr kr)
        obtain k conf1 where kr: "kr = (k, conf1)" by (cases kr)
        have rest: "strict_rel ws' (parse_loop False cache' ws' (drop n conf1)) (parse_loop True cache' ws' (drop n conf1))"
          for n cache' ws'
          by (rule IH) (use get_key_shorter[of conf k conf1] Inr kr in \<open>auto simp: less_diff_conv\<close>)
        have restw: "strict_rel ws' (parse_loop False cache' (ws' @ ms) (drop n conf1)) (Stopped m)"
          if "ms \<noteq> []" for n cache' ws' ms m
          by (rule strict_rel_warned[OF rest that])
        show ?thesis
        proof (cases "get_value conf1")
          case None
          then show ?thesis using Inr kr Cons 4
            by (subst (1 2) parse_loop.simps) (auto simp: strict_rel_def)
        next
          case (Some vm)
          obtain v ms where vm: "vm = (v, ms)" by (cases vm)
          show ?thesis using Inr kr Cons 4 Some vm rest restw[of _ ws]
            by (subst (1 2) parse_loop.simps)
               (cases "cache_append cache (node_of k v)"; cases ms; auto simp: strict_rel_def[of _ "Null_return w" for w] strict_rel_def[of _ "Early c w" for c w])
        qed
      qed
    qed
  qed
qed

lemma k2v3_parse_strict:
  "k2v3_parse True buf = Inr (c, ws) \<longleftrightarrow> k2v3_parse False buf = Inr (c, []) \<and> ws = []"
  using parse_loop_strict[of "[]" "[]" buf] parse_loop_no_null[of True "[]" "[]" buf]
    parse_loop_no_null[of False "[]" "[]" buf]
  by (auto simp: k2v3_parse_def strict_rel_def split: parse_out.splits if_splits)

section \<open>The cache invariant\<close>

definition cache_ok :: "k2v3_cache \<Rightarrow> bool" where
  "cache_ok cache = (distinct (map b_key cache) \<and> (\<forall>b \<in> set cache. valid_key (b_key b)))"

definition out_ok :: "parse_out \<Rightarrow> bool" where
  "out_ok p = (case p of Parsed c ws \<Rightarrow> cache_ok c | Early c ws \<Rightarrow> cache_ok c | _ \<Rightarrow> True)"

lemma key_scan_chars: "key_scan s = Inr (k, rest) \<Longrightarrow> \<forall>c \<in> set k. key_char c"
  by (induction s arbitrary: k rest) (auto split: if_splits sum.splits)

lemma get_key_valid_key: "get_key conf = Inr (k, rest) \<Longrightarrow> valid_key k"
  by (auto simp: get_key_def valid_key_def split: sum.splits if_splits list.splits dest: key_scan_chars)

lemma cache_append_Some: "cache_append cache node = Some c \<Longrightarrow>
    c = cache @ [node] \<and> b_key node \<notin> b_key ` set cache"
  by (induction cache arbitrary: c) (auto split: if_splits)

lemma cache_ok_append:
  "cache_ok cache \<Longrightarrow> valid_key k \<Longrightarrow> cache_append cache (node_of k v) = Some c \<Longrightarrow> cache_ok c"
  by (auto simp: cache_ok_def node_of_def dest!: cache_append_Some)

lemma parse_loop_ok: "cache_ok cache \<Longrightarrow> out_ok (parse_loop stop cache ws conf)"
proof (induction conf arbitrary: cache ws rule: length_induct)
  case (1 conf)
  then have IH: "out_ok (parse_loop stop cache' ws' t)"
    if "length t < length conf" "cache_ok cache'" for t cache' ws' using that by blast
  have ok: "cache_ok cache" using 1 by blast
  have skip: "out_ok (parse_loop stop cache ws' (tl q))"
    if "strchr newline conf = Some q" for q ws' by (rule IH) (rule strchr_shorter[OF that], rule ok)
  have here: "out_ok (Parsed cache w)" "out_ok (Early cache w)" "out_ok (Stopped m)" "out_ok (Null_return w)"
    for w m using ok by (simp_all add: out_ok_def)
  show ?case
  proof (cases "conf = [] \<or> hd conf = blank \<or> hd conf = newline \<or> hd conf = CHR ''#'' \<or> (\<exists>w. get_key conf = Inl w)")
    case True
    then show ?thesis using skip IH[of "tl conf" cache] here ok
      by (subst parse_loop.simps) (cases conf; cases "strchr newline conf"; auto)
  next
    case False
    then obtain k conf1 where k: "get_key conf = Inr (k, conf1)" by (cases "get_key conf") auto
    have rest: "out_ok (parse_loop stop cache' ws' (drop n conf1))" if "cache_ok cache'" for n cache' ws'
      by (rule IH) (use get_key_shorter[OF k] that in \<open>auto simp: less_diff_conv\<close>)
    have more: "cache_ok c" if "cache_append cache (node_of k v) = Some c" for v c
      by (rule cache_ok_append[OF ok get_key_valid_key[OF k] that])
    show ?thesis
    proof (cases "get_value conf1")
      case None
      then show ?thesis using False k here by (subst parse_loop.simps) (cases conf; simp)
    next
      case (Some vm)
      obtain v ms where "vm = (v, ms)" by (cases vm)
      then show ?thesis using False k rest more here ok Some
        by (subst parse_loop.simps) (cases conf; cases stop; cases "cache_append cache (node_of k v)"; simp)
    qed
  qed
qed

lemma correct_node_key [simp]: "b_key (correct_node b) = b_key b" "b_type (correct_node b) = b_type b"
  "b_empty (correct_node b) = b_empty b"
  by (simp_all add: correct_node_def)

lemma correct_nodes_ok: "cache_ok cache \<Longrightarrow> cache_ok (map correct_node cache)"
  by (simp add: cache_ok_def comp_def)

lemma k2v3_parse_ok: "k2v3_parse stop buf = Inr (c, ws) \<Longrightarrow> cache_ok c"
  using parse_loop_ok[of "[]" stop "[]" buf] correct_nodes_ok
  by (auto simp: k2v3_parse_def out_ok_def cache_ok_def split: parse_out.splits)

lemma k2v3_parse_total: "\<exists>c ws. k2v3_parse False buf = Inr (c, ws)"
  using parse_loop_strict[of "[]" "[]" buf]
  by (auto simp: k2v3_parse_def strict_rel_def split: parse_out.splits)

section \<open>Properties of the parser\<close>

text \<open>C15: without k2v3_stop_at_warning the parser returns on every text (it neither
  loops nor reaches its internal errors), and the cache it builds has distinct keys,
  each a non-empty word of letters, digits and underscores.\<close>

theorem parse_returns_valid_cache:
  "\<exists>c ws. k2v3_parse False buf = Inr (c, ws) \<and> distinct (map b_key c) \<and> list_all (\<lambda>b. valid_key (b_key b)) c"
proof -
  obtain c ws where "k2v3_parse False buf = Inr (c, ws)" using k2v3_parse_total by blast
  then show ?thesis using k2v3_parse_ok[of False buf c ws] by (auto simp: cache_ok_def list_all_iff)
qed

text \<open>C16: k2v3_stop_at_warning changes nothing but when to give up: the strict
  parser returns a cache exactly when the lenient one reports no warning at all,
  and then the same one.\<close>

theorem parse_strict_iff_clean:
  "k2v3_parse True buf = Inr (c, ws) \<longleftrightarrow> k2v3_parse False buf = Inr (c, []) \<and> ws = []"
  by (rule k2v3_parse_strict)

end
