(* ===== verification/K2V3_Access.thy ===== *)
theory K2V3_Access
  imports K2V3
begin

text \<open>
  Reading and writing through the cache of k2v3.c: opening the file, the getters
  by key and type, and the generators of configuration text.  The flag
  \<open>stop\<close> is k2v3_stop_at_warning: with it a warning ends the program,
  without it the getter returns its default.  strtof and the %f of printf are
  arguments, as floating point is outside the model.
\<close>

section \<open>Opening a file\<close>

definition k2v3_warn :: "bool \<Rightarrow> string \<Rightarrow> 'a \<Rightarrow> 'a result" where
  "k2v3_warn stop msg v = (if stop then Inl (Fatal msg) else Inr v)"

definition k2v3_open_file :: "bool \<Rightarrow> string option \<Rightarrow> nat \<Rightarrow> string option result" where
  "k2v3_open_file stop content limit =
     (case content of None \<Rightarrow> Inr None
      | Some s \<Rightarrow>
          if s = [] then Inr None
          else if length s > limit then
            k2v3_warn stop ''File size exceeds the specified limit. This file will be ignored.'' None
          else Inr (Some (takeWhile (\<lambda>c. c \<noteq> nul) s)))"

section \<open>Getters\<close>

fun k2v3_have_key :: "k2v3_cache \<Rightarrow> string \<Rightarrow> k2v3_type \<Rightarrow> int" where
  "k2v3_have_key [] key type = -1"
| "k2v3_have_key (b # cache) key type =
     (if b_key b = key then (if type = K2V3_ANY \<or> b_type b = type then 0 else 1)
      else k2v3_have_key cache key type)"

fun get_key_cache :: "bool \<Rightarrow> string \<Rightarrow> k2v3_type \<Rightarrow> k2v3_cache \<Rightarrow> k2v3_buf option result" where
  "get_key_cache stop key type [] = Inr None"
| "get_key_cache stop key type (b # cache) =
     (if b_key b = key then
        (if b_type b \<noteq> type then k2v3_warn stop ''Key exists but with different type.'' None
         else Inr (Some b))
      else get_key_cache stop key type cache)"

text \<open>What all getters do first: a missing key is a warning and the default, an
  empty value the default.\<close>

definition k2v3_lookup ::
    "bool \<Rightarrow> string \<Rightarrow> k2v3_type \<Rightarrow> k2v3_cache \<Rightarrow> 'a \<Rightarrow> (k2v3_buf \<Rightarrow> 'a result) \<Rightarrow> 'a result" where
  "k2v3_lookup stop key type cache dflt use =
     res_bind (get_key_cache stop key type cache)
       (\<lambda>r. case r of
          None \<Rightarrow> k2v3_warn stop ''Key not found.'' dflt
        | Some node \<Rightarrow> if b_empty node then Inr dflt else use node)"

definition scalar_of :: "k2v3_buf \<Rightarrow> string" where
  "scalar_of b = (case b_scalar b of None \<Rightarrow> [] | Some s \<Rightarrow> s)"

definition array_of :: "k2v3_buf \<Rightarrow> string list" where
  "array_of b = (case b_array b of None \<Rightarrow> [] | Some xs \<Rightarrow> xs)"

definition k2v3_get_char :: "bool \<Rightarrow> string \<Rightarrow> k2v3_cache \<Rightarrow> string option result" where
  "k2v3_get_char stop key cache =
     k2v3_lookup stop key K2V3_SCALAR cache None (\<lambda>b. Inr (Some (scalar_of b)))"

definition int_range :: "int \<Rightarrow> bool" where
  "int_range v = (- (2 ^ 31) \<le> v \<and> v \<le> 2 ^ 31 - 1)"

definition k2v3_get_int :: "bool \<Rightarrow> string \<Rightarrow> k2v3_cache \<Rightarrow> int result" where
  "k2v3_get_int stop key cache =
     k2v3_lookup stop key K2V3_SCALAR cache 0
       (\<lambda>b. if strtol_end (scalar_of b) \<noteq> [] then Inr 0
            else if \<not> int_range (strtol (scalar_of b))
              then k2v3_warn stop ''Value for key is too large for int.'' 0
            else Inr (strtol (scalar_of b)))"

definition k2v3_get_float :: "(string \<Rightarrow> 'f::zero \<times> string) \<Rightarrow> bool \<Rightarrow> string \<Rightarrow> k2v3_cache \<Rightarrow> 'f result" where
  "k2v3_get_float strtof stop key cache =
     k2v3_lookup stop key K2V3_SCALAR cache 0
       (\<lambda>b. case strtof (scalar_of b) of (v, end_text) \<Rightarrow>
          if end_text \<noteq> [] then k2v3_warn stop ''Value for key is not a valid float.'' 0 else Inr v)"

definition k2v3_get_bool :: "bool \<Rightarrow> string \<Rightarrow> k2v3_cache \<Rightarrow> bool result" where
  "k2v3_get_bool stop key cache =
     res_bind (get_key_cache stop key K2V3_SCALAR cache)
       (\<lambda>r. case r of
          None \<Rightarrow> k2v3_warn stop ''Key not found.'' False
        | Some b \<Rightarrow>
            if b_empty b then k2v3_warn stop ''Key is empty.'' False
            else if scalar_of b = ''true'' then Inr True
            else if scalar_of b = ''false'' then Inr False
            else k2v3_warn stop ''Value for key is not a valid boolean.'' False)"

definition k2v3_get_long :: "bool \<Rightarrow> string \<Rightarrow> k2v3_cache \<Rightarrow> int result" where
  "k2v3_get_long stop key cache =
     k2v3_lookup stop key K2V3_SCALAR cache 0
       (\<lambda>b. if strtol_end (scalar_of b) \<noteq> []
            then k2v3_warn stop ''Value for key is not a valid long integer.'' 0
            else Inr (strtol (scalar_of b)))"

text \<open>Array getters: the filled prefix of the caller's array; \<open>conv\<close> converts
  one element and may warn.\<close>

fun conv_all :: "(string \<Rightarrow> 'a result) \<Rightarrow> string list \<Rightarrow> 'a list result" where
  "conv_all conv [] = Inr []"
| "conv_all conv (x # xs) =
     res_bind (conv x) (\<lambda>v. res_bind (conv_all conv xs) (\<lambda>vs. Inr (v # vs)))"

definition k2v3_get_array ::
    "(string \<Rightarrow> 'a result) \<Rightarrow> bool \<Rightarrow> string \<Rightarrow> k2v3_cache \<Rightarrow> nat \<Rightarrow> 'a list result" where
  "k2v3_get_array conv stop key cache limit =
     k2v3_lookup stop key K2V3_ARRAY cache []
       (\<lambda>b. if length (array_of b) > limit
            then k2v3_warn stop ''Array length for key exceeds the limit.'' []
            else conv_all conv (array_of b))"

definition k2v3_get_char_array :: "bool \<Rightarrow> string \<Rightarrow> k2v3_cache \<Rightarrow> nat \<Rightarrow> string list result" where
  "k2v3_get_char_array stop = k2v3_get_array Inr stop"

definition k2v3_get_int_array :: "bool \<Rightarrow> string \<Rightarrow> k2v3_cache \<Rightarrow> nat \<Rightarrow> int list result" where
  "k2v3_get_int_array stop = k2v3_get_array
     (\<lambda>s. res_bind (if strtol_end s \<noteq> [] then k2v3_warn stop ''Value is not a valid integer.'' 0
                    else Inr (strtol s))
        (\<lambda>v. if \<not> int_range v then k2v3_warn stop ''Value is too large for int.'' 0 else Inr v)) stop"

definition k2v3_get_float_array ::
    "(string \<Rightarrow> 'f::zero \<times> string) \<Rightarrow> bool \<Rightarrow> string \<Rightarrow> k2v3_cache \<Rightarrow> nat \<Rightarrow> 'f list result" where
  "k2v3_get_float_array strtof stop = k2v3_get_array
     (\<lambda>s. case strtof s of (v, end_text) \<Rightarrow>
        if end_text \<noteq> [] then k2v3_warn stop ''Value is not a valid float.'' 0 else Inr v) stop"

definition k2v3_get_long_array :: "bool \<Rightarrow> string \<Rightarrow> k2v3_cache \<Rightarrow> nat \<Rightarrow> int list result" where
  "k2v3_get_long_array stop = k2v3_get_array
     (\<lambda>s. if strtol_end s \<noteq> [] then k2v3_warn stop ''Value is not a valid long integer.'' 0
          else Inr (strtol s)) stop"

section \<open>Generators\<close>

text \<open>The generated texts, and beside each the size of the buffer the code
  allocates for it.\<close>

definition text_of :: "string option \<Rightarrow> string" where
  "text_of buf = (case buf of None \<Rightarrow> [] | Some s \<Rightarrow> s)"

definition k2v3_add_comment :: "string option \<Rightarrow> string \<Rightarrow> string" where
  "k2v3_add_comment buf comment = text_of buf @ ''# '' @ comment @ [newline]"

definition k2v3_add_newline :: "string option \<Rightarrow> string" where
  "k2v3_add_newline buf = text_of buf @ [newline]"

definition k2v3_add_config :: "string option \<Rightarrow> string \<Rightarrow> string" where
  "k2v3_add_config buf tmp = text_of buf @ tmp"

definition char_to_k2v3 :: "string \<Rightarrow> string option \<Rightarrow> string" where
  "char_to_k2v3 key v = key @ CHR ''='' # dquote # text_of v @ [dquote, newline]"

definition char_to_k2v3_size :: "string \<Rightarrow> string option \<Rightarrow> nat" where
  "char_to_k2v3_size key v = length key + length (text_of v) + 5"

definition int_to_k2v3 :: "string \<Rightarrow> int \<Rightarrow> string" where
  "int_to_k2v3 key v = key @ CHR ''='' # dquote # show_int v @ [dquote, newline]"

definition long_to_k2v3 :: "string \<Rightarrow> int \<Rightarrow> string" where
  "long_to_k2v3 key v = key @ CHR ''='' # dquote # show_int v @ [dquote, newline]"

definition bool_to_k2v3 :: "string \<Rightarrow> bool \<Rightarrow> string" where
  "bool_to_k2v3 key v = key @ CHR ''='' # dquote # (if v then ''true'' else ''false'') @ [dquote, newline]"

definition float_to_k2v3 :: "('f \<Rightarrow> string) \<Rightarrow> string \<Rightarrow> 'f \<Rightarrow> string" where
  "float_to_k2v3 fmt key v = key @ CHR ''='' # dquote # fmt v @ [dquote, newline]"

text \<open>The element loop shared by the array generators: quoted elements, a comma
  after each but the last.\<close>

fun quoted_elems :: "string list \<Rightarrow> string" where
  "quoted_elems [] = []"
| "quoted_elems [v] = dquote # v @ [dquote]"
| "quoted_elems (v # vs) = dquote # v @ [dquote, CHR '',''] @ quoted_elems vs"

definition array_to_k2v3 :: "string \<Rightarrow> string list \<Rightarrow> string" where
  "array_to_k2v3 key vs =
     (if vs = [] then key @ ''=[]'' @ [newline]
      else key @ ''=['' @ quoted_elems vs @ '']'' @ [newline])"

definition char_array_to_k2v3 :: "string \<Rightarrow> string list \<Rightarrow> string" where
  "char_array_to_k2v3 key vs = array_to_k2v3 key vs"

fun char_array_size_loop :: "string list \<Rightarrow> nat" where
  "char_array_size_loop [] = 0"
| "char_array_size_loop (v # vs) = length v + 2 + (if vs \<noteq> [] then 1 else 0) + char_array_size_loop vs"

definition char_array_to_k2v3_size :: "string \<Rightarrow> string list \<Rightarrow> nat" where
  "char_array_to_k2v3_size key vs = length key + 5 + char_array_size_loop vs"

definition int_array_to_k2v3 :: "string \<Rightarrow> int list \<Rightarrow> string" where
  "int_array_to_k2v3 key vs = array_to_k2v3 key (map show_int vs)"

definition long_array_to_k2v3 :: "string \<Rightarrow> int list \<Rightarrow> string" where
  "long_array_to_k2v3 key vs = array_to_k2v3 key (map show_int vs)"

definition float_array_to_k2v3 :: "('f \<Rightarrow> string) \<Rightarrow> string \<Rightarrow> 'f list \<Rightarrow> string" where
  "float_array_to_k2v3 fmt key vs = array_to_k2v3 key (map fmt vs)"

section \<open>Parsing generated text\<close>

definition elem_ok :: "string \<Rightarrow> bool" where
  "elem_ok v = (v \<noteq> [] \<and> quotable {dquote, CHR '']''} False v)"

lemma quoted_elems_head: "vs \<noteq> [] \<Longrightarrow> \<exists>r. quoted_elems vs = dquote # r"
  by (cases vs rule: quoted_elems.cases) auto

lemma quoted_elems_nonempty [simp]: "quoted_elems vs = [] \<longleftrightarrow> vs = []"
  by (cases vs rule: quoted_elems.cases) auto

lemma quotable_elem:
  "quotable {dquote, CHR '']''} False v \<Longrightarrow> quotable {CHR '']''} False (v @ dquote # t)
     = quotable {CHR '']''} False t"
  using quotable_mono[of "{dquote, CHR '']''}" False v "{CHR '']''}"]
    quotable_append[of "{CHR '']''}" False v "dquote # t"] by simp

lemma quotable_quoted_elems:
  "\<forall>v \<in> set vs. elem_ok v \<Longrightarrow> quotable {CHR '']''} False (quoted_elems vs)"
  by (induction vs rule: quoted_elems.induct)
     (auto simp: elem_ok_def quotable_elem)

lemma elem_scan_ok: "elem_ok v \<Longrightarrow> elem_scan False (v @ dquote # t) = Some (v, dquote # t)"
  using quotable_mono[of "{dquote, CHR '']''}" False v "{dquote}"]
  by (simp add: elem_ok_def elem_scan_found)

lemma array_loop_quoted:
  "\<forall>v \<in> set vs. elem_ok v \<Longrightarrow> vs \<noteq> [] \<Longrightarrow> array_loop (quoted_elems vs) acc = Elems (acc @ vs)"
proof (induction vs arbitrary: acc rule: quoted_elems.induct)
  case (2 v)
  then show ?case using elem_scan_ok[of v "[]"]
    by (subst array_loop.simps) (auto simp: is_blank_def elem_ok_def)
next
  case (3 v w vs)
  obtain r where r: "quoted_elems (w # vs) = dquote # r" using quoted_elems_head[of "w # vs"] by auto
  have s: "quoted_elems (v # w # vs) = dquote # v @ dquote # CHR '','' # quoted_elems (w # vs)" by simp
  have "elem_scan False (v @ dquote # CHR '','' # quoted_elems (w # vs))
     = Some (v, dquote # CHR '','' # quoted_elems (w # vs))"
    using 3 elem_scan_ok by simp
  then show ?case unfolding s using 3 r
    by (subst array_loop.simps) (auto simp: is_blank_def elem_ok_def simp del: quoted_elems.simps)
qed simp

lemma get_value_array:
  assumes "vs \<noteq> []" "\<forall>v \<in> set vs. elem_ok v"
  shows "get_value (CHR ''['' # quoted_elems vs @ CHR '']'' # newline # t) = Some
    (\<lparr>v_type = K2V3_ARRAY, v_scalar = None, v_array = Some vs, v_empty = False,
      v_jmp = length (quoted_elems vs) + 2\<rparr>, [])"
proof -
  let ?conf = "CHR ''['' # quoted_elems vs @ CHR '']'' # newline # t"
  obtain r where r: "quoted_elems vs = dquote # r" using quoted_elems_head[OF assms(1)] by auto
  have c: "close_scan False (quoted_elems vs @ CHR '']'' # newline # t) = Some (length (quoted_elems vs))"
    by (rule close_scan_found) (rule quotable_quoted_elems[OF assms(2)])
  have n: "?conf ! (length (quoted_elems vs) + 2) = newline"
    using nth_append_length[of "CHR ''['' # quoted_elems vs @ [CHR '']'']" newline t] by simp
  have b: "takeWhile is_blank (quoted_elems vs @ CHR '']'' # newline # t) = []"
    using r by (simp add: is_blank_def)
  have f: "finish_value ?conf \<lparr>v_type = K2V3_ARRAY, v_scalar = None, v_array = Some vs, v_empty = False,
      v_jmp = length (quoted_elems vs) + 2\<rparr> [] = (\<lparr>v_type = K2V3_ARRAY, v_scalar = None,
      v_array = Some vs, v_empty = False, v_jmp = length (quoted_elems vs) + 2\<rparr>, [])"
    by (rule finish_at_newline) (use n in simp_all)
  have h: "?conf ! 1 = dquote" using r by simp
  show ?thesis
    using c f h b array_loop_quoted[OF assms(2,1), of "[]"] assms(1)
    by (simp add: get_value_def Let_def)
qed

section \<open>The cache as a store: the first binding of a key stays\<close>

locale kv_store =
  fixes empty :: 's
    and put :: "'s \<Rightarrow> 'k \<Rightarrow> 'v \<Rightarrow> 's"
    and get :: "'s \<Rightarrow> 'k \<Rightarrow> 'v option"
  assumes get_empty: "get empty k = None"
    and get_put: "get (put s k v) k' = (if get s k' = None \<and> k' = k then Some v else get s k')"
begin

lemma get_foldl:
  "get (foldl (\<lambda>s (k, v). put s k v) s kvs) k
     = (case get s k of Some v \<Rightarrow> Some v | None \<Rightarrow> map_of kvs k)"
  by (induction kvs arbitrary: s) (auto simp: get_put split: option.splits)

lemma get_built: "get (foldl (\<lambda>s (k, v). put s k v) empty kvs) k = map_of kvs k"
  by (simp add: get_foldl get_empty)

end

definition cache_find :: "k2v3_cache \<Rightarrow> string \<Rightarrow> k2v3_buf option" where
  "cache_find cache key = find (\<lambda>b. b_key b = key) cache"

type_synonym payload = "k2v3_type \<times> string option \<times> string list option \<times> bool"

definition payload :: "k2v3_buf \<Rightarrow> payload" where
  "payload b = (b_type b, b_scalar b, b_array b, b_empty b)"

definition node_with :: "string \<Rightarrow> payload \<Rightarrow> k2v3_buf" where
  "node_with key p = (case p of (t, s, a, e) \<Rightarrow>
     \<lparr>b_type = t, b_key = key, b_scalar = s, b_array = a, b_empty = e\<rparr>)"

definition cache_put :: "k2v3_cache \<Rightarrow> string \<Rightarrow> payload \<Rightarrow> k2v3_cache" where
  "cache_put cache key p =
     (case cache_append cache (node_with key p) of None \<Rightarrow> cache | Some c \<Rightarrow> c)"

lemma node_with_simps [simp]: "b_key (node_with key p) = key" "payload (node_with key p) = p"
  "node_with (b_key b) (payload b) = b"
  by (auto simp: node_with_def payload_def split: prod.splits)

lemma cache_append_iff:
  "cache_append cache node =
     (if b_key node \<in> b_key ` set cache then None else Some (cache @ [node]))"
  by (induction cache) auto

lemma cache_find_append:
  "cache_find (cache @ [node]) key =
     (case cache_find cache key of Some b \<Rightarrow> Some b
      | None \<Rightarrow> if b_key node = key then Some node else None)"
  by (induction cache) (auto simp: cache_find_def)

lemma cache_find_None: "cache_find cache key = None \<longleftrightarrow> key \<notin> b_key ` set cache"
  by (auto simp: cache_find_def find_None_iff)

lemma cache_find_key: "cache_find cache key = Some b \<Longrightarrow> b_key b = key"
  by (auto simp: cache_find_def find_Some_iff)

interpretation store: kv_store "[]" cache_put "\<lambda>c k. map_option payload (cache_find c k)"
proof unfold_locales
  fix s k and v :: payload and k'
  show "map_option payload (cache_find [] k) = None" by (simp add: cache_find_def)
  show "map_option payload (cache_find (cache_put s k v) k')
      = (if map_option payload (cache_find s k') = None \<and> k' = k then Some v
         else map_option payload (cache_find s k'))"
  proof (cases "k \<in> b_key ` set s")
    case True
    then have "cache_find s k \<noteq> None" by (simp add: cache_find_None)
    then show ?thesis using True by (auto simp: cache_put_def cache_append_iff)
  next
    case False
    then show ?thesis
      by (cases "cache_find s k'") (simp_all add: cache_put_def cache_append_iff cache_find_append)
  qed
qed

text \<open>A list of nodes with distinct keys is the store built from it.\<close>

lemma distinct_cache_built:
  "distinct (map b_key (s @ nodes)) \<Longrightarrow>
   foldl (\<lambda>s (k, v). cache_put s k v) s (map (\<lambda>b. (b_key b, payload b)) nodes) = s @ nodes"
proof (induction nodes arbitrary: s)
  case (Cons b nodes)
  then have "cache_put s (b_key b) (payload b) = s @ [b]"
    by (auto simp: cache_put_def cache_append_iff)
  with Cons.IH[of "s @ [b]"] Cons.prems show ?case by simp
qed simp

lemma cache_find_member:
  assumes "distinct (map b_key nodes)" "b \<in> set nodes"
  shows "cache_find nodes (b_key b) = Some b"
proof -
  have d: "distinct (map fst (map (\<lambda>b. (b_key b, payload b)) nodes))"
    using assms(1) by (simp add: comp_def)
  have "foldl (\<lambda>s (k, v). cache_put s k v) [] (map (\<lambda>b. (b_key b, payload b)) nodes) = nodes"
    using distinct_cache_built[of "[]" nodes] assms(1) by simp
  then have "map_option payload (cache_find nodes (b_key b)) = map_of (map (\<lambda>b. (b_key b, payload b)) nodes) (b_key b)"
    using store.get_built[of "map (\<lambda>b. (b_key b, payload b)) nodes" "b_key b"] by argo
  also have "\<dots> = Some (payload b)"
    by (rule map_of_is_SomeI[OF d]) (use assms(2) in auto)
  finally obtain b' where b': "cache_find nodes (b_key b) = Some b'" "payload b' = payload b" by auto
  have "b' = node_with (b_key b) (payload b)"
    using node_with_simps(3)[of b'] cache_find_key[OF b'(1)] b'(2) by argo
  then show ?thesis using b'(1) by (simp only: node_with_simps(3))
qed

lemma get_key_cache_find:
  "get_key_cache stop key type cache =
     (case cache_find cache key of None \<Rightarrow> Inr None
      | Some b \<Rightarrow> if b_type b \<noteq> type then k2v3_warn stop ''Key exists but with different type.'' None
                 else Inr (Some b))"
  by (induction cache) (auto simp: cache_find_def)

section \<open>A configuration as a list of generated items\<close>

datatype k2v3_item =
  Scalar_item string "string option"
| Array_item string "string list"
| Comment_item string
| Newline_item

fun item_text :: "k2v3_item \<Rightarrow> string" where
  "item_text (Scalar_item k v) = char_to_k2v3 k v"
| "item_text (Array_item k vs) = char_array_to_k2v3 k vs"
| "item_text (Comment_item c) = k2v3_add_comment None c"
| "item_text Newline_item = k2v3_add_newline None"

fun item_ok :: "k2v3_item \<Rightarrow> bool" where
  "item_ok (Scalar_item k v) =
     (valid_key k \<and> (case v of None \<Rightarrow> True | Some s \<Rightarrow> quotable {dquote} False s \<and> newline \<notin> set s))"
| "item_ok (Array_item k vs) = (valid_key k \<and> (\<forall>v \<in> set vs. elem_ok v))"
| "item_ok (Comment_item c) = (newline \<notin> set c)"
| "item_ok Newline_item = True"

fun item_nodes :: "k2v3_item \<Rightarrow> k2v3_buf list" where
  "item_nodes (Scalar_item k v) =
     (if text_of v = [] then [\<lparr>b_type = K2V3_SCALAR, b_key = k, b_scalar = None, b_array = None, b_empty = True\<rparr>]
      else [\<lparr>b_type = K2V3_SCALAR, b_key = k, b_scalar = v, b_array = None, b_empty = False\<rparr>])"
| "item_nodes (Array_item k vs) =
     (if vs = [] then [\<lparr>b_type = K2V3_ARRAY, b_key = k, b_scalar = None, b_array = None, b_empty = True\<rparr>]
      else [\<lparr>b_type = K2V3_ARRAY, b_key = k, b_scalar = None, b_array = Some vs, b_empty = False\<rparr>])"
| "item_nodes (Comment_item c) = []"
| "item_nodes Newline_item = []"

lemma parse_loop_key:
  assumes "valid_key k" "get_value conf1 = Some (v, [])" "conf1 \<noteq> []"
    "\<not> (v_scalar v = None \<and> v_array v = None \<and> \<not> v_empty v)"
    "k \<notin> b_key ` set cache"
  shows "parse_loop stop cache ws (k @ CHR ''='' # conf1)
    = parse_loop stop (cache @ [node_of k v]) ws (drop (v_jmp v) conf1)"
proof -
  obtain c cs where k: "k = c # cs" using assms(1) by (cases k) (auto simp: valid_key_def)
  then have c: "c \<noteq> blank" "c \<noteq> newline" "c \<noteq> CHR ''#''"
    using assms(1) key_char_not[of c] by (auto simp: valid_key_def)
  have g: "get_key (c # cs @ CHR ''='' # conf1) = Inr (k, conf1)"
    using get_key_valid[OF assms(1), of conf1] k by simp
  have "b_key (node_of k v) = k" by (simp add: node_of_def)
  then have ca: "cache_append cache (node_of k v) = Some (cache @ [node_of k v])"
    using assms(5) by (simp add: cache_append_iff)
  show ?thesis using c g k assms(2-4) ca by (subst parse_loop.simps) auto
qed

lemma parse_loop_newline: "parse_loop stop cache ws (newline # t) = parse_loop stop cache ws t"
  by (subst parse_loop.simps) simp

lemma parse_loop_item:
  assumes "item_ok it" "\<forall>b \<in> set (item_nodes it). b_key b \<notin> b_key ` set cache"
  shows "parse_loop stop cache ws (item_text it @ rest) = parse_loop stop (cache @ item_nodes it) ws rest"
proof (cases it)
  case (Scalar_item k v)
  have k: "valid_key k" "k \<notin> b_key ` set cache" using assms Scalar_item by (auto split: if_splits)
  show ?thesis
  proof (cases "text_of v = []")
    case True
    then show ?thesis
      using k parse_loop_key[OF k(1) get_value_empty_scalar[of rest], of cache stop ws] Scalar_item
      by (simp add: char_to_k2v3_def empty_scalar_def node_of_def parse_loop_newline)
  next
    case False
    then obtain s where s: "v = Some s" "s \<noteq> []" by (cases v) (auto simp: text_of_def)
    then have ok: "quotable {dquote} False s" "newline \<notin> set s" using assms(1) Scalar_item by auto
    have d: "drop (length s) (s @ dquote # newline # rest) = dquote # newline # rest" by simp
    show ?thesis
      using k parse_loop_key[OF k(1) get_value_scalar[OF s(2) ok, of rest], of cache stop ws] Scalar_item s
      by (simp add: char_to_k2v3_def text_of_def node_of_def parse_loop_newline)
  qed
next
  case (Array_item k vs)
  have k: "valid_key k" "k \<notin> b_key ` set cache" using assms Array_item by (auto split: if_splits)
  show ?thesis
  proof (cases "vs = []")
    case True
    then show ?thesis
      using k parse_loop_key[OF k(1) get_value_empty_array[of rest], of cache stop ws] Array_item
      by (simp add: char_array_to_k2v3_def array_to_k2v3_def node_of_def parse_loop_newline)
  next
    case False
    have "\<forall>v \<in> set vs. elem_ok v" using assms(1) Array_item by simp
    then show ?thesis
      using k parse_loop_key[OF k(1) get_value_array[OF False, of rest], of cache stop ws] Array_item False
      by (simp add: char_array_to_k2v3_def array_to_k2v3_def node_of_def parse_loop_newline)
  qed
next
  case (Comment_item c)
  have "strchr newline (CHR ''#'' # blank # c @ newline # rest) = Some (newline # rest)"
    using assms(1) Comment_item strchr_append[of newline "CHR ''#'' # blank # c" rest] by simp
  then show ?thesis using Comment_item
    by (subst parse_loop.simps) (simp add: k2v3_add_comment_def text_of_def)
next
  case Newline_item
  then show ?thesis by (simp add: k2v3_add_newline_def text_of_def parse_loop_newline)
qed

abbreviation config_text :: "k2v3_item list \<Rightarrow> string" where
  "config_text items \<equiv> concat (map item_text items)"

abbreviation config_nodes :: "k2v3_item list \<Rightarrow> k2v3_cache" where
  "config_nodes items \<equiv> concat (map item_nodes items)"

lemma parse_loop_items:
  "\<forall>it \<in> set items. item_ok it \<Longrightarrow> distinct (map b_key (cache @ config_nodes items)) \<Longrightarrow>
   parse_loop stop cache ws (config_text items) = Parsed (cache @ config_nodes items) ws"
proof (induction items arbitrary: cache)
  case Nil
  then show ?case by (subst parse_loop.simps) simp
next
  case (Cons it items)
  have "\<forall>b \<in> set (item_nodes it). b_key b \<notin> b_key ` set cache" using Cons.prems(2) by auto
  then have "parse_loop stop cache ws (config_text (it # items))
      = parse_loop stop (cache @ item_nodes it) ws (config_text items)"
    using parse_loop_item[of it cache] Cons.prems(1) by simp
  also have "\<dots> = Parsed ((cache @ item_nodes it) @ config_nodes items) ws"
    by (rule Cons.IH) (use Cons.prems in simp_all)
  finally show ?case by simp
qed

lemma parse_config_text:
  assumes "\<forall>it \<in> set items. item_ok it" "distinct (map b_key (config_nodes items))"
  shows "k2v3_parse stop (config_text items) = Inr (map correct_node (config_nodes items), [])"
  using parse_loop_items[OF assms(1), of "[]" stop "[]"] assms(2) by (simp add: k2v3_parse_def)

text \<open>What a lookup in the parsed text finds for one item.\<close>

lemma find_item:
  assumes "distinct (map b_key (config_nodes items))" "it \<in> set items" "b \<in> set (item_nodes it)"
  shows "cache_find (map correct_node (config_nodes items)) (b_key b) = Some (correct_node b)"
proof -
  have "distinct (map b_key (map correct_node (config_nodes items)))"
    using assms(1) by (simp add: comp_def)
  moreover have "correct_node b \<in> set (map correct_node (config_nodes items))"
    using assms(2,3) by auto
  ultimately have "cache_find (map correct_node (config_nodes items)) (b_key (correct_node b))
      = Some (correct_node b)" by (rule cache_find_member)
  then show ?thesis by simp
qed

lemma get_char_item:
  assumes "distinct (map b_key (config_nodes items))" "Scalar_item k v \<in> set items"
  shows "k2v3_get_char stop k (map correct_node (config_nodes items))
    = Inr (if text_of v = [] then None else Some (correct_backslash (text_of v)))"
proof (cases "text_of v = []")
  case True
  then show ?thesis
    using find_item[OF assms, of "hd (item_nodes (Scalar_item k v))"]
    by (simp add: k2v3_get_char_def k2v3_lookup_def get_key_cache_find)
next
  case False
  then show ?thesis
    using find_item[OF assms, of "hd (item_nodes (Scalar_item k v))"]
    by (auto simp: k2v3_get_char_def k2v3_lookup_def get_key_cache_find correct_node_def scalar_of_def
        text_of_def split: option.splits)
qed

lemma conv_all_Inr: "conv_all Inr xs = Inr xs"
  by (induction xs) auto

lemma get_char_array_item:
  assumes "distinct (map b_key (config_nodes items))" "Array_item k vs \<in> set items"
    "length vs \<le> limit"
  shows "k2v3_get_char_array stop k (map correct_node (config_nodes items)) limit
    = Inr (map correct_backslash vs)"
proof (cases "vs = []")
  case True
  then show ?thesis
    using find_item[OF assms(1,2), of "hd (item_nodes (Array_item k vs))"]
    by (simp add: k2v3_get_char_array_def k2v3_get_array_def k2v3_lookup_def get_key_cache_find)
next
  case False
  then show ?thesis
    using find_item[OF assms(1,2), of "hd (item_nodes (Array_item k vs))"] assms(3)
    by (simp add: k2v3_get_char_array_def k2v3_get_array_def k2v3_lookup_def get_key_cache_find
        correct_node_def array_of_def conv_all_Inr)
qed

section \<open>Properties\<close>

text \<open>C17: writing a configuration and reading it back: text made by the generators
  from items with distinct, valid keys and properly escaped values parses without a
  warning, strict or not, and each getter then returns the item's value with its
  backslashes resolved, the empty value as NULL.\<close>

theorem generated_config_reads_back:
  assumes "\<forall>it \<in> set items. item_ok it" "distinct (map b_key (config_nodes items))"
  shows "\<exists>cache. k2v3_parse stop (config_text items) = Inr (cache, []) \<and>
    (\<forall>k v. Scalar_item k v \<in> set items \<longrightarrow> k2v3_get_char stop k cache
        = Inr (if text_of v = [] then None else Some (correct_backslash (text_of v)))) \<and>
    (\<forall>k vs limit. Array_item k vs \<in> set items \<and> length vs \<le> limit \<longrightarrow>
        k2v3_get_char_array stop k cache limit = Inr (map correct_backslash vs))"
  using parse_config_text[OF assms] get_char_item[OF assms(2)] get_char_array_item[OF assms(2)] by simp

theorem generated_config_reads_back_witness:
  "\<exists>cache. k2v3_parse True (config_text [Comment_item ''demo'', Scalar_item ''user'' (Some ''moe''),
        Array_item ''env'' [''HOME'', ''/root'']]) = Inr (cache, []) \<and>
     k2v3_get_char True ''user'' cache = Inr (Some ''moe'')"
  using generated_config_reads_back[of "[Comment_item ''demo'', Scalar_item ''user'' (Some ''moe''),
        Array_item ''env'' [''HOME'', ''/root'']]" True]
  by (fastforce simp: valid_key_def key_char_def elem_ok_def text_of_def)

text \<open>C18: the buffers the string generators allocate are large enough for what
  they print into them, the terminating NUL included.\<close>

theorem generators_fit_buffers:
  "length (char_to_k2v3 k v) < char_to_k2v3_size k v \<and>
   length (char_array_to_k2v3 k vs) < char_array_to_k2v3_size k vs"
proof -
  have "length (quoted_elems xs) = char_array_size_loop xs" for xs
    by (induction xs rule: quoted_elems.induct) auto
  then show ?thesis
    by (simp add: char_to_k2v3_def char_to_k2v3_size_def char_array_to_k2v3_def
        char_array_to_k2v3_size_def array_to_k2v3_def)
qed

text \<open>a closing bracket inside a quoted element ends the array: what the
  generator writes for such a value, the strict parser refuses.\<close>

theorem bracket_in_element_refused:
  assumes "valid_key k" "pre \<noteq> []" "quotable {dquote, CHR '']''} False pre"
  shows "k2v3_parse True (char_array_to_k2v3 k [pre @ CHR '']'' # post])
    = Inl (Fatal ''Unterminated array element.'')"
proof -
  let ?conf = "CHR ''['' # dquote # pre @ CHR '']'' # post @ [dquote, CHR '']'', newline]"
  have el: "quotable X e s \<Longrightarrow> dquote \<in> X \<Longrightarrow> s \<noteq> [] \<Longrightarrow> elem_scan e s = None" for X e s
    by (induction X e s rule: quotable.induct) (auto simp: neq_Nil_conv)
  have c: "close_scan False (dquote # pre @ CHR '']'' # post @ [dquote, CHR '']'', newline])
      = Some (Suc (length pre))"
    using close_scan_found[of False pre "post @ [dquote, CHR '']'', newline]"]
      quotable_mono[OF assms(3), of "{CHR '']''}"] by simp
  have a: "array_loop (dquote # pre) [] = Bad_elem ''Unterminated array element.''"
    using el[OF assms(3) _ assms(2)] by (subst array_loop.simps) (simp add: is_blank_def)
  have v: "get_value ?conf = Some (bad_value ?conf, [''Unterminated array element.''])"
    using c a by (simp add: get_value_def Let_def is_blank_def)
  obtain x xs where k: "k = x # xs" using assms(1) by (cases k) (auto simp: valid_key_def)
  then have x: "x \<noteq> blank" "x \<noteq> newline" "x \<noteq> CHR ''#''"
    using assms(1) key_char_not[of x] by (auto simp: valid_key_def)
  have "parse_loop True [] [] (k @ CHR ''='' # ?conf) = Stopped ''Unterminated array element.''"
    using get_key_valid[OF assms(1), of ?conf] v k x by (subst parse_loop.simps) simp
  then show ?thesis by (simp add: k2v3_parse_def char_array_to_k2v3_def array_to_k2v3_def)
qed

theorem bracket_in_element_refused_witness:
  "k2v3_parse True (char_array_to_k2v3 ''env'' [''PS1=[u]'']) = Inl (Fatal ''Unterminated array element.'')"
  using bracket_in_element_refused[of "''env''" "''PS1=[u''" "[]"]
  by (simp add: valid_key_def key_char_def)

text \<open>a comment after the closing bracket of an array that starts on an
  earlier line sends the parser back to the first line break inside the array, so
  a strict parse of such a (correct) configuration is refused.\<close>

theorem comment_after_multiline_array_refused:
  assumes "valid_key k" "elem_ok e"
  shows "k2v3_parse True (k @ CHR ''='' # CHR ''['' # newline # dquote # e @ dquote # CHR '']'' # blank
      # CHR ''#'' # c @ [newline]) = Inl (Fatal ''Invalid character in key.'')"
proof -
  let ?conf = "CHR ''['' # newline # dquote # e @ dquote # CHR '']'' # blank # CHR ''#'' # c @ [newline]"
  let ?v = "\<lparr>v_type = K2V3_ARRAY, v_scalar = None, v_array = Some [e], v_empty = False, v_jmp = length e + 5\<rparr>"
  have q: "quotable {CHR '']''} False (newline # dquote # e @ [dquote])"
    using quotable_quoted_elems[of "[e]"] assms(2) by simp
  have cl: "close_scan False (newline # dquote # e @ dquote # CHR '']'' # blank # CHR ''#'' # c @ [newline])
      = Some (length e + 3)"
    using close_scan_found[OF q, of "blank # CHR ''#'' # c @ [newline]"] by simp
  have ar: "array_loop (newline # dquote # e @ [dquote]) [] = Elems [e]"
    using elem_scan_ok[OF assms(2), of "[]"] assms(2)
    by (subst array_loop.simps) (simp add: is_blank_def elem_ok_def)
  have dr: "drop (length e + 5) ?conf = blank # CHR ''#'' # c @ [newline]"
  proof -
    have "length (CHR ''['' # newline # dquote # e @ [dquote, CHR '']'']) = length e + 5" by simp
    moreover have "?conf = (CHR ''['' # newline # dquote # e @ [dquote, CHR '']'']) @ (blank # CHR ''#'' # c @ [newline])"
      by simp
    ultimately show ?thesis by (metis append_eq_conv_conj)
  qed
  have hash: "?conf ! (length e + 6) = CHR ''#''"
    using nth_append_length[of "CHR ''['' # newline # dquote # e @ [dquote, CHR '']'', blank]" "CHR ''#''" "c @ [newline]"]
    by (simp add: eval_nat_numeral)
  have tw: "takeWhile (\<lambda>x. x = blank) (blank # CHR ''#'' # c @ [newline]) = [blank]" by simp
  have fin: "finish_value ?conf ?v [] = (?v\<lparr>v_jmp := 1\<rparr>, [])"
    unfolding finish_value_def Let_def using dr hash tw by simp
  have val: "get_value ?conf = Some (?v\<lparr>v_jmp := 1\<rparr>, [])"
    using cl ar fin by (simp add: get_value_def Let_def is_blank_def eval_nat_numeral)
  have "parse_loop True [] [] (k @ CHR ''='' # ?conf)
      = parse_loop True [node_of k (?v\<lparr>v_jmp := 1\<rparr>)] [] (drop 1 ?conf)"
    using parse_loop_key[OF assms(1) val, of "[]" True "[]"] by simp
  also have "\<dots> = Stopped ''Invalid character in key.''"
    by (simp add: parse_loop_newline) (subst parse_loop.simps, simp add: get_key_def key_char_def)
  finally show ?thesis by (simp add: k2v3_parse_def)
qed

theorem comment_after_multiline_array_refused_witness:
  "k2v3_parse True (''env'' @ CHR ''='' # CHR ''['' # newline # dquote # ''A'' @ dquote # CHR '']'' # blank
      # CHR ''#'' # ''x'' @ [newline]) = Inl (Fatal ''Invalid character in key.'')"
  using comment_after_multiline_array_refused[of "''env''" "''A''" "''x''"]
  by (simp add: valid_key_def key_char_def elem_ok_def)

end
