(* ===== verification/Container.thy ===== *)
theory Container
  imports Caplist K2V3_Access
begin

text \<open>
  The container description struct RURI_CONTAINER (include/ruri.h), its default
  values (ruri_init_config), and the texts config.c writes for it.

  NULL-terminated arrays of strings are the list of the strings before the NULL;
  their capacities are the constants below.  A char pointer that may be NULL is an
  option.  The build is the default one (libcap, libseccomp and .rurienv enabled).
  timeout, a float number of
  seconds in C, is the integer number of nanoseconds the watchdog derives from it.
\<close>

section \<open>Limits\<close>

definition ruri_max_commands :: nat where "ruri_max_commands = 1024"
definition ruri_max_envs :: nat where "ruri_max_envs = 512 * 2"
definition ruri_max_mountpoints :: nat where "ruri_max_mountpoints = 512 * 2"
definition ruri_max_char_devs :: nat where "ruri_max_char_devs = 128 * 3"
definition ruri_max_seccomp_denied_syscall :: nat where "ruri_max_seccomp_denied_syscall = 2048"

section \<open>The container\<close>

record ruri_container =
  container_dir :: "string option"
  drop_caplist :: caplist
  command :: "string list"
  extra_mountpoint :: "string list"
  extra_ro_mountpoint :: "string list"
  env_list :: "string list"
  no_new_privs :: bool
  enable_default_seccomp :: bool
  enable_seccomp_whitelist :: bool
  no_warnings :: bool
  enable_unshare :: bool
  rootless :: bool
  mount_host_runtime :: bool
  ns_pid :: int
  cross_arch :: "string option"
  qemu_path :: "string option"
  use_rurienv :: bool
  ro_root :: bool
  cpuset :: "string option"
  memory :: "string option"
  cpupercent :: int
  container_id :: int
  just_chroot :: bool
  work_dir :: "string option"
  rootfs_source :: "string option"
  unmask_dirs :: bool
  user :: "string option"
  hostname :: "string option"
  no_network :: bool
  use_kvm :: bool
  char_devs :: "string list"
  hidepid :: int
  timens_realtime_offset :: int
  timens_monotonic_offset :: int
  seccomp_denied_syscall :: "string list"
  oom_score_adj :: int
  masked_path :: "string list"
  enable_tty_signals :: bool
  skip_setgroups :: bool
  first_init :: bool
  systemd_mode :: bool
  pid_file :: "string option"
  auto_umount :: bool
  auto_umount_on_panic :: bool
  is_health_check :: bool
  timeout :: int
  fork_as_init :: bool

text \<open>ruri_init_config assigns the fields of an allocated struct: the argument is
  what the memory held before.  Every field is assigned except no_network.\<close>

definition ruri_init_config :: "cap_kernel \<Rightarrow> int \<Rightarrow> ruri_container \<Rightarrow> ruri_container option" where
  "ruri_init_config kern now c = do {
     caps \<leftarrow> ruri_build_caplist kern (replicate (ruri_cap_last_cap + 1) ruri_init_value) False
               [ruri_init_value, 0] [ruri_init_value, 0];
     Some (c\<lparr>container_dir := None, drop_caplist := caps,
       enable_default_seccomp := False, no_new_privs := False, no_warnings := False,
       enable_unshare := False, rootless := False, mount_host_runtime := False,
       command := [], env_list := [], extra_mountpoint := [], extra_ro_mountpoint := [],
       cross_arch := None, qemu_path := None, ns_pid := ruri_init_value, use_rurienv := True,
       ro_root := False, cpuset := None, memory := None, work_dir := None, just_chroot := False,
       rootfs_source := None, unmask_dirs := False, user := None, hostname := None,
       cpupercent := ruri_init_value, use_kvm := False, char_devs := [], hidepid := ruri_init_value,
       timens_realtime_offset := 0, timens_monotonic_offset := 0, seccomp_denied_syscall := [],
       oom_score_adj := 0, container_id := now mod 86400, masked_path := [],
       enable_tty_signals := False, skip_setgroups := False, first_init := True,
       systemd_mode := False, pid_file := None, auto_umount := False,
       auto_umount_on_panic := False, is_health_check := False, timeout := -1000000000,
       enable_seccomp_whitelist := False, fork_as_init := False\<rparr>) }"

section \<open>Items of a configuration file\<close>

text \<open>The generator calls of config.c and rurienv.c, typed as the code types them.\<close>

datatype config_item =
  Plain k2v3_item
| Bool_item string bool
| Int_item string int
| Long_item string int

fun config_item_text :: "config_item \<Rightarrow> string" where
  "config_item_text (Plain it) = item_text it"
| "config_item_text (Bool_item k b) = bool_to_k2v3 k b"
| "config_item_text (Int_item k i) = int_to_k2v3 k i"
| "config_item_text (Long_item k i) = long_to_k2v3 k i"

definition show_bool :: "bool \<Rightarrow> string" where
  "show_bool b = (if b then ''true'' else ''false'')"

fun item_of :: "config_item \<Rightarrow> k2v3_item" where
  "item_of (Plain it) = it"
| "item_of (Bool_item k b) = Scalar_item k (Some (show_bool b))"
| "item_of (Int_item k i) = Scalar_item k (Some (show_int i))"
| "item_of (Long_item k i) = Scalar_item k (Some (show_int i))"

lemma config_item_text_item_of: "config_item_text it = item_text (item_of it)"
  by (cases it) (simp_all add: bool_to_k2v3_def int_to_k2v3_def long_to_k2v3_def char_to_k2v3_def
      text_of_def show_bool_def)

text \<open>One generator call, appended to the text so far.\<close>

fun add_item :: "string \<Rightarrow> config_item \<Rightarrow> string" where
  "add_item ret (Plain (Comment_item c)) = k2v3_add_comment (Some ret) c"
| "add_item ret (Plain Newline_item) = k2v3_add_newline (Some ret)"
| "add_item ret (Plain (Scalar_item k v)) = k2v3_add_config (Some ret) (char_to_k2v3 k v)"
| "add_item ret (Plain (Array_item k vs)) = k2v3_add_config (Some ret) (char_array_to_k2v3 k vs)"
| "add_item ret (Bool_item k b) = k2v3_add_config (Some ret) (bool_to_k2v3 k b)"
| "add_item ret (Int_item k i) = k2v3_add_config (Some ret) (int_to_k2v3 k i)"
| "add_item ret (Long_item k i) = k2v3_add_config (Some ret) (long_to_k2v3 k i)"

lemma add_item_append: "add_item ret it = ret @ config_item_text it"
  by (cases it rule: config_item_text.cases; (cases "item_of it")?)
     (auto simp: k2v3_add_comment_def k2v3_add_newline_def k2v3_add_config_def text_of_def
       elim!: item_text.elims)

lemma foldl_add_item: "foldl add_item ret its = ret @ config_text (map item_of its)"
  by (induction its arbitrary: ret) (simp_all add: add_item_append config_item_text_item_of)

section \<open>What a reader finds in the text of a list of items\<close>

fun item_keys :: "k2v3_item \<Rightarrow> string list" where
  "item_keys (Scalar_item k v) = [k]"
| "item_keys (Array_item k vs) = [k]"
| "item_keys (Comment_item c) = []"
| "item_keys Newline_item = []"

definition keys_of :: "config_item list \<Rightarrow> string list" where
  "keys_of its = concat (map (item_keys \<circ> item_of) its)"

definition cache_of :: "config_item list \<Rightarrow> k2v3_cache" where
  "cache_of its = map correct_node (config_nodes (map item_of its))"

lemma item_nodes_keys: "map b_key (item_nodes it) = item_keys it"
  by (cases it) auto

lemma keys_of_nodes: "map b_key (config_nodes (map item_of its)) = keys_of its"
  by (induction its) (simp_all add: keys_of_def item_nodes_keys)

lemma cache_of_keys: "map b_key (cache_of its) = keys_of its"
  by (simp add: cache_of_def comp_def flip: keys_of_nodes)

lemma have_key_iff: "k2v3_have_key cache k K2V3_ANY = 0 \<longleftrightarrow> k \<in> set (map b_key cache)"
  by (induction cache) auto

definition plain_text :: "string \<Rightarrow> bool" where
  "plain_text s = (set s \<inter> {dquote, backslash, newline, CHR '']'', nul} = {})"

lemma plain_text_ok:
  assumes "plain_text s"
  shows "quotable {dquote} False s" "quotable {dquote, CHR '']''} False s" "newline \<notin> set s"
    "correct_backslash s = s" "nul \<notin> set s"
  using assms by (auto simp: plain_text_def intro!: quotable_plain correct_backslash_plain)

lemma show_int_chars: "c \<in> set (show_int i) \<Longrightarrow> is_digit c \<or> c = CHR ''-''"
  using show_nat_digits by (auto simp: show_int_def split: if_splits)

lemma show_int_plain [simp]: "plain_text (show_int i)" "show_int i \<noteq> []"
proof -
  show "plain_text (show_int i)"
    using show_int_chars[of _ i] is_digit_not by (fastforce simp: plain_text_def)
qed (simp add: show_int_def)

lemma show_bool_plain [simp]: "plain_text (show_bool b)" "show_bool b \<noteq> []"
  by (simp_all add: show_bool_def plain_text_def)

definition opt_plain :: "string option \<Rightarrow> bool" where
  "opt_plain v = (case v of None \<Rightarrow> True | Some s \<Rightarrow> s \<noteq> [] \<and> plain_text s)"

definition list_plain :: "string list \<Rightarrow> bool" where
  "list_plain vs = (\<forall>v \<in> set vs. v \<noteq> [] \<and> plain_text v)"

fun config_item_ok :: "config_item \<Rightarrow> bool" where
  "config_item_ok (Plain (Scalar_item k v)) = (valid_key k \<and> opt_plain v)"
| "config_item_ok (Plain (Array_item k vs)) = (valid_key k \<and> list_plain vs)"
| "config_item_ok (Plain (Comment_item c)) = (newline \<notin> set c \<and> nul \<notin> set c)"
| "config_item_ok (Plain Newline_item) = True"
| "config_item_ok (Bool_item k b) = valid_key k"
| "config_item_ok (Int_item k i) = valid_key k"
| "config_item_ok (Long_item k i) = valid_key k"

lemma config_item_ok_item: "config_item_ok it \<Longrightarrow> item_ok (item_of it)"
  by (cases it rule: config_item_ok.cases)
     (auto simp: opt_plain_def list_plain_def elem_ok_def plain_text_ok split: option.splits)

lemma find_config_item:
  assumes "distinct (keys_of its)" "it \<in> set its" "b \<in> set (item_nodes (item_of it))"
  shows "cache_find (cache_of its) (b_key b) = Some (correct_node b)"
  unfolding cache_of_def by (rule find_item) (use assms keys_of_nodes[of its] in auto)

lemma find_scalar_node:
  assumes "distinct (keys_of its)" "it \<in> set its" "item_of it = Scalar_item k (Some s)" "s \<noteq> []"
    "plain_text s"
  shows "cache_find (cache_of its) k = Some \<lparr>b_type = K2V3_SCALAR, b_key = k, b_scalar = Some s,
    b_array = None, b_empty = False\<rparr>"
  using find_config_item[OF assms(1,2), of "hd (item_nodes (item_of it))"] assms(3-)
  by (simp add: text_of_def correct_node_def plain_text_ok)

lemma get_bool_item: "distinct (keys_of its) \<Longrightarrow> Bool_item k b \<in> set its \<Longrightarrow> k2v3_get_bool stop k (cache_of its) = Inr b"
  using find_scalar_node[of its "Bool_item k b"]
  by (simp add: k2v3_get_bool_def get_key_cache_find scalar_of_def) (simp add: show_bool_def)

lemma get_int_item:
  "distinct (keys_of its) \<Longrightarrow> Int_item k i \<in> set its \<Longrightarrow> int_range i \<Longrightarrow> k2v3_get_int stop k (cache_of its) = Inr i"
  using find_scalar_node[of its "Int_item k i"]
  by (auto simp: k2v3_get_int_def k2v3_lookup_def get_key_cache_find scalar_of_def strtol_end_show_int
      strtol_show_int int_range_def)

lemma get_long_item:
  "distinct (keys_of its) \<Longrightarrow> Long_item k i \<in> set its \<Longrightarrow> - (2 ^ 63) \<le> i \<Longrightarrow> i < 2 ^ 63 \<Longrightarrow>
   k2v3_get_long stop k (cache_of its) = Inr i"
  using find_scalar_node[of its "Long_item k i"]
  by (simp add: k2v3_get_long_def k2v3_lookup_def get_key_cache_find scalar_of_def strtol_end_show_int
      strtol_show_int)

lemma get_plain_char_item:
  assumes "distinct (keys_of its)" "Plain (Scalar_item k v) \<in> set its" "opt_plain v"
  shows "k2v3_get_char stop k (cache_of its) = Inr v"
proof (cases v)
  case None
  then show ?thesis
    using find_config_item[OF assms(1,2), of "hd (item_nodes (Scalar_item k v))"]
    by (simp add: k2v3_get_char_def k2v3_lookup_def get_key_cache_find text_of_def)
next
  case (Some s)
  then show ?thesis
    using find_scalar_node[OF assms(1,2), of k s] assms(3)
    by (simp add: opt_plain_def k2v3_get_char_def k2v3_lookup_def get_key_cache_find scalar_of_def)
qed

lemma get_plain_array_item:
  assumes d: "distinct (keys_of its)" and a: "Plain (Array_item k vs) \<in> set its" "list_plain vs" "length vs \<le> limit"
  shows "k2v3_get_char_array stop k (cache_of its) limit = Inr vs"
proof -
  have m: "Array_item k vs \<in> set (map item_of its)" using a(1) by force
  have e: "map correct_backslash vs = vs"
    using a(2) plain_text_ok(4) by (simp add: list_plain_def map_idI)
  have "distinct (map b_key (config_nodes (map item_of its)))" using d by (simp only: keys_of_nodes)
  from get_char_array_item[OF this m a(3)] show ?thesis unfolding cache_of_def e .
qed

lemma parse_items:
  assumes "distinct (keys_of its)" "\<forall>it \<in> set its. config_item_ok it"
  shows "parse_loop stop [] [] (config_text (map item_of its)) = Parsed (config_nodes (map item_of its)) []"
proof -
  have "distinct (map b_key ([] @ config_nodes (map item_of its)))"
    using assms(1) by (simp only: append_Nil keys_of_nodes)
  moreover have "\<forall>it \<in> set (map item_of its). item_ok it" using assms(2) config_item_ok_item by auto
  ultimately show ?thesis using parse_loop_items[of "map item_of its" "[]" stop "[]"]
    by (simp only: append_Nil)
qed

text \<open>Texts of good items hold no NUL, and a bound for their length.\<close>

lemma quoted_elems_chars: "c \<in> set (quoted_elems vs) \<Longrightarrow> c = dquote \<or> c = CHR '','' \<or> (\<exists>v \<in> set vs. c \<in> set v)"
  by (induction vs rule: quoted_elems.induct) auto

lemma valid_key_nul: "valid_key k \<Longrightarrow> nul \<notin> set k"
  by (auto simp: valid_key_def key_char_def Let_def)

lemma config_item_nul:
  assumes "config_item_ok it"
  shows "nul \<notin> set (item_text (item_of it))"
proof -
  have a: "list_plain vs \<Longrightarrow> nul \<notin> set (quoted_elems vs)" for vs
    using quoted_elems_chars[of nul vs] by (auto simp: list_plain_def plain_text_def)
  have i: "nul \<notin> set (show_int i)" for i using plain_text_ok(5)[OF show_int_plain(1)] .
  show ?thesis using assms a i
    by (cases it rule: config_item_ok.cases)
       (auto simp: char_to_k2v3_def char_array_to_k2v3_def array_to_k2v3_def k2v3_add_comment_def
         k2v3_add_newline_def text_of_def opt_plain_def plain_text_ok show_bool_def dest!: valid_key_nul
         split: option.splits if_splits)
qed

lemma config_text_nul:
  "\<forall>it \<in> set its. config_item_ok it \<Longrightarrow> nul \<notin> set (config_text (map item_of its))"
  using config_item_nul by auto

fun item_len :: "config_item \<Rightarrow> nat" where
  "item_len (Plain (Scalar_item k v)) = length k + length (text_of v) + 4"
| "item_len (Plain (Array_item k vs)) = length k + char_array_size_loop vs + 4"
| "item_len (Plain (Comment_item s)) = length s + 3"
| "item_len (Plain Newline_item) = 1"
| "item_len (Bool_item k b) = length k + 9"
| "item_len (Int_item k i) = length k + length (show_int i) + 4"
| "item_len (Long_item k i) = length k + length (show_int i) + 4"

lemma item_len_bound: "length (item_text (item_of it)) \<le> item_len it"
proof -
  have "length (quoted_elems xs) = char_array_size_loop xs" for xs
    by (induction xs rule: quoted_elems.induct) auto
  then show ?thesis
    by (cases it rule: item_len.cases)
       (simp_all add: char_to_k2v3_def char_array_to_k2v3_def array_to_k2v3_def k2v3_add_comment_def
         k2v3_add_newline_def text_of_def show_bool_def)
qed

lemma config_text_len: "length (config_text (map item_of its)) \<le> sum_list (map item_len its)"
  using item_len_bound by (induction its) (auto intro: add_mono)

end
