(* ===== verification/Config.thy ===== *)
theory Config
  imports Container
begin

text \<open>
  Configuration files (config.c): the text ruri_container_info_to_k2v writes for a
  container and ruri_read_config, which sets a container from such a text.

  Every generator call of the code is an item, in the code's order; the comments
  of a key and the blank line after it form an entry.  Reading is a chain of
  steps, one per statement of the code.  libcap's cap_to_name and cap_from_name
  are arguments; readlink's result on /proc/self/exe is one too.
\<close>

section \<open>Writing\<close>

definition entry :: "string list \<Rightarrow> config_item list \<Rightarrow> config_item list" where
  "entry comments its = map (\<lambda>s. Plain (Comment_item s)) comments @ its @ [Plain Newline_item]"

definition entry_open :: "string list \<Rightarrow> config_item list \<Rightarrow> config_item list" where
  "entry_open comments its = map (\<lambda>s. Plain (Comment_item s)) comments @ its"

definition cap_text :: "(int \<Rightarrow> string option) \<Rightarrow> int \<Rightarrow> string" where
  "cap_text cap_to_name cap = (case cap_to_name cap of None \<Rightarrow> show_int cap | Some n \<Rightarrow> n)"

text \<open>The items of ruri_container_info_to_k2v, in four parts.\<close>

definition items_basic :: "(int \<Rightarrow> string option) \<Rightarrow> ruri_container \<Rightarrow> config_item list" where
  "items_basic cap_to_name c =
     entry [''The CONTAINER_DIR.'',
       ''Should be an absolute path on host.'',
       ''This can not be empty.'']
       [Plain (Scalar_item ''container_dir'' (container_dir c))] @
     entry [''The user to run command in the container.'',
       ''Use username or uid is both valid.'',
       ''Default is root, set it to empty to use default.'']
       [Plain (Scalar_item ''user'' (user c))] @
     entry [''The capability to drop.'',
       ''Format: '' @ [dquote] @ ''capname1'' @ [dquote] @ '','' @ [dquote] @ ''capname2'' @ [dquote] @ ''.'',
       ''For example, ['' @ [dquote] @ ''cap_sys_admin'' @ [dquote] @ '','' @ [dquote] @ ''cap_sys_chroot'' @ [dquote] @ ''] is valid.'']
       [Plain (Array_item ''drop_caplist'' (map (cap_text cap_to_name) (caps_of (drop_caplist c))))] @
     entry [''Set NO_NEW_PRIVS bit.'',
       ''Default is false.'']
       [Bool_item ''no_new_privs'' (no_new_privs c)] @
     entry [''Enable unshare feature.'',
       ''Default is false.'']
       [Bool_item ''enable_unshare'' (enable_unshare c)] @
     entry [''Run rootless container.'',
       ''Need user ns support.'',
       ''Default is false.'']
       [Bool_item ''rootless'' (rootless c)] @
     entry [''Disable warnings.'',
       ''Default is false.'']
       [Bool_item ''no_warnings'' (no_warnings c)] @
     entry [''The arch for running cross-arch container.'',
       ''For example, x86_64.'',
       ''Should also set qemu_path.'',
       ''Set it to empty to disable.'']
       [Plain (Scalar_item ''cross_arch'' (cross_arch c))]"

definition items_runtime :: "ruri_container \<Rightarrow> config_item list" where
  "items_runtime c =
     entry [''The path of qemu-user static binary.'',
       ''For example, /usr/bin/qemu-x86_64-static.'',
       ''Should also set cross_arch.'',
       ''Set it to empty to disable.'']
       [Plain (Scalar_item ''qemu_path'' (qemu_path c))] @
     entry [''Enable using .rurienv file.'',
       ''Default is true.'']
       [Bool_item ''use_rurienv'' (use_rurienv c)] @
     entry [''Enable built-in blacklist seccomp profile.'',
       ''Default is false.'']
       [Bool_item ''enable_seccomp'' (enable_default_seccomp c)] @
     entry [''Enable built-in whitelist seccomp profile.'',
       ''This will cover enable_seccomp.'',
       ''Default is false.'']
       [Bool_item ''enable_seccomp_whitelist'' (enable_seccomp_whitelist c)] @
     entry [''Hide pid in /proc.'',
       ''Can be 1 or 2, set <=0 to use default.'']
       [Int_item ''hidepid'' (hidepid c)] @
     entry [''Cgroup cpuset limit.'',
       ''For example, 0-2 or 0 is valid.'',
       ''Set it to empty to disable.'']
       [Plain (Scalar_item ''cpuset'' (cpuset c))] @
     entry [''Cgroup cpu limit.'',
       ''The value is in percentage, set it <=0 to disable.'']
       [Int_item ''cpupercent'' (cpupercent c)] @
     entry [''Cgroup memory limit.'',
       ''For example, 1G or 1024M is valid.'',
       ''Set it to empty to disable.'']
       [Plain (Scalar_item ''memory'' (memory c))] @
     entry [''Just chroot, do not create runtime dirs.'',
       ''Default is false.'']
       [Bool_item ''just_chroot'' (just_chroot c)] @
     entry [''Unmask dirs in /proc and /sys.'',
       ''Default is false.'']
       [Bool_item ''unmask_dirs'' (unmask_dirs c)] @
     entry [''Mount runtime dirs from the host.'',
       ''Default is false.'']
       [Bool_item ''mount_host_runtime'' (mount_host_runtime c)] @
     entry [''Work directory.'',
       ''Should be an absolute path in the container.'',
       ''Default is / , set it to empty to use default.'']
       [Plain (Scalar_item ''work_dir'' (work_dir c))] @
     entry [''Rootfs source, will be mount to / as first mountpoint.'',
       ''Should be an absolute path in the host.'',
       ''/path/to/rootfs.img or /dev/sda1 is valid.'',
       ''Set it to empty to use container_dir as default.'']
       [Plain (Scalar_item ''rootfs_source'' (rootfs_source c))] @
     entry [''Make / read-only.'',
       ''Default is false.'']
       [Bool_item ''ro_root'' (ro_root c)] @
     entry [''Disable network.'',
       ''This also need enable_unshare to be true.'',
       ''Default is false.'']
       [Bool_item ''no_network'' (no_network c)] @
     entry_open [''Use kvm'',
       ''Default is false.'']
       [Bool_item ''use_kvm'' (use_kvm c)] @
     entry [''OOM score.'',
       ''Default is 0.'',
       ''Set it to 0 to disable.'']
       [Int_item ''oom_score_adj'' (oom_score_adj c)]"

definition items_arrays :: "ruri_container \<Rightarrow> config_item list" where
  "items_arrays c =
     entry [''Extra mountpoint.'',
       ''Format: '' @ [dquote] @ ''source'' @ [dquote] @ '','' @ [dquote] @ ''target'' @ [dquote] @ ''.'',
       ''For example, ['' @ [dquote] @ ''/tmp'' @ [dquote] @ '','' @ [dquote] @ ''/tmp'' @ [dquote] @ '','' @ [dquote] @ ''/var'' @ [dquote] @ '','' @ [dquote] @ ''/var'' @ [dquote] @ ''] is valid.'',
       ''Set it to empty to disable.'']
       [Plain (Array_item ''extra_mountpoint'' (extra_mountpoint c))] @
     entry [''Extra read-only mountpoint.'',
       ''Format: '' @ [dquote] @ ''source'' @ [dquote] @ '','' @ [dquote] @ ''target'' @ [dquote] @ ''.'',
       ''For example, ['' @ [dquote] @ ''/tmp'' @ [dquote] @ '','' @ [dquote] @ ''/tmp'' @ [dquote] @ '','' @ [dquote] @ ''/var'' @ [dquote] @ '','' @ [dquote] @ ''/var'' @ [dquote] @ ''] is valid.'',
       ''Set it to empty to disable.'']
       [Plain (Array_item ''extra_ro_mountpoint'' (extra_ro_mountpoint c))] @
     entry [''Environment variable.'',
       ''Format: '' @ [dquote] @ ''key'' @ [dquote] @ '','' @ [dquote] @ ''value'' @ [dquote] @ ''.'',
       ''For example, ['' @ [dquote] @ ''key1'' @ [dquote] @ '','' @ [dquote] @ ''value1'' @ [dquote] @ '','' @ [dquote] @ ''key2'' @ [dquote] @ '','' @ [dquote] @ ''value2'' @ [dquote] @ ''] is valid.'',
       ''Set it to empty to disable.'']
       [Plain (Array_item ''env'' (env_list c))] @
     entry [''Extra char devices.'',
       ''Format: '' @ [dquote] @ ''device'' @ [dquote] @ '','' @ [dquote] @ ''major'' @ [dquote] @ '','' @ [dquote] @ ''minor'' @ [dquote] @ ''.'',
       ''For example, ['' @ [dquote] @ ''kvm'' @ [dquote] @ '','' @ [dquote] @ ''10'' @ [dquote] @ '','' @ [dquote] @ ''232'' @ [dquote] @ ''] is valid.'',
       ''Set it to empty to disable.'']
       [Plain (Array_item ''char_devs'' (char_devs c))] @
     entry [''Default command to run.'',
       ''For example, ['' @ [dquote] @ ''/bin/sh'' @ [dquote] @ '','' @ [dquote] @ ''-c'' @ [dquote] @ '','' @ [dquote] @ ''echo hello'' @ [dquote] @ ''] is valid.'',
       ''Set it to empty to use default (/bin/su - or /bin/sh).'']
       [Plain (Array_item ''command'' (command c))] @
     entry [''The hostname of the container.'',
       ''This is only for unshare container.'',
       ''Set it to empty to disable it.'']
       [Plain (Scalar_item ''hostname'' (hostname c))] @
     entry [''Time offset for timens.'',
       ''Default is 0.'',
       ''Need unshare enabled.'']
       [Long_item ''timens_monotonic_offset'' (timens_monotonic_offset c), Long_item ''timens_realtime_offset'' (timens_realtime_offset c)]"

definition items_late :: "ruri_container \<Rightarrow> config_item list" where
  "items_late c =
     entry [''Denied syscalls, use seccomp.'',
       ''For example, ['' @ [dquote] @ ''syscall1'' @ [dquote] @ '','' @ [dquote] @ ''syscall2'' @ [dquote] @ ''] is valid.'',
       ''Set it to empty to disable.'']
       [Plain (Array_item ''deny_syscall'' (seccomp_denied_syscall c))] @
     entry [''Masked path, will be masked with ro tmpfs or /dev/null.'',
       ''Format: '' @ [dquote] @ ''path'' @ [dquote] @ ''.'',
       ''For example, ['' @ [dquote] @ ''/sys/class'' @ [dquote] @ '','' @ [dquote] @ ''/etc/ssl'' @ [dquote] @ ''] is valid.'',
       ''Set it to empty to disable.'']
       [Plain (Array_item ''masked_path'' (masked_path c))] @
     entry [''Enable TTY signals in the container.'']
       [Bool_item ''enable_tty_signals'' (enable_tty_signals c)] @
     entry [''Skip setgroups() call.'']
       [Bool_item ''skip_setgroups'' (skip_setgroups c)] @
     entry [''Enable systemd mode.'',
       ''Also enables unshare.'',
       ''Default is false.'']
       [Bool_item ''systemd_mode'' (systemd_mode c)]"

definition container_items :: "(int \<Rightarrow> string option) \<Rightarrow> ruri_container \<Rightarrow> config_item list" where
  "container_items cap_to_name c =
     items_basic cap_to_name c @ items_runtime c @ items_arrays c @ items_late c"

text \<open>pmcrts compares the end of its first argument with the second; only its
  being zero is used.\<close>

definition pmcrts_zero :: "string \<Rightarrow> string \<Rightarrow> bool" where
  "pmcrts_zero s1 s2 =
     (if length s1 < length s2 then False else drop (length s1 - length s2) s1 = s2)"

definition shebang :: "string option \<Rightarrow> string" where
  "shebang exe =
     (let path = (case exe of None \<Rightarrow> ''/usr/bin/ruri''
                  | Some p \<Rightarrow> if p = [] then ''/usr/bin/ruri'' else p)
      in if pmcrts_zero path ''rurima'' then ''#!'' @ path @ '' ruri -c'' @ [newline, newline]
         else ''#!'' @ path @ '' -c'' @ [newline, newline])"

definition ruri_container_info_to_k2v ::
    "string option \<Rightarrow> (int \<Rightarrow> string option) \<Rightarrow> ruri_container \<Rightarrow> string" where
  "ruri_container_info_to_k2v exe cap_to_name c =
     foldl add_item (shebang exe) (container_items cap_to_name c)"

section \<open>Reading\<close>

definition config_keys :: "string list" where
  "config_keys = [''timens_realtime_offset'', ''timens_monotonic_offset'', ''hidepid'', ''char_devs'',
     ''use_kvm'', ''no_network'', ''container_dir'', ''user'', ''drop_caplist'', ''no_new_privs'',
     ''enable_seccomp'', ''rootless'', ''no_warnings'', ''cross_arch'', ''qemu_path'', ''use_rurienv'',
     ''cpuset'', ''memory'', ''cpupercent'', ''just_chroot'', ''unmask_dirs'', ''mount_host_runtime'',
     ''work_dir'', ''rootfs_source'', ''ro_root'', ''extra_mountpoint'', ''extra_ro_mountpoint'', ''env'',
     ''command'', ''hostname'']"

text \<open>The loop over key_list: the first key the cache has not ends the program.\<close>

fun check_keys :: "k2v3_cache \<Rightarrow> string list \<Rightarrow> unit result" where
  "check_keys cache [] = Inr ()"
| "check_keys cache (k # ks) =
     (if k2v3_have_key cache k K2V3_ANY \<noteq> 0
      then Inl (Fatal (''Invalid config file, there is no key:'' @ k))
      else check_keys cache ks)"

definition out_of_bounds :: fault where
  "out_of_bounds = Undefined ''array access out of bounds''"

text \<open>The loop over the strings of drop_caplist: entry i is set and the list
  terminated after it.\<close>

fun read_caps_loop :: "(string \<Rightarrow> int option) \<Rightarrow> nat \<Rightarrow> string list \<Rightarrow> caplist \<Rightarrow> caplist result" where
  "read_caps_loop cap_from_name i [] list = Inr list"
| "read_caps_loop cap_from_name i (s # ss) list =
     (case (if atoi s > 0 then Some (atoi s) else ruri_cap_from_name cap_from_name s) of
        None \<Rightarrow> Inl (Fatal (''Invalid capability:'' @ s))
      | Some cap \<Rightarrow>
          (case arr_set list i cap \<bind> (\<lambda>l. arr_set l (i + 1) ruri_init_value) of
             None \<Rightarrow> Inl out_of_bounds
           | Some list' \<Rightarrow> read_caps_loop cap_from_name (i + 1) ss list'))"

type_synonym config_step = "ruri_container \<Rightarrow> ruri_container result"

definition read_caps :: "(string \<Rightarrow> int option) \<Rightarrow> k2v3_cache \<Rightarrow> config_step" where
  "read_caps cap_from_name cache c =
     res_bind (k2v3_get_char_array True ''drop_caplist'' cache ruri_cap_last_cap)
       (\<lambda>strs. res_bind (read_caps_loop cap_from_name 0 strs (drop_caplist c))
         (\<lambda>l. Inr (c\<lparr>drop_caplist := l\<rparr>)))"

definition read_bool ::
    "k2v3_cache \<Rightarrow> string \<Rightarrow> ((bool \<Rightarrow> bool) \<Rightarrow> ruri_container \<Rightarrow> ruri_container) \<Rightarrow> config_step" where
  "read_bool cache key upd c = res_bind (k2v3_get_bool True key cache) (\<lambda>v. Inr (upd (\<lambda>_. v) c))"

definition read_char ::
    "k2v3_cache \<Rightarrow> string \<Rightarrow> ((string option \<Rightarrow> string option) \<Rightarrow> ruri_container \<Rightarrow> ruri_container)
       \<Rightarrow> config_step" where
  "read_char cache key upd c = res_bind (k2v3_get_char True key cache) (\<lambda>v. Inr (upd (\<lambda>_. v) c))"

definition read_int ::
    "k2v3_cache \<Rightarrow> string \<Rightarrow> ((int \<Rightarrow> int) \<Rightarrow> ruri_container \<Rightarrow> ruri_container) \<Rightarrow> config_step" where
  "read_int cache key upd c = res_bind (k2v3_get_int True key cache) (\<lambda>v. Inr (upd (\<lambda>_. v) c))"

definition read_long ::
    "k2v3_cache \<Rightarrow> string \<Rightarrow> ((int \<Rightarrow> int) \<Rightarrow> ruri_container \<Rightarrow> ruri_container) \<Rightarrow> config_step" where
  "read_long cache key upd c = res_bind (k2v3_get_long True key cache) (\<lambda>v. Inr (upd (\<lambda>_. v) c))"

text \<open>Arrays of strings: the getter fills up to \<open>limit\<close> cells, then the code
  stores \<open>terms\<close> NULL terminators after them, in an array declared with
  \<open>cells\<close> elements; the length must be a multiple of \<open>grp\<close> (1 where the code
  does not check).\<close>

definition read_array ::
    "k2v3_cache \<Rightarrow> string \<Rightarrow> nat \<Rightarrow> nat \<Rightarrow> nat \<Rightarrow> nat \<Rightarrow> string
       \<Rightarrow> ((string list \<Rightarrow> string list) \<Rightarrow> ruri_container \<Rightarrow> ruri_container) \<Rightarrow> config_step" where
  "read_array cache key limit cells terms grp msg upd c =
     res_bind (k2v3_get_char_array True key cache limit)
       (\<lambda>vs. if length vs + terms > cells then Inl out_of_bounds
             else if length vs mod grp \<noteq> 0 then Inl (Fatal msg)
             else Inr (upd (\<lambda>_. vs) c))"

definition read_user :: "k2v3_cache \<Rightarrow> config_step" where
  "read_user cache c = (if user c = None then read_char cache ''user'' user_update c else Inr c)"

definition config_steps :: "(string \<Rightarrow> int option) \<Rightarrow> k2v3_cache \<Rightarrow> config_step list" where
  "config_steps cap_from_name cache =
    [read_caps cap_from_name cache,
     read_bool cache ''no_new_privs'' no_new_privs_update,
     read_bool cache ''enable_seccomp'' enable_default_seccomp_update,
     read_bool cache ''enable_seccomp_whitelist'' enable_seccomp_whitelist_update,
     read_char cache ''container_dir'' container_dir_update,
     read_char cache ''qemu_path'' qemu_path_update,
     read_char cache ''cross_arch'' cross_arch_update,
     read_bool cache ''rootless'' rootless_update,
     read_bool cache ''mount_host_runtime'' mount_host_runtime_update,
     read_bool cache ''ro_root'' ro_root_update,
     read_bool cache ''no_warnings'' no_warnings_update,
     read_bool cache ''use_rurienv'' use_rurienv_update,
     read_char cache ''cpuset'' cpuset_update,
     read_char cache ''memory'' memory_update,
     read_int cache ''cpupercent'' cpupercent_update,
     read_bool cache ''just_chroot'' just_chroot_update,
     read_char cache ''work_dir'' work_dir_update,
     read_char cache ''rootfs_source'' rootfs_source_update,
     read_bool cache ''unmask_dirs'' unmask_dirs_update,
     read_char cache ''hostname'' hostname_update,
     read_bool cache ''no_network'' no_network_update,
     read_bool cache ''use_kvm'' use_kvm_update,
     read_int cache ''hidepid'' hidepid_update,
     read_int cache ''oom_score_adj'' oom_score_adj_update,
     read_bool cache ''skip_setgroups'' skip_setgroups_update,
     read_user cache,
     read_array cache ''env'' ruri_max_envs (ruri_max_envs + 2) 2 2 ''Invalid env format'' env_list_update,
     read_array cache ''extra_mountpoint'' ruri_max_mountpoints (ruri_max_mountpoints + 2) 2 2 ''Invalid extra_mountpoint format''
       extra_mountpoint_update,
     read_array cache ''extra_ro_mountpoint'' ruri_max_mountpoints (ruri_max_mountpoints + 2) 2 2 ''Invalid extra_ro_mountpoint format''
       extra_ro_mountpoint_update,
     read_array cache ''char_devs'' ruri_max_char_devs ruri_max_char_devs 1 3 ''Invalid char_devs format'' char_devs_update,
     read_array cache ''deny_syscall'' ruri_max_seccomp_denied_syscall
       ruri_max_seccomp_denied_syscall 1 1 [] seccomp_denied_syscall_update,
     read_long cache ''timens_realtime_offset'' timens_realtime_offset_update,
     read_long cache ''timens_monotonic_offset'' timens_monotonic_offset_update,
     read_array cache ''masked_path'' ruri_max_mountpoints (ruri_max_mountpoints + 2) 1 1 [] masked_path_update,
     read_bool cache ''enable_tty_signals'' enable_tty_signals_update,
     read_array cache ''command'' ruri_max_commands (ruri_max_commands + 1) 1 1 [] command_update,
     read_bool cache ''systemd_mode'' systemd_mode_update]"

text \<open>ruri_read_config hands the buffer to the parser before it tests it for
  NULL: a file that cannot be opened (or is empty) is undefined behaviour there.\<close>

definition ruri_read_config ::
    "(string \<Rightarrow> int option) \<Rightarrow> ruri_container \<Rightarrow> string option \<Rightarrow> ruri_container result" where
  "ruri_read_config cap_from_name c content =
     res_bind (k2v3_open_file True content 65536)
       (\<lambda>buf. case buf of
          None \<Rightarrow> Inl (Undefined ''strlen of a NULL pointer'')
        | Some text \<Rightarrow>
            res_bind (k2v3_parse True text)
              (\<lambda>(cache, ws). res_bind (check_keys cache config_keys)
                (\<lambda>_. foldl res_bind (Inr c) (config_steps cap_from_name cache))))"

section \<open>Reading back what was written\<close>

lemma entry_simps [simp]:
  "keys_of (entry cs its) = keys_of its" "keys_of (entry_open cs its) = keys_of its"
  "keys_of (its @ its') = keys_of its @ keys_of its'"
  "keys_of (it # its) = item_keys (item_of it) @ keys_of its" "keys_of [] = []"
  by (induction cs) (simp_all add: keys_of_def entry_def entry_open_def)

text \<open>The items that carry a value; the others are comments and blank lines.\<close>

definition value_items :: "config_item list \<Rightarrow> config_item list" where
  "value_items its = filter (\<lambda>it. item_keys (item_of it) \<noteq> []) its"

lemma value_items_simps [simp]:
  "value_items (entry cs its) = value_items its" "value_items (entry_open cs its) = value_items its"
  "value_items (its @ its') = value_items its @ value_items its'"
  "value_items (it # its) = (if item_keys (item_of it) \<noteq> [] then [it] else []) @ value_items its"
  "value_items [] = []"
  by (induction cs) (simp_all add: value_items_def entry_def entry_open_def)

lemma in_value_items: "it \<in> set (value_items its) \<Longrightarrow> it \<in> set its"
  by (simp add: value_items_def)

lemma container_keys: "keys_of (container_items ctn c) = [''container_dir'', ''user'', ''drop_caplist'', ''no_new_privs'', ''enable_unshare'', ''rootless'', ''no_warnings'', ''cross_arch'', ''qemu_path'', ''use_rurienv'', ''enable_seccomp'', ''enable_seccomp_whitelist'', ''hidepid'', ''cpuset'', ''cpupercent'', ''memory'', ''just_chroot'', ''unmask_dirs'', ''mount_host_runtime'', ''work_dir'', ''rootfs_source'', ''ro_root'', ''no_network'', ''use_kvm'', ''oom_score_adj'', ''extra_mountpoint'', ''extra_ro_mountpoint'', ''env'', ''char_devs'', ''command'', ''hostname'', ''timens_monotonic_offset'', ''timens_realtime_offset'', ''deny_syscall'', ''masked_path'', ''enable_tty_signals'', ''skip_setgroups'', ''systemd_mode'']"
  by (simp add: container_items_def items_basic_def items_runtime_def items_arrays_def items_late_def)

lemma container_keys_distinct: "distinct (keys_of (container_items ctn c))"
  unfolding container_keys by code_simp

lemma container_values: "value_items (container_items cap_to_name c) = [
     Plain (Scalar_item ''container_dir'' (container_dir c)),
     Plain (Scalar_item ''user'' (user c)),
     Plain (Array_item ''drop_caplist'' (map (cap_text cap_to_name) (caps_of (drop_caplist c)))),
     Bool_item ''no_new_privs'' (no_new_privs c),
     Bool_item ''enable_unshare'' (enable_unshare c),
     Bool_item ''rootless'' (rootless c),
     Bool_item ''no_warnings'' (no_warnings c),
     Plain (Scalar_item ''cross_arch'' (cross_arch c)),
     Plain (Scalar_item ''qemu_path'' (qemu_path c)),
     Bool_item ''use_rurienv'' (use_rurienv c),
     Bool_item ''enable_seccomp'' (enable_default_seccomp c),
     Bool_item ''enable_seccomp_whitelist'' (enable_seccomp_whitelist c),
     Int_item ''hidepid'' (hidepid c),
     Plain (Scalar_item ''cpuset'' (cpuset c)),
     Int_item ''cpupercent'' (cpupercent c),
     Plain (Scalar_item ''memory'' (memory c)),
     Bool_item ''just_chroot'' (just_chroot c),
     Bool_item ''unmask_dirs'' (unmask_dirs c),
     Bool_item ''mount_host_runtime'' (mount_host_runtime c),
     Plain (Scalar_item ''work_dir'' (work_dir c)),
     Plain (Scalar_item ''rootfs_source'' (rootfs_source c)),
     Bool_item ''ro_root'' (ro_root c),
     Bool_item ''no_network'' (no_network c),
     Bool_item ''use_kvm'' (use_kvm c),
     Int_item ''oom_score_adj'' (oom_score_adj c),
     Plain (Array_item ''extra_mountpoint'' (extra_mountpoint c)),
     Plain (Array_item ''extra_ro_mountpoint'' (extra_ro_mountpoint c)),
     Plain (Array_item ''env'' (env_list c)),
     Plain (Array_item ''char_devs'' (char_devs c)),
     Plain (Array_item ''command'' (command c)),
     Plain (Scalar_item ''hostname'' (hostname c)),
     Long_item ''timens_monotonic_offset'' (timens_monotonic_offset c),
     Long_item ''timens_realtime_offset'' (timens_realtime_offset c),
     Plain (Array_item ''deny_syscall'' (seccomp_denied_syscall c)),
     Plain (Array_item ''masked_path'' (masked_path c)),
     Bool_item ''enable_tty_signals'' (enable_tty_signals c),
     Bool_item ''skip_setgroups'' (skip_setgroups c),
     Bool_item ''systemd_mode'' (systemd_mode c)]"
  by (simp add: container_items_def items_basic_def items_runtime_def items_arrays_def items_late_def)

text \<open>A container whose values fit the reader's limits and need no escaping, and
  capability names libcap maps back.\<close>

definition config_plain :: "ruri_container \<Rightarrow> bool" where
  "config_plain c =
    (opt_plain (container_dir c) \<and>
     opt_plain (user c) \<and>
     opt_plain (cross_arch c) \<and>
     opt_plain (qemu_path c) \<and>
     opt_plain (cpuset c) \<and>
     opt_plain (memory c) \<and>
     opt_plain (work_dir c) \<and>
     opt_plain (rootfs_source c) \<and>
     opt_plain (hostname c) \<and>
     list_plain (extra_mountpoint c) \<and> length (extra_mountpoint c) \<le> ruri_max_mountpoints \<and> length (extra_mountpoint c) mod 2 = 0 \<and>
     list_plain (extra_ro_mountpoint c) \<and> length (extra_ro_mountpoint c) \<le> ruri_max_mountpoints \<and> length (extra_ro_mountpoint c) mod 2 = 0 \<and>
     list_plain (env_list c) \<and> length (env_list c) \<le> ruri_max_envs \<and> length (env_list c) mod 2 = 0 \<and>
     list_plain (char_devs c) \<and> length (char_devs c) \<le> ruri_max_char_devs \<and> length (char_devs c) mod 3 = 0 \<and>
     list_plain (command c) \<and> length (command c) \<le> ruri_max_commands \<and>
     list_plain (seccomp_denied_syscall c) \<and> length (seccomp_denied_syscall c) \<le> ruri_max_seccomp_denied_syscall \<and>
     list_plain (masked_path c) \<and> length (masked_path c) \<le> ruri_max_mountpoints \<and>
     int_range (hidepid c) \<and>
     int_range (cpupercent c) \<and>
     int_range (oom_score_adj c) \<and>
     - (2 ^ 63) \<le> (timens_monotonic_offset c) \<and> (timens_monotonic_offset c) < 2 ^ 63 \<and>
     - (2 ^ 63) \<le> (timens_realtime_offset c) \<and> (timens_realtime_offset c) < 2 ^ 63)"

definition cap_names_ok ::
    "(int \<Rightarrow> string option) \<Rightarrow> (string \<Rightarrow> int option) \<Rightarrow> int list \<Rightarrow> bool" where
  "cap_names_ok cap_to_name cap_from_name caps =
     (\<forall>cap \<in> set caps. case cap_to_name cap of
        None \<Rightarrow> 0 < cap \<and> cap < 2 ^ 31
      | Some n \<Rightarrow> n \<noteq> [] \<and> plain_text n \<and> atoi n \<le> 0 \<and> ruri_cap_from_name cap_from_name n = Some cap)"

lemma cap_texts_plain:
  "cap_names_ok ctn cfn caps \<Longrightarrow> list_plain (map (cap_text ctn) caps)"
  by (fastforce simp: cap_names_ok_def list_plain_def cap_text_def split: option.splits)

lemma read_caps_loop_texts:
  assumes "cap_names_ok ctn cfn caps" "length pre + length caps < length (pre @ rest)"
  shows "\<exists>rest'. read_caps_loop cfn (length pre) (map (cap_text ctn) caps) (pre @ rest)
    = Inr (pre @ caps @ rest') \<and> (caps \<noteq> [] \<longrightarrow> (\<exists>r. rest' = ruri_init_value # r)) \<and>
      length (caps @ rest') = length rest"
  using assms
proof (induction caps arbitrary: pre rest)
  case (Cons cap caps)
  obtain a b r where rest: "rest = a # b # r"
    using Cons.prems(2) by (cases rest; cases "tl rest") auto
  have val: "(if atoi (cap_text ctn cap) > 0 then Some (atoi (cap_text ctn cap))
      else ruri_cap_from_name cfn (cap_text ctn cap)) = Some cap"
  proof (cases "ctn cap")
    case None
    then have "0 < cap" "cap < 2 ^ 31" using Cons.prems(1) by (auto simp: cap_names_ok_def)
    then show ?thesis using None atoi_show_int[of cap] by (simp add: cap_text_def)
  next
    case (Some n)
    then show ?thesis using Cons.prems(1) by (auto simp: cap_names_ok_def cap_text_def)
  qed
  have st: "arr_set (pre @ rest) (length pre) cap \<bind> (\<lambda>l. arr_set l (length pre + 1) ruri_init_value)
      = Some ((pre @ [cap]) @ ruri_init_value # r)"
    by (simp add: rest arr_set_def list_update_append)
  have "cap_names_ok ctn cfn caps" using Cons.prems(1) by (simp add: cap_names_ok_def)
  then obtain rest' where "read_caps_loop cfn (length (pre @ [cap])) (map (cap_text ctn) caps)
      ((pre @ [cap]) @ ruri_init_value # r) = Inr ((pre @ [cap]) @ caps @ rest')"
    "caps \<noteq> [] \<longrightarrow> (\<exists>r. rest' = ruri_init_value # r)"
    "length (caps @ rest') = length (ruri_init_value # r)"
    using Cons.IH[of "pre @ [cap]" "ruri_init_value # r"] Cons.prems(2) rest by auto
  then show ?case using val st rest by (cases caps) auto
qed simp

lemma container_bools:
  assumes "config_plain c"
  shows "k2v3_get_bool True ''no_new_privs'' (cache_of (container_items cap_to_name c)) = Inr (no_new_privs c)"
    and "k2v3_get_bool True ''enable_unshare'' (cache_of (container_items cap_to_name c)) = Inr (enable_unshare c)"
    and "k2v3_get_bool True ''rootless'' (cache_of (container_items cap_to_name c)) = Inr (rootless c)"
    and "k2v3_get_bool True ''no_warnings'' (cache_of (container_items cap_to_name c)) = Inr (no_warnings c)"
    and "k2v3_get_bool True ''use_rurienv'' (cache_of (container_items cap_to_name c)) = Inr (use_rurienv c)"
    and "k2v3_get_bool True ''enable_seccomp'' (cache_of (container_items cap_to_name c)) = Inr (enable_default_seccomp c)"
    and "k2v3_get_bool True ''enable_seccomp_whitelist'' (cache_of (container_items cap_to_name c)) = Inr (enable_seccomp_whitelist c)"
    and "k2v3_get_bool True ''just_chroot'' (cache_of (container_items cap_to_name c)) = Inr (just_chroot c)"
    and "k2v3_get_bool True ''unmask_dirs'' (cache_of (container_items cap_to_name c)) = Inr (unmask_dirs c)"
    and "k2v3_get_bool True ''mount_host_runtime'' (cache_of (container_items cap_to_name c)) = Inr (mount_host_runtime c)"
    and "k2v3_get_bool True ''ro_root'' (cache_of (container_items cap_to_name c)) = Inr (ro_root c)"
    and "k2v3_get_bool True ''no_network'' (cache_of (container_items cap_to_name c)) = Inr (no_network c)"
    and "k2v3_get_bool True ''use_kvm'' (cache_of (container_items cap_to_name c)) = Inr (use_kvm c)"
    and "k2v3_get_bool True ''enable_tty_signals'' (cache_of (container_items cap_to_name c)) = Inr (enable_tty_signals c)"
    and "k2v3_get_bool True ''skip_setgroups'' (cache_of (container_items cap_to_name c)) = Inr (skip_setgroups c)"
    and "k2v3_get_bool True ''systemd_mode'' (cache_of (container_items cap_to_name c)) = Inr (systemd_mode c)"
  by ((rule get_bool_item, rule container_keys_distinct, rule in_value_items, simp add: container_values))+

lemma container_chars:
  assumes "config_plain c"
  shows "k2v3_get_char True ''container_dir'' (cache_of (container_items cap_to_name c)) = Inr (container_dir c)"
    and "k2v3_get_char True ''user'' (cache_of (container_items cap_to_name c)) = Inr (user c)"
    and "k2v3_get_char True ''cross_arch'' (cache_of (container_items cap_to_name c)) = Inr (cross_arch c)"
    and "k2v3_get_char True ''qemu_path'' (cache_of (container_items cap_to_name c)) = Inr (qemu_path c)"
    and "k2v3_get_char True ''cpuset'' (cache_of (container_items cap_to_name c)) = Inr (cpuset c)"
    and "k2v3_get_char True ''memory'' (cache_of (container_items cap_to_name c)) = Inr (memory c)"
    and "k2v3_get_char True ''work_dir'' (cache_of (container_items cap_to_name c)) = Inr (work_dir c)"
    and "k2v3_get_char True ''rootfs_source'' (cache_of (container_items cap_to_name c)) = Inr (rootfs_source c)"
    and "k2v3_get_char True ''hostname'' (cache_of (container_items cap_to_name c)) = Inr (hostname c)"
  by ((rule get_plain_char_item, rule container_keys_distinct, rule in_value_items, simp add: container_values), use assms in \<open>simp add: config_plain_def\<close>)+

lemma container_ints:
  assumes "config_plain c"
  shows "k2v3_get_int True ''hidepid'' (cache_of (container_items cap_to_name c)) = Inr (hidepid c)"
    and "k2v3_get_int True ''cpupercent'' (cache_of (container_items cap_to_name c)) = Inr (cpupercent c)"
    and "k2v3_get_int True ''oom_score_adj'' (cache_of (container_items cap_to_name c)) = Inr (oom_score_adj c)"
  by ((rule get_int_item, rule container_keys_distinct, rule in_value_items, simp add: container_values), use assms in \<open>simp add: config_plain_def\<close>)+

lemma container_longs:
  assumes "config_plain c"
  shows "k2v3_get_long True ''timens_monotonic_offset'' (cache_of (container_items cap_to_name c)) = Inr (timens_monotonic_offset c)"
    and "k2v3_get_long True ''timens_realtime_offset'' (cache_of (container_items cap_to_name c)) = Inr (timens_realtime_offset c)"
  by (rule get_long_item, rule container_keys_distinct, rule in_value_items, simp add: container_values,
      use assms in \<open>simp add: config_plain_def\<close>, use assms in \<open>simp add: config_plain_def\<close>)+

lemma container_arrays:
  assumes "config_plain c"
  shows "k2v3_get_char_array True ''extra_mountpoint'' (cache_of (container_items cap_to_name c)) ruri_max_mountpoints = Inr (extra_mountpoint c)"
    and "k2v3_get_char_array True ''extra_ro_mountpoint'' (cache_of (container_items cap_to_name c)) ruri_max_mountpoints = Inr (extra_ro_mountpoint c)"
    and "k2v3_get_char_array True ''env'' (cache_of (container_items cap_to_name c)) ruri_max_envs = Inr (env_list c)"
    and "k2v3_get_char_array True ''char_devs'' (cache_of (container_items cap_to_name c)) ruri_max_char_devs = Inr (char_devs c)"
    and "k2v3_get_char_array True ''command'' (cache_of (container_items cap_to_name c)) ruri_max_commands = Inr (command c)"
    and "k2v3_get_char_array True ''deny_syscall'' (cache_of (container_items cap_to_name c)) ruri_max_seccomp_denied_syscall = Inr (seccomp_denied_syscall c)"
    and "k2v3_get_char_array True ''masked_path'' (cache_of (container_items cap_to_name c)) ruri_max_mountpoints = Inr (masked_path c)"
  by (rule get_plain_array_item, rule container_keys_distinct, rule in_value_items, simp add: container_values,
      use assms in \<open>simp add: config_plain_def\<close>, use assms in \<open>simp add: config_plain_def\<close>)+


lemma container_items_ok:
  assumes "config_plain c" "cap_names_ok cap_to_name cfn (caps_of (drop_caplist c))"
  shows "\<forall>it \<in> set (container_items cap_to_name c). config_item_ok it"
proof -
  have v: "\<forall>it \<in> set (value_items (container_items cap_to_name c)). config_item_ok it"
    using assms(1) cap_texts_plain[OF assms(2)]
    by (simp add: container_values config_plain_def valid_key_def key_char_def Let_def)
  have "config_item_ok it" if "it \<in> set (container_items cap_to_name c)" "item_keys (item_of it) = []" for it
    using that
    by (simp add: container_items_def items_basic_def items_runtime_def items_arrays_def items_late_def
        entry_def entry_open_def) (elim disjE; simp)
  then show ?thesis using v by (auto simp: value_items_def)
qed

lemma parse_shebang:
  assumes "\<forall>p. exe = Some p \<longrightarrow> newline \<notin> set p"
  shows "parse_loop stop cache ws (shebang exe @ rest) = parse_loop stop cache ws rest"
proof -
  obtain line where l: "shebang exe = CHR ''#'' # line @ newline # [newline]" "newline \<notin> set line"
  proof -
    have "newline \<notin> set (if exe = None \<or> exe = Some [] then ''/usr/bin/ruri'' else the exe)"
      using assms by (cases exe) auto
    then show ?thesis using that by (cases exe) (fastforce simp: shebang_def Let_def split: if_splits)+
  qed
  have "strchr newline (CHR ''#'' # line @ newline # newline # rest) = Some (newline # newline # rest)"
    using strchr_append[of newline "CHR ''#'' # line"] l(2) by simp
  then have "parse_loop stop cache ws (shebang exe @ rest) = parse_loop stop cache ws (newline # rest)"
    unfolding l(1) by (subst parse_loop.simps) simp
  then show ?thesis by (simp add: parse_loop_newline)
qed

lemma parse_container_text:
  assumes "config_plain c" "cap_names_ok cap_to_name cfn (caps_of (drop_caplist c))"
    "\<forall>p. exe = Some p \<longrightarrow> newline \<notin> set p"
  shows "k2v3_parse stop (ruri_container_info_to_k2v exe cap_to_name c)
    = Inr (cache_of (container_items cap_to_name c), [])"
  using parse_items[OF container_keys_distinct container_items_ok[OF assms(1,2)], of stop]
    parse_shebang[OF assms(3)]
  by (simp add: ruri_container_info_to_k2v_def foldl_add_item k2v3_parse_def cache_of_def)

lemma check_keys_all: "set ks \<subseteq> set (map b_key cache) \<Longrightarrow> check_keys cache ks = Inr ()"
  by (induction ks) (simp_all add: have_key_iff)

lemma container_caps_strings:
  assumes "cap_names_ok cap_to_name cfn (caps_of (drop_caplist c))"
    "length (caps_of (drop_caplist c)) \<le> ruri_cap_last_cap"
  shows "k2v3_get_char_array True ''drop_caplist'' (cache_of (container_items cap_to_name c)) ruri_cap_last_cap
    = Inr (map (cap_text cap_to_name) (caps_of (drop_caplist c)))"
  by (rule get_plain_array_item, rule container_keys_distinct, rule in_value_items,
      simp add: container_values, rule cap_texts_plain[OF assms(1)], simp add: assms(2))

text \<open>What reading leaves in place: the list array itself (only its contents are
  restored) and the fields no key stands for.\<close>

definition keeping_runtime :: "ruri_container \<Rightarrow> caplist \<Rightarrow> ruri_container \<Rightarrow> ruri_container" where
  "keeping_runtime c0 l c = c\<lparr>drop_caplist := l, enable_unshare := enable_unshare c0,
     ns_pid := ns_pid c0, container_id := container_id c0, first_init := first_init c0,
     pid_file := pid_file c0, auto_umount := auto_umount c0,
     auto_umount_on_panic := auto_umount_on_panic c0, is_health_check := is_health_check c0,
     timeout := timeout c0, fork_as_init := fork_as_init c0\<rparr>"

lemma config_steps_result:
  assumes plain: "config_plain c" and names: "cap_names_ok cap_to_name cfn (caps_of (drop_caplist c))"
    and len: "length (caps_of (drop_caplist c)) \<le> ruri_cap_last_cap" "caps_of (drop_caplist c) \<noteq> []"
      "ruri_init_value \<notin> set (caps_of (drop_caplist c))"
    and c0: "length (drop_caplist c0) = ruri_cap_last_cap + 1" "user c0 = None"
  shows "\<exists>l. caps_of l = caps_of (drop_caplist c) \<and>
    foldl res_bind (Inr c0) (config_steps cfn (cache_of (container_items cap_to_name c)))
      = (if length (char_devs c) = ruri_max_char_devs
           \<or> length (seccomp_denied_syscall c) = ruri_max_seccomp_denied_syscall
         then Inl out_of_bounds else Inr (keeping_runtime c0 l c))"
proof -
  let ?caps = "caps_of (drop_caplist c)"
  obtain r where r: "read_caps_loop cfn 0 (map (cap_text cap_to_name) ?caps) (drop_caplist c0)
      = Inr (?caps @ ruri_init_value # r)"
    using read_caps_loop_texts[OF names, of "[]" "drop_caplist c0"] len c0(1) by auto
  have m: "length (env_list c) mod 2 = 0" "length (extra_mountpoint c) mod 2 = 0"
    "length (extra_ro_mountpoint c) mod 2 = 0" "length (char_devs c) mod 3 = 0"
    "\<not> length (env_list c) > ruri_max_envs" "\<not> length (extra_mountpoint c) > ruri_max_mountpoints"
    "\<not> length (extra_ro_mountpoint c) > ruri_max_mountpoints"
    "\<not> length (command c) > ruri_max_commands" "\<not> length (masked_path c) > Suc ruri_max_mountpoints"
    using plain by (simp_all add: config_plain_def)
  have n: "length (char_devs c) + 1 > ruri_max_char_devs \<longleftrightarrow> length (char_devs c) = ruri_max_char_devs"
    "length (seccomp_denied_syscall c) + 1 > ruri_max_seccomp_denied_syscall
       \<longleftrightarrow> length (seccomp_denied_syscall c) = ruri_max_seccomp_denied_syscall"
    using plain by (auto simp: config_plain_def)
  have sub: "caps_of (?caps @ ruri_init_value # r) = ?caps" using len(3) by simp
  have "foldl res_bind (Inr c0) (config_steps cfn (cache_of (container_items cap_to_name c)))
      = (if length (char_devs c) = ruri_max_char_devs
           \<or> length (seccomp_denied_syscall c) = ruri_max_seccomp_denied_syscall
         then Inl out_of_bounds else Inr (keeping_runtime c0 (?caps @ ruri_init_value # r) c))"
    by (simp add: config_steps_def read_caps_def container_caps_strings[OF names len(1)] r
         read_bool_def read_char_def read_int_def read_long_def read_array_def read_user_def
         container_bools[OF plain] container_chars[OF plain] container_ints[OF plain]
         container_longs[OF plain] container_arrays[OF plain] m n[simplified] c0(2) keeping_runtime_def)
  then show ?thesis using sub by blast
qed

lemma read_config_text:
  assumes "config_plain c" and "cap_names_ok cap_to_name cap_from_name (caps_of (drop_caplist c))"
    and "\<forall>p. exe = Some p \<longrightarrow> newline \<notin> set p \<and> nul \<notin> set p"
    and "length (ruri_container_info_to_k2v exe cap_to_name c) \<le> 65536"
  shows "ruri_read_config cap_from_name c0 (Some (ruri_container_info_to_k2v exe cap_to_name c))
      = foldl res_bind (Inr c0) (config_steps cap_from_name (cache_of (container_items cap_to_name c)))"
proof -
  obtain body where body: "ruri_container_info_to_k2v exe cap_to_name c = body" by blast
  have "body \<noteq> []"
    by (simp add: body[symmetric] ruri_container_info_to_k2v_def foldl_add_item shebang_def Let_def)
  moreover have "nul \<notin> set body"
    using assms(3) config_text_nul[OF container_items_ok[OF assms(1,2)]]
    by (cases exe) (auto simp: body[symmetric] ruri_container_info_to_k2v_def foldl_add_item shebang_def Let_def)
  then have "takeWhile (\<lambda>c. c \<noteq> nul) body = body"
    using takeWhile_eq_all_conv[of "\<lambda>c. c \<noteq> nul" body] by metis
  ultimately have "k2v3_open_file True (Some body) 65536 = Inr (Some body)"
    using assms(4) body by (simp add: k2v3_open_file_def)
  moreover have "k2v3_parse True body = Inr (cache_of (container_items cap_to_name c), [])"
    using parse_container_text[OF assms(1,2), of exe True] assms(3) body by auto
  moreover have "check_keys (cache_of (container_items cap_to_name c)) config_keys = Inr ()"
    by (rule check_keys_all) (simp add: cache_of_keys container_keys config_keys_def)
  ultimately show ?thesis unfolding body ruri_read_config_def by simp
qed

definition keeps_unshare :: "config_step \<Rightarrow> bool" where
  "keeps_unshare f = (\<forall>d c'. f d = Inr c' \<longrightarrow> enable_unshare c' = enable_unshare d)"

lemma keeps_unshare_reads:
  "(\<And>x d. enable_unshare (upd x d) = enable_unshare d) \<Longrightarrow> keeps_unshare (read_bool cache k upd)"
  "(\<And>x d. enable_unshare (updc x d) = enable_unshare d) \<Longrightarrow> keeps_unshare (read_char cache k updc)"
  "(\<And>x d. enable_unshare (updi x d) = enable_unshare d) \<Longrightarrow> keeps_unshare (read_int cache k updi)"
  "(\<And>x d. enable_unshare (updi x d) = enable_unshare d) \<Longrightarrow> keeps_unshare (read_long cache k updi)"
  "(\<And>x d. enable_unshare (upda x d) = enable_unshare d) \<Longrightarrow>
     keeps_unshare (read_array cache k lim cells terms grp msg upda)"
  "keeps_unshare (read_caps cfn cache)"
  by (auto simp: keeps_unshare_def read_bool_def read_char_def read_int_def read_long_def
      read_array_def read_caps_def res_bind_eq_Inr split: if_splits)

lemma keeps_unshare_user: "keeps_unshare (read_user cache)"
  using keeps_unshare_reads(2)[of user_update cache "''user''"]
  by (auto simp: keeps_unshare_def read_user_def split: if_splits)

lemma keeps_unshare_steps: "\<forall>f \<in> set (config_steps cfn cache). keeps_unshare f"
  by (simp add: config_steps_def keeps_unshare_reads keeps_unshare_user)

lemma foldl_res_bind_Inl: "foldl res_bind (Inl e) fs = Inl e"
  by (induction fs) auto

lemma foldl_keeps_unshare:
  "\<forall>f \<in> set fs. keeps_unshare f \<Longrightarrow> foldl res_bind (Inr d) fs = Inr c' \<Longrightarrow>
   enable_unshare c' = enable_unshare d"
proof (induction fs arbitrary: d)
  case (Cons f fs)
  obtain d' where "f d = Inr d'"
    using Cons.prems(2) by (cases "f d") (auto simp: foldl_res_bind_Inl)
  with Cons show ?case by (auto simp: keeps_unshare_def)
qed simp

section \<open>A sample container\<close>

definition sample_cap_name :: "int \<Rightarrow> string option" where
  "sample_cap_name c = (if c = 21 then Some ''cap_sys_admin'' else None)"
definition sample_cap_value :: "string \<Rightarrow> int option" where
  "sample_cap_value s = (if s = ''cap_sys_admin'' then Some 21 else None)"

definition sample_container :: ruri_container where
  "sample_container = \<lparr>container_dir = Some ''/ct'', drop_caplist = 21 # replicate ruri_cap_last_cap ruri_init_value,
    command = [''/bin/sh''], extra_mountpoint = [], extra_ro_mountpoint = [], env_list = [''HOME'', ''/root''],
    no_new_privs = True, enable_default_seccomp = False, enable_seccomp_whitelist = False, no_warnings = False,
    enable_unshare = True, rootless = False, mount_host_runtime = False, ns_pid = -114, cross_arch = None,
    qemu_path = None, use_rurienv = True, ro_root = False, cpuset = None, memory = Some ''1G'',
    cpupercent = -114, container_id = 7, just_chroot = False, work_dir = None, rootfs_source = None,
    unmask_dirs = False, user = Some ''moe'', hostname = None, no_network = False, use_kvm = False,
    char_devs = [], hidepid = -114, timens_realtime_offset = 0, timens_monotonic_offset = 0,
    seccomp_denied_syscall = [], oom_score_adj = 0, masked_path = [], enable_tty_signals = False,
    skip_setgroups = False, first_init = True, systemd_mode = False, pid_file = None, auto_umount = False,
    auto_umount_on_panic = False, is_health_check = False, timeout = -1000000000, fork_as_init = False\<rparr>"


lemmas sample_simps = entry_def entry_open_def sample_container_def show_int_def show_nat.simps
  text_of_def cap_text_def sample_cap_name_def caps_of_def ruri_init_value_def ruri_cap_last_cap_def

lemma sample_len:
  "sum_list (map item_len (items_basic sample_cap_name (sample_container\<lparr>char_devs := ds\<rparr>))) \<le> 2500"
  "sum_list (map item_len (items_runtime (sample_container\<lparr>char_devs := ds\<rparr>))) \<le> 3500"
  "sum_list (map item_len (items_arrays (sample_container\<lparr>char_devs := ds\<rparr>))) \<le> 3500 + char_array_size_loop ds"
  "sum_list (map item_len (items_late (sample_container\<lparr>char_devs := ds\<rparr>))) \<le> 1500"
  by (simp_all add: items_basic_def items_runtime_def items_arrays_def items_late_def sample_simps)

lemma sample_text_fits:
  assumes "char_array_size_loop ds \<le> 50000"
  shows "length (ruri_container_info_to_k2v None sample_cap_name (sample_container\<lparr>char_devs := ds\<rparr>)) \<le> 65536"
proof -
  have "length (shebang None) \<le> 100" by (simp add: shebang_def pmcrts_zero_def Let_def)
  moreover have "sum_list (map item_len (container_items sample_cap_name (sample_container\<lparr>char_devs := ds\<rparr>)))
      \<le> 61000"
    using sample_len[of ds] assms by (simp add: container_items_def)
  ultimately show ?thesis
    using config_text_len[of "container_items sample_cap_name (sample_container\<lparr>char_devs := ds\<rparr>)"]
    by (simp add: ruri_container_info_to_k2v_def foldl_add_item)
qed

lemma sample_facts:
  "cap_names_ok sample_cap_name sample_cap_value (caps_of (drop_caplist sample_container))"
  "caplist_wf 40 (drop_caplist sample_container)" "caps_of (drop_caplist sample_container) = [21]"
proof -
  show c: "caps_of (drop_caplist sample_container) = [21]"
    by (simp add: sample_container_def caps_of_def ruri_init_value_def ruri_cap_last_cap_def)
  have "atoi ''cap_sys_admin'' \<le> 0" by code_simp
  moreover have "ruri_cap_from_name sample_cap_value ''cap_sys_admin'' = Some 21" by code_simp
  ultimately show "cap_names_ok sample_cap_name sample_cap_value (caps_of (drop_caplist sample_container))"
    by (simp add: c cap_names_ok_def sample_cap_name_def plain_text_def)
  show "caplist_wf 40 (drop_caplist sample_container)"
    unfolding caplist_wf_def c by (simp add: sample_container_def ruri_cap_last_cap_def)
qed

lemma sample_plain:
  "list_plain ds \<Longrightarrow> length ds \<le> ruri_max_char_devs \<Longrightarrow> length ds mod 3 = 0 \<Longrightarrow>
   config_plain (sample_container\<lparr>char_devs := ds\<rparr>)"
  by (simp add: config_plain_def sample_container_def opt_plain_def plain_text_def list_plain_def
      ruri_max_mountpoints_def ruri_max_envs_def ruri_max_commands_def
      ruri_max_seccomp_denied_syscall_def int_range_def)

section \<open>Properties\<close>

text \<open>C7: what ruri writes for a container, ruri_read_config reads back: into a
  freshly initialised container it restores the capabilities to drop and every
  other field a key stands for except enable_unshare, which stays what it was
  (the key is written but never read), when the values need no escaping and fit the
  reader's limits, and libcap maps the names back.\<close>

theorem config_reads_back:
  assumes "config_plain c" and "cap_names_ok cap_to_name cap_from_name (caps_of (drop_caplist c))"
    and "length (char_devs c) < ruri_max_char_devs"
    and "length (seccomp_denied_syscall c) < ruri_max_seccomp_denied_syscall"
    and "caplist_wf lc (drop_caplist c)" "lc < int ruri_cap_last_cap" "caps_of (drop_caplist c) \<noteq> []"
    and "length (drop_caplist c0) = ruri_cap_last_cap + 1" "user c0 = None"
    and "\<forall>p. exe = Some p \<longrightarrow> newline \<notin> set p \<and> nul \<notin> set p"
    and "length (ruri_container_info_to_k2v exe cap_to_name c) \<le> 65536"
  shows "\<exists>l. caps_of l = caps_of (drop_caplist c) \<and>
    ruri_read_config cap_from_name c0 (Some (ruri_container_info_to_k2v exe cap_to_name c))
      = Inr (keeping_runtime c0 l c)"
proof -
  have "length (caps_of (drop_caplist c)) \<le> ruri_cap_last_cap"
    using caplist_wf_length_entries(1)[OF assms(5,6)] .
  moreover have "ruri_init_value \<notin> set (caps_of (drop_caplist c))"
    by (auto simp: caps_of_def dest: set_takeWhileD)
  ultimately show ?thesis
    using config_steps_result[OF assms(1,2) _ assms(7) _ assms(8,9)] assms(3,4)
    unfolding read_config_text[OF assms(1,2,10,11)] by auto
qed

theorem config_reads_back_witness:
  "\<exists>l c'. caps_of l = [21] \<and> ruri_read_config sample_cap_value
      (sample_container\<lparr>user := None, enable_unshare := False, memory := None\<rparr>)
      (Some (ruri_container_info_to_k2v None sample_cap_name (sample_container\<lparr>char_devs := []\<rparr>))) = Inr c'
    \<and> c' = sample_container\<lparr>drop_caplist := l, enable_unshare := False\<rparr>"
proof -
  have e: "sample_container\<lparr>char_devs := []\<rparr> = sample_container" by (simp add: sample_container_def)
  have "\<exists>l. caps_of l = caps_of (drop_caplist sample_container) \<and> ruri_read_config sample_cap_value
      (sample_container\<lparr>user := None, enable_unshare := False, memory := None\<rparr>)
      (Some (ruri_container_info_to_k2v None sample_cap_name sample_container))
      = Inr (keeping_runtime (sample_container\<lparr>user := None, enable_unshare := False, memory := None\<rparr>) l
          sample_container)"
    by (rule config_reads_back[of _ _ _ 40])
       (use sample_facts sample_plain[of "[]"] sample_text_fits[of "[]"] e in
        \<open>simp_all add: list_plain_def ruri_cap_last_cap_def ruri_max_char_devs_def
          ruri_max_seccomp_denied_syscall_def sample_container_def\<close>)
  moreover have "keeping_runtime (sample_container\<lparr>user := None, enable_unshare := False, memory := None\<rparr>) l
      sample_container = sample_container\<lparr>drop_caplist := l, enable_unshare := False\<rparr>" for l
    by (simp add: keeping_runtime_def sample_container_def)
  ultimately show ?thesis using sample_facts(3) e by auto
qed

text \<open>reading a configuration never sets enable_unshare, whatever the file
  holds: a container dumped with unshare enabled comes back without it.\<close>

theorem read_config_ignores_unshare:
  "case ruri_read_config cap_from_name c content of
     Inr c' \<Rightarrow> enable_unshare c' = enable_unshare c | Inl e \<Rightarrow> True"
proof (cases "ruri_read_config cap_from_name c content")
  case (Inr c')
  then obtain cache where "foldl res_bind (Inr c) (config_steps cap_from_name cache) = Inr c'"
    by (auto simp: ruri_read_config_def res_bind_eq_Inr split: option.splits)
  with Inr show ?thesis using foldl_keeps_unshare[OF keeps_unshare_steps] by auto
qed simp

text \<open>C19: the limit given for the device list is the size of its array, so a
  configuration that fills it (384 strings, a multiple of three) makes
  ruri_read_config store the terminating NULL out of bounds.\<close>

theorem full_char_devs_out_of_bounds:
  assumes "config_plain c" and "cap_names_ok cap_to_name cap_from_name (caps_of (drop_caplist c))"
    and "length (char_devs c) = ruri_max_char_devs"
    and "caplist_wf lc (drop_caplist c)" "lc < int ruri_cap_last_cap" "caps_of (drop_caplist c) \<noteq> []"
    and "length (drop_caplist c0) = ruri_cap_last_cap + 1" "user c0 = None"
    and "\<forall>p. exe = Some p \<longrightarrow> newline \<notin> set p \<and> nul \<notin> set p"
    and "length (ruri_container_info_to_k2v exe cap_to_name c) \<le> 65536"
  shows "ruri_read_config cap_from_name c0 (Some (ruri_container_info_to_k2v exe cap_to_name c))
      = Inl out_of_bounds"
proof -
  have "length (caps_of (drop_caplist c)) \<le> ruri_cap_last_cap"
    using caplist_wf_length_entries(1)[OF assms(4,5)] .
  moreover have "ruri_init_value \<notin> set (caps_of (drop_caplist c))"
    by (auto simp: caps_of_def dest: set_takeWhileD)
  ultimately show ?thesis
    using config_steps_result[OF assms(1,2) _ assms(6) _ assms(7,8)] assms(3)
    unfolding read_config_text[OF assms(1,2,9,10)] by auto
qed

theorem full_char_devs_out_of_bounds_witness:
  "ruri_read_config sample_cap_value (sample_container\<lparr>user := None\<rparr>)
      (Some (ruri_container_info_to_k2v None sample_cap_name
        (sample_container\<lparr>char_devs := replicate 384 ''1''\<rparr>))) = Inl out_of_bounds"
proof -
  obtain ds where ds: "replicate 384 ''1'' = ds" by blast
  have l: "char_array_size_loop (replicate n ''1'') \<le> 4 * n" for n by (induction n) auto
  have fits: "char_array_size_loop ds \<le> 50000" using l[of 384] ds by simp
  have p: "list_plain ds" unfolding ds[symmetric] by (simp add: list_plain_def plain_text_def)
  have n: "length ds = 384" unfolding ds[symmetric] by (rule length_replicate)
  have c0: "length (drop_caplist (sample_container\<lparr>user := None\<rparr>)) = ruri_cap_last_cap + 1"
    by (simp add: sample_container_def ruri_cap_last_cap_def)
  show ?thesis unfolding ds
    by (rule full_char_devs_out_of_bounds[of _ _ _ 40])
       (use sample_facts sample_plain[OF p] sample_text_fits[OF fits] n c0 in
        \<open>simp_all add: ruri_cap_last_cap_def ruri_max_char_devs_def\<close>)
qed

end
