(* ===== verification/Rurienv.thy ===== *)
theory Rurienv
  imports Config
begin

text \<open>
  The runtime information of a container, kept in container_dir/.rurienv
  (rurienv.c): the text build_container_info writes, the operations
  ruri_store_info performs on the file, ruri_get_ns_pid, and ruri_read_info.

  What the functions observe of the system is the record \<open>rurienv_env\<close>: the
  content of a file, the target of a symbolic link (readlink), whether a file
  opens for reading, and what ruri_init_config uses.  The system calls on the file
  itself are recorded in order as a list of \<open>file_op\<close>.
\<close>

section \<open>Environment\<close>

record rurienv_env =
  re_kernel :: cap_kernel
  re_now :: int
  re_heap :: ruri_container
  re_content :: "string \<Rightarrow> string option"
  re_readlink :: "string \<Rightarrow> string option"
  re_opens :: "string \<Rightarrow> bool"
  re_cap_from_name :: "string \<Rightarrow> int option"

datatype file_op =
  Umount_detach string
| Open_read string
| Set_immutable bool
| Remove_file string
| Create_trunc string
| Write_text string
| Bind_self string
| Remount_ro string

definition path_max :: nat where "path_max = 4096"

text \<open>The path of the file; snprintf reports a text that does not fit.\<close>

definition rurienv_path :: "string \<Rightarrow> string result" where
  "rurienv_path dir =
     (if length (dir @ ''/.rurienv'') \<ge> path_max then Inl (Fatal ''QwQ? Why we are here?'')
      else Inr (dir @ ''/.rurienv''))"

section \<open>Is the process a container\<close>

definition readlink_text :: "(string \<Rightarrow> string option) \<Rightarrow> string \<Rightarrow> string option" where
  "readlink_text rl p = (case rl p of None \<Rightarrow> None | Some s \<Rightarrow> if s = [] then None else Some s)"

definition is_ruri_pid :: "(string \<Rightarrow> string option) \<Rightarrow> int \<Rightarrow> bool" where
  "is_ruri_pid rl pid =
     (case readlink_text rl (''/proc/'' @ show_int pid @ ''/ns/mnt'') of
        None \<Rightarrow> False
      | Some theirs \<Rightarrow>
          (case readlink_text rl ''/proc/self/ns/mnt'' of
             None \<Rightarrow> False
           | Some ours \<Rightarrow> theirs \<noteq> ours))"

text \<open>\<open>stop\<close> is the parser's flag, which reading a configuration file has set.\<close>

definition ruri_get_ns_pid :: "bool \<Rightarrow> rurienv_env \<Rightarrow> string option \<Rightarrow> int result" where
  "ruri_get_ns_pid stop env dir =
     (case dir of
        None \<Rightarrow> Inl (Undefined ''NULL for a %s conversion'')
      | Some d \<Rightarrow> res_bind (rurienv_path d)
          (\<lambda>path. res_bind (k2v3_open_file stop (re_content env path) 65536)
            (\<lambda>buf. case buf of
               None \<Rightarrow> Inr ruri_init_value
             | Some s \<Rightarrow> res_bind (k2v3_parse stop s)
                 (\<lambda>(cache, ws). res_bind (k2v3_get_int stop ''ns_pid'' cache)
                   (\<lambda>ret. Inr (if ret \<le> 0 then ruri_init_value
                               else if is_ruri_pid (re_readlink env) ret then ret
                               else ruri_init_value))))))"

section \<open>Writing\<close>

definition info_items :: "(int \<Rightarrow> string option) \<Rightarrow> ruri_container \<Rightarrow> config_item list" where
  "info_items cap_to_name c =
     entry_open [''The capability to drop.'']
       [Plain (Array_item ''drop_caplist'' (map (cap_text cap_to_name) (caps_of (drop_caplist c))))] @
     entry_open [''Set NO_NEW_PRIVS bit.''] [Bool_item ''no_new_privs'' (no_new_privs c)] @
     entry_open [''Enable built-in seccomp profile.'']
       [Bool_item ''enable_seccomp'' (enable_default_seccomp c)] @
     entry_open [''Enable built-in whitelist seccomp profile.'', ''This will cover enable_seccomp.'']
       [Bool_item ''enable_seccomp_whitelist'' (enable_seccomp_whitelist c)] @
     entry [''Denied syscalls, use seccomp.'']
       [Plain (Array_item ''deny_syscall'' (seccomp_denied_syscall c))] @
     entry_open [''PID owning unshare namespace.''] [Int_item ''ns_pid'' (ns_pid c)] @
     entry_open [''Container ID.''] [Int_item ''container_id'' (container_id c)] @
     entry_open [''Work directory.''] [Plain (Scalar_item ''work_dir'' (work_dir c))] @
     entry_open [''Do not show warnings.''] [Bool_item ''no_warnings'' (no_warnings c)] @
     entry_open [''Disable network.''] [Bool_item ''no_network'' (no_network c)] @
     entry_open [''Run rootless container.''] [Bool_item ''rootless'' (rootless c)] @
     entry_open [''User to run command in the container.''] [Plain (Scalar_item ''user'' (user c))] @
     entry_open [''OOM score.''] [Int_item ''oom_score_adj'' (oom_score_adj c)] @
     entry_open [''Extra mountpoint.''] [Plain (Array_item ''extra_mountpoint'' (extra_mountpoint c))] @
     entry_open [''Extra read-only mountpoint.'']
       [Plain (Array_item ''extra_ro_mountpoint'' (extra_ro_mountpoint c))] @
     entry [''Environment variable.''] [Plain (Array_item ''env'' (env_list c))] @
     entry_open [''Skip setgroups() call.''] [Bool_item ''skip_setgroups'' (skip_setgroups c)] @
     entry_open [''Systemd mode.''] [Bool_item ''systemd_mode'' (systemd_mode c)]"

definition build_container_info :: "(int \<Rightarrow> string option) \<Rightarrow> ruri_container \<Rightarrow> string" where
  "build_container_info cap_to_name c = foldl add_item [] (info_items cap_to_name c)"

text \<open>The system calls of ruri_store_info.  The code tests the result of the first
  open only; the file may not exist.\<close>

definition ruri_store_info ::
    "(int \<Rightarrow> string option) \<Rightarrow> (string \<Rightarrow> bool) \<Rightarrow> ruri_container \<Rightarrow> file_op list result" where
  "ruri_store_info cap_to_name opens c =
     (case container_dir c of
        None \<Rightarrow> Inl (Undefined ''NULL for a %s conversion'')
      | Some d \<Rightarrow>
          (let path = d @ ''/.rurienv'' in
           if length path \<ge> path_max then Inl (Fatal ''Error: container directory path is too long QwQ'')
           else Inr ([Umount_detach path, Open_read path]
             @ (if opens path then [Set_immutable False, Remove_file path] else [])
             @ [Create_trunc path, Write_text (build_container_info cap_to_name c),
                Set_immutable True, Bind_self path, Remount_ro path])))"

section \<open>Reading\<close>

text \<open>Without a container (umount and ps): the mount points, the process if it
  still runs, and rootless.\<close>

definition read_running :: "rurienv_env \<Rightarrow> k2v3_cache \<Rightarrow> config_step" where
  "read_running env cache c = res_bind (k2v3_get_int True ''ns_pid'' cache)
     (\<lambda>p. if is_ruri_pid (re_readlink env) p
          then res_bind (k2v3_get_int True ''container_id'' cache)
            (\<lambda>i. Inr (c\<lparr>ns_pid := p, container_id := i\<rparr>))
          else Inr (c\<lparr>ns_pid := ruri_init_value, container_id := ruri_init_value\<rparr>))"

definition brief_steps :: "rurienv_env \<Rightarrow> k2v3_cache \<Rightarrow> config_step list" where
  "brief_steps env cache =
    [read_array cache ''extra_mountpoint'' ruri_max_mountpoints (ruri_max_mountpoints + 2) 2 1 []
       extra_mountpoint_update,
     read_array cache ''extra_ro_mountpoint'' ruri_max_mountpoints (ruri_max_mountpoints + 2) 2 1 []
       extra_ro_mountpoint_update,
     read_running env cache,
     read_bool cache ''rootless'' rootless_update]"

text \<open>With a container that joins a running one: the loop over drop_caplist
  terminates the list at its end, also when it is empty.\<close>

fun info_caps_loop :: "(string \<Rightarrow> int option) \<Rightarrow> nat \<Rightarrow> string list \<Rightarrow> caplist \<Rightarrow> caplist result" where
  "info_caps_loop cap_from_name i [] list =
     (case arr_set list i ruri_init_value of None \<Rightarrow> Inl out_of_bounds | Some l \<Rightarrow> Inr l)"
| "info_caps_loop cap_from_name i (s # ss) list =
     (case (if atoi s > 0 then Some (atoi s) else ruri_cap_from_name cap_from_name s) of
        None \<Rightarrow> Inl (Fatal (''Invalid capability:'' @ s))
      | Some cap \<Rightarrow>
          (case arr_set list i cap \<bind> (\<lambda>l. arr_set l (i + 1) ruri_init_value) of
             None \<Rightarrow> Inl out_of_bounds
           | Some list' \<Rightarrow> info_caps_loop cap_from_name (i + 1) ss list'))"

definition info_caps :: "(string \<Rightarrow> int option) \<Rightarrow> k2v3_cache \<Rightarrow> config_step" where
  "info_caps cap_from_name cache c =
     res_bind (k2v3_get_char_array True ''drop_caplist'' cache ruri_cap_last_cap)
       (\<lambda>strs. res_bind (info_caps_loop cap_from_name 0 strs (drop_caplist c))
         (\<lambda>l. Inr (c\<lparr>drop_caplist := l\<rparr>)))"

definition read_work_dir :: "k2v3_cache \<Rightarrow> config_step" where
  "read_work_dir cache c =
     (if work_dir c = None then read_char cache ''work_dir'' work_dir_update c else Inr c)"

definition unset_timens :: "ruri_container \<Rightarrow> ruri_container" where
  "unset_timens c = c\<lparr>timens_realtime_offset := 0, timens_monotonic_offset := 0\<rparr>"

text \<open>Qemu, the cgroup limits and the time offsets are set already.\<close>

definition unset_initial :: "ruri_container \<Rightarrow> ruri_container" where
  "unset_initial c = unset_timens (c\<lparr>qemu_path := None, cross_arch := None, cpuset := None,
     memory := None, cpupercent := ruri_init_value\<rparr>)"

definition full_steps :: "(string \<Rightarrow> int option) \<Rightarrow> k2v3_cache \<Rightarrow> config_step list" where
  "full_steps cap_from_name cache =
    [info_caps cap_from_name cache,
     read_bool cache ''no_new_privs'' no_new_privs_update,
     read_bool cache ''enable_seccomp'' enable_default_seccomp_update,
     read_bool cache ''enable_seccomp_whitelist'' enable_seccomp_whitelist_update,
     read_bool cache ''skip_setgroups'' skip_setgroups_update,
     read_array cache ''deny_syscall'' ruri_max_seccomp_denied_syscall
       ruri_max_seccomp_denied_syscall 1 1 [] seccomp_denied_syscall_update,
     read_int cache ''ns_pid'' ns_pid_update,
     read_int cache ''container_id'' container_id_update,
     read_work_dir cache,
     read_bool cache ''no_warnings'' no_warnings_update,
     read_user cache,
     read_bool cache ''no_network'' no_network_update,
     read_int cache ''oom_score_adj'' oom_score_adj_update,
     read_array cache ''env'' ruri_max_envs (ruri_max_envs + 2) 2 1 [] env_list_update,
     read_bool cache ''systemd_mode'' systemd_mode_update,
     (\<lambda>c. Inr (unset_initial c))]"

text \<open>A rootless container takes the process, the work directory and the user only.\<close>

definition rootless_steps :: "k2v3_cache \<Rightarrow> config_step list" where
  "rootless_steps cache =
    [read_int cache ''ns_pid'' ns_pid_update, read_work_dir cache, read_user cache,
     (\<lambda>c. Inr (unset_timens c))]"

text \<open>The process of the file is gone: the file is removed.\<close>

definition remove_stale :: "rurienv_env \<Rightarrow> string \<Rightarrow> ruri_container \<Rightarrow> file_op list" where
  "remove_stale env path c =
     [Umount_detach path, Open_read path]
     @ (if \<not> re_opens env path \<and> \<not> no_warnings c then []
        else (if re_opens env path then [Set_immutable False] else []) @ [Remove_file path])"

definition run_steps :: "config_step list \<Rightarrow> ruri_container \<Rightarrow> (ruri_container \<times> file_op list) result" where
  "run_steps steps c = res_bind (foldl res_bind (Inr c) steps) (\<lambda>c'. Inr (c', []))"

definition init_or_fail :: "rurienv_env \<Rightarrow> ruri_container result" where
  "init_or_fail env = (case ruri_init_config (re_kernel env) (re_now env) (re_heap env) of
     None \<Rightarrow> Inl out_of_bounds | Some c \<Rightarrow> Inr c)"

definition ruri_read_info ::
    "rurienv_env \<Rightarrow> ruri_container option \<Rightarrow> string \<Rightarrow> (ruri_container \<times> file_op list) result" where
  "ruri_read_info env container dir =
     res_bind (rurienv_path dir)
      (\<lambda>path. res_bind (k2v3_open_file True (re_content env path) 65536)
       (\<lambda>buf. case (buf, container) of
          (None, None) \<Rightarrow> res_bind (init_or_fail env)
            (\<lambda>c. Inr (c\<lparr>extra_mountpoint := [], extra_ro_mountpoint := [], ns_pid := ruri_init_value,
                        rootless := False\<rparr>, []))
        | (None, Some c) \<Rightarrow> Inr (c, [])
        | (Some s, container) \<Rightarrow> res_bind (k2v3_parse True s)
            (\<lambda>(cache, ws). case container of
               None \<Rightarrow> res_bind (init_or_fail env) (run_steps (brief_steps env cache))
             | Some c \<Rightarrow>
                 if enable_unshare c \<or> rootless c
                 then res_bind (k2v3_get_int True ''ns_pid'' cache)
                   (\<lambda>p. if \<not> is_ruri_pid (re_readlink env) p then Inr (c, remove_stale env path c)
                        else if rootless c then run_steps (rootless_steps cache) c
                        else run_steps (full_steps (re_cap_from_name env) cache) c)
                 else run_steps (full_steps (re_cap_from_name env) cache) c)))"

section \<open>What a reader finds\<close>

lemma info_keys: "keys_of (info_items ctn c) = [''drop_caplist'', ''no_new_privs'', ''enable_seccomp'',
    ''enable_seccomp_whitelist'', ''deny_syscall'', ''ns_pid'', ''container_id'', ''work_dir'',
    ''no_warnings'', ''no_network'', ''rootless'', ''user'', ''oom_score_adj'', ''extra_mountpoint'',
    ''extra_ro_mountpoint'', ''env'', ''skip_setgroups'', ''systemd_mode'']"
  by (simp add: info_items_def)

lemma info_keys_distinct: "distinct (keys_of (info_items ctn c))"
  unfolding info_keys by code_simp

lemma info_values: "value_items (info_items ctn c) = [
     Plain (Array_item ''drop_caplist'' (map (cap_text ctn) (caps_of (drop_caplist c)))),
     Bool_item ''no_new_privs'' (no_new_privs c),
     Bool_item ''enable_seccomp'' (enable_default_seccomp c),
     Bool_item ''enable_seccomp_whitelist'' (enable_seccomp_whitelist c),
     Plain (Array_item ''deny_syscall'' (seccomp_denied_syscall c)),
     Int_item ''ns_pid'' (ns_pid c),
     Int_item ''container_id'' (container_id c),
     Plain (Scalar_item ''work_dir'' (work_dir c)),
     Bool_item ''no_warnings'' (no_warnings c),
     Bool_item ''no_network'' (no_network c),
     Bool_item ''rootless'' (rootless c),
     Plain (Scalar_item ''user'' (user c)),
     Int_item ''oom_score_adj'' (oom_score_adj c),
     Plain (Array_item ''extra_mountpoint'' (extra_mountpoint c)),
     Plain (Array_item ''extra_ro_mountpoint'' (extra_ro_mountpoint c)),
     Plain (Array_item ''env'' (env_list c)),
     Bool_item ''skip_setgroups'' (skip_setgroups c),
     Bool_item ''systemd_mode'' (systemd_mode c)]"
  by (simp add: info_items_def)

text \<open>Values that need no escaping and fit the reader's limits.\<close>

definition info_plain :: "ruri_container \<Rightarrow> bool" where
  "info_plain c =
    (opt_plain (work_dir c) \<and> opt_plain (user c) \<and>
     list_plain (seccomp_denied_syscall c) \<and>
     length (seccomp_denied_syscall c) < ruri_max_seccomp_denied_syscall \<and>
     list_plain (env_list c) \<and> length (env_list c) \<le> ruri_max_envs \<and>
     list_plain (extra_mountpoint c) \<and> length (extra_mountpoint c) \<le> ruri_max_mountpoints \<and>
     list_plain (extra_ro_mountpoint c) \<and> length (extra_ro_mountpoint c) \<le> ruri_max_mountpoints \<and>
     int_range (ns_pid c) \<and> int_range (container_id c) \<and> int_range (oom_score_adj c) \<and>
     length (caps_of (drop_caplist c)) \<le> ruri_cap_last_cap)"

abbreviation info_cache :: "(int \<Rightarrow> string option) \<Rightarrow> ruri_container \<Rightarrow> k2v3_cache" where
  "info_cache ctn c \<equiv> cache_of (info_items ctn c)"

lemma info_bools:
  "k2v3_get_bool stop ''no_new_privs'' (info_cache ctn c) = Inr (no_new_privs c)"
  "k2v3_get_bool stop ''enable_seccomp'' (info_cache ctn c) = Inr (enable_default_seccomp c)"
  "k2v3_get_bool stop ''enable_seccomp_whitelist'' (info_cache ctn c) = Inr (enable_seccomp_whitelist c)"
  "k2v3_get_bool stop ''no_warnings'' (info_cache ctn c) = Inr (no_warnings c)"
  "k2v3_get_bool stop ''no_network'' (info_cache ctn c) = Inr (no_network c)"
  "k2v3_get_bool stop ''rootless'' (info_cache ctn c) = Inr (rootless c)"
  "k2v3_get_bool stop ''skip_setgroups'' (info_cache ctn c) = Inr (skip_setgroups c)"
  "k2v3_get_bool stop ''systemd_mode'' (info_cache ctn c) = Inr (systemd_mode c)"
  by ((rule get_bool_item, rule info_keys_distinct, rule in_value_items, simp add: info_values))+

lemma info_ints:
  assumes "info_plain c"
  shows "k2v3_get_int stop ''ns_pid'' (info_cache ctn c) = Inr (ns_pid c)"
    and "k2v3_get_int stop ''container_id'' (info_cache ctn c) = Inr (container_id c)"
    and "k2v3_get_int stop ''oom_score_adj'' (info_cache ctn c) = Inr (oom_score_adj c)"
  by ((rule get_int_item, rule info_keys_distinct, rule in_value_items, simp add: info_values),
      use assms in \<open>simp add: info_plain_def\<close>)+

lemma info_chars:
  assumes "info_plain c"
  shows "k2v3_get_char stop ''work_dir'' (info_cache ctn c) = Inr (work_dir c)"
    and "k2v3_get_char stop ''user'' (info_cache ctn c) = Inr (user c)"
  by ((rule get_plain_char_item, rule info_keys_distinct, rule in_value_items, simp add: info_values),
      use assms in \<open>simp add: info_plain_def\<close>)+

lemma info_arrays:
  assumes "info_plain c"
  shows "k2v3_get_char_array stop ''deny_syscall'' (info_cache ctn c) ruri_max_seccomp_denied_syscall
      = Inr (seccomp_denied_syscall c)"
    and "k2v3_get_char_array stop ''env'' (info_cache ctn c) ruri_max_envs = Inr (env_list c)"
    and "k2v3_get_char_array stop ''extra_mountpoint'' (info_cache ctn c) ruri_max_mountpoints
      = Inr (extra_mountpoint c)"
    and "k2v3_get_char_array stop ''extra_ro_mountpoint'' (info_cache ctn c) ruri_max_mountpoints
      = Inr (extra_ro_mountpoint c)"
  by (rule get_plain_array_item, rule info_keys_distinct, rule in_value_items, simp add: info_values,
      use assms in \<open>simp add: info_plain_def\<close>, use assms in \<open>simp add: info_plain_def\<close>)+

lemma info_caps_strings:
  assumes "info_plain c" "cap_names_ok ctn cfn (caps_of (drop_caplist c))"
  shows "k2v3_get_char_array stop ''drop_caplist'' (info_cache ctn c) ruri_cap_last_cap
    = Inr (map (cap_text ctn) (caps_of (drop_caplist c)))"
  by (rule get_plain_array_item, rule info_keys_distinct, rule in_value_items, simp add: info_values,
      rule cap_texts_plain[OF assms(2)], use assms(1) in \<open>simp add: info_plain_def\<close>)

lemma info_items_ok:
  assumes "info_plain c" "cap_names_ok ctn cfn (caps_of (drop_caplist c))"
  shows "\<forall>it \<in> set (info_items ctn c). config_item_ok it"
proof -
  have "\<forall>it \<in> set (value_items (info_items ctn c)). config_item_ok it"
    using assms(1) cap_texts_plain[OF assms(2)]
    by (simp add: info_values info_plain_def valid_key_def key_char_def Let_def)
  moreover have "config_item_ok it" if "it \<in> set (info_items ctn c)" "item_keys (item_of it) = []" for it
    using that by (simp add: info_items_def entry_def entry_open_def) (elim disjE; simp)
  ultimately show ?thesis by (auto simp: value_items_def)
qed

lemma open_info:
  assumes "info_plain c" "cap_names_ok ctn cfn (caps_of (drop_caplist c))"
    "length (build_container_info ctn c) \<le> 65536"
  shows "k2v3_open_file stop (Some (build_container_info ctn c)) 65536
      = Inr (Some (build_container_info ctn c))"
    and "k2v3_parse stop (build_container_info ctn c) = Inr (info_cache ctn c, [])"
proof -
  have t: "build_container_info ctn c = config_text (map item_of (info_items ctn c))"
    by (simp add: build_container_info_def foldl_add_item)
  have "nul \<notin> set (build_container_info ctn c)"
    using config_text_nul[OF info_items_ok[OF assms(1,2)]] t by simp
  then have "takeWhile (\<lambda>c. c \<noteq> nul) (build_container_info ctn c) = build_container_info ctn c"
    using takeWhile_eq_all_conv[of "\<lambda>c. c \<noteq> nul" "build_container_info ctn c"] by metis
  moreover have "build_container_info ctn c \<noteq> []"
    by (simp add: t info_items_def entry_open_def k2v3_add_comment_def text_of_def)
  ultimately show "k2v3_open_file stop (Some (build_container_info ctn c)) 65536
      = Inr (Some (build_container_info ctn c))"
    using assms(3) by (simp add: k2v3_open_file_def)
  show "k2v3_parse stop (build_container_info ctn c) = Inr (info_cache ctn c, [])"
    using parse_items[OF info_keys_distinct info_items_ok[OF assms(1,2)], of stop]
    by (simp add: t k2v3_parse_def cache_of_def)
qed

text \<open>The loop over the strings differs from that of the configuration reader only
  in the terminator it writes at the end.\<close>

lemma info_caps_loop_read:
  "read_caps_loop cfn i ss list = Inr l \<Longrightarrow> arr_set l (i + length ss) ruri_init_value = Some l' \<Longrightarrow>
   info_caps_loop cfn i ss list = Inr l'"
  by (induction ss arbitrary: i list) (auto split: option.splits if_splits)

lemma info_caps_restore:
  assumes "info_plain c" "cap_names_ok ctn cfn (caps_of (drop_caplist c))"
    "length (drop_caplist c0) = ruri_cap_last_cap + 1"
  shows "\<exists>l. caps_of l = caps_of (drop_caplist c) \<and>
    info_caps cfn (info_cache ctn c) c0 = Inr (c0\<lparr>drop_caplist := l\<rparr>)"
proof -
  let ?caps = "caps_of (drop_caplist c)"
  have len: "length ?caps \<le> ruri_cap_last_cap" using assms(1) by (simp add: info_plain_def)
  have init: "ruri_init_value \<notin> set ?caps" by (auto simp: caps_of_def dest: set_takeWhileD)
  obtain rest where r: "read_caps_loop cfn 0 (map (cap_text ctn) ?caps) (drop_caplist c0)
      = Inr (?caps @ rest)" "length (?caps @ rest) = length (drop_caplist c0)"
    using read_caps_loop_texts[OF assms(2), of "[]" "drop_caplist c0"] len assms(3) by auto
  then obtain x rest' where rest: "rest = x # rest'" using len assms(3) by (cases rest) auto
  have "arr_set (?caps @ rest) (0 + length (map (cap_text ctn) ?caps)) ruri_init_value
      = Some (?caps @ ruri_init_value # rest')" by (simp add: rest arr_set_append)
  from info_caps_loop_read[OF r(1) this] have "info_caps cfn (info_cache ctn c) c0
      = Inr (c0\<lparr>drop_caplist := ?caps @ ruri_init_value # rest'\<rparr>)"
    by (simp add: info_caps_def info_caps_strings[OF assms(1,2)])
  moreover have "caps_of (?caps @ ruri_init_value # rest') = ?caps"
    using init by (simp add: caps_of_def takeWhile_stop)
  ultimately show ?thesis by blast
qed

text \<open>What a container that joins a running one \<open>c\<close> becomes.\<close>

definition joined :: "ruri_container \<Rightarrow> caplist \<Rightarrow> ruri_container \<Rightarrow> ruri_container" where
  "joined c0 l c = unset_initial (c0\<lparr>drop_caplist := l, no_new_privs := no_new_privs c,
     enable_default_seccomp := enable_default_seccomp c,
     enable_seccomp_whitelist := enable_seccomp_whitelist c, skip_setgroups := skip_setgroups c,
     seccomp_denied_syscall := seccomp_denied_syscall c, ns_pid := ns_pid c,
     container_id := container_id c,
     work_dir := (if work_dir c0 = None then work_dir c else work_dir c0),
     no_warnings := no_warnings c, user := (if user c0 = None then user c else user c0),
     no_network := no_network c, oom_score_adj := oom_score_adj c, env_list := env_list c,
     systemd_mode := systemd_mode c\<rparr>)"

lemma full_steps_result:
  assumes "info_plain c" "cap_names_ok ctn cfn (caps_of (drop_caplist c))"
    "length (drop_caplist c0) = ruri_cap_last_cap + 1"
  shows "\<exists>l. caps_of l = caps_of (drop_caplist c) \<and>
    foldl res_bind (Inr c0) (full_steps cfn (info_cache ctn c)) = Inr (joined c0 l c)"
proof -
  obtain l where l: "caps_of l = caps_of (drop_caplist c)"
    "info_caps cfn (info_cache ctn c) c0 = Inr (c0\<lparr>drop_caplist := l\<rparr>)"
    using info_caps_restore[OF assms] by blast
  have m: "\<not> length (seccomp_denied_syscall c) + 1 > ruri_max_seccomp_denied_syscall"
    "\<not> length (env_list c) > ruri_max_envs"
    using assms(1) by (simp_all add: info_plain_def)
  have "foldl res_bind (Inr c0) (full_steps cfn (info_cache ctn c)) = Inr (joined c0 l c)"
    using m by (simp add: full_steps_def l(2) read_bool_def read_int_def read_array_def read_work_dir_def
      read_user_def read_char_def info_bools info_ints[OF assms(1)] info_chars[OF assms(1)]
      info_arrays[OF assms(1)] joined_def)
  then show ?thesis using l(1) by blast
qed

lemma read_info_text:
  assumes "info_plain c" "cap_names_ok ctn cfn (caps_of (drop_caplist c))"
    "length (build_container_info ctn c) \<le> 65536" "length (dir @ ''/.rurienv'') < path_max"
    "re_content env (dir @ ''/.rurienv'') = Some (build_container_info ctn c)"
  shows "ruri_read_info env (Some c0) dir =
     (if (enable_unshare c0 \<or> rootless c0) \<and> \<not> is_ruri_pid (re_readlink env) (ns_pid c)
      then Inr (c0, remove_stale env (dir @ ''/.rurienv'') c0)
      else if rootless c0 then run_steps (rootless_steps (info_cache ctn c)) c0
      else run_steps (full_steps (re_cap_from_name env) (info_cache ctn c)) c0)"
    and "ruri_read_info env None dir =
      res_bind (init_or_fail env) (run_steps (brief_steps env (info_cache ctn c)))"
    and "ruri_get_ns_pid stop env (Some dir) = Inr (if ns_pid c \<le> 0 then ruri_init_value
      else if is_ruri_pid (re_readlink env) (ns_pid c) then ns_pid c else ruri_init_value)"
  using assms(4) by (simp_all add: ruri_read_info_def ruri_get_ns_pid_def rurienv_path_def assms(5)
      open_info[OF assms(1-3)] info_ints[OF assms(1)])

lemma is_ruri_pid_iff:
  "is_ruri_pid rl pid \<longleftrightarrow> (\<exists>a b. rl (''/proc/'' @ show_int pid @ ''/ns/mnt'') = Some a \<and> a \<noteq> [] \<and>
     rl ''/proc/self/ns/mnt'' = Some b \<and> b \<noteq> [] \<and> a \<noteq> b)"
  by (auto simp: is_ruri_pid_def readlink_text_def split: option.splits)

section \<open>A sample environment\<close>

definition sample_running :: ruri_container where
  "sample_running = sample_container\<lparr>ns_pid := 42, container_id := 7, char_devs := []\<rparr>"

definition sample_readlink :: "string \<Rightarrow> string option" where
  "sample_readlink p = (if p = ''/proc/42/ns/mnt'' then Some ''mnt:[2]''
     else if p = ''/proc/self/ns/mnt'' then Some ''mnt:[1]'' else None)"

definition sample_env :: rurienv_env where
  "sample_env = \<lparr>re_kernel = sample_kernel, re_now = 0, re_heap = sample_container,
     re_content = (\<lambda>p. if p = ''/c/.rurienv'' then Some (build_container_info sample_cap_name sample_running)
                       else None),
     re_readlink = sample_readlink, re_opens = (\<lambda>_. True), re_cap_from_name = sample_cap_value\<rparr>"

lemma sample_running_facts:
  "info_plain sample_running"
  "cap_names_ok sample_cap_name sample_cap_value (caps_of (drop_caplist sample_running))"
  "length (build_container_info sample_cap_name sample_running) \<le> 65536"
  "length (''/c'' @ ''/.rurienv'') < path_max"
  "re_content sample_env (''/c'' @ ''/.rurienv'') = Some (build_container_info sample_cap_name sample_running)"
  "is_ruri_pid (re_readlink sample_env) (ns_pid sample_running)"
  "re_cap_from_name sample_env = sample_cap_value"
proof -
  have e: "drop_caplist sample_running = drop_caplist sample_container"
    by (simp add: sample_running_def)
  show "info_plain sample_running"
    using sample_facts(3) by (simp add: info_plain_def e) (simp add: sample_running_def sample_container_def
      opt_plain_def plain_text_def list_plain_def ruri_max_mountpoints_def ruri_max_envs_def
      ruri_max_seccomp_denied_syscall_def int_range_def ruri_cap_last_cap_def)
  show "cap_names_ok sample_cap_name sample_cap_value (caps_of (drop_caplist sample_running))"
    using sample_facts(1) by (simp only: e)
  have "sum_list (map item_len (info_items sample_cap_name sample_running)) \<le> 2000"
    by (simp add: info_items_def sample_running_def sample_simps)
  then show "length (build_container_info sample_cap_name sample_running) \<le> 65536"
    using config_text_len[of "info_items sample_cap_name sample_running"]
    by (simp add: build_container_info_def foldl_add_item)
  show "length (''/c'' @ ''/.rurienv'') < path_max" by (simp add: path_max_def)
  show "re_content sample_env (''/c'' @ ''/.rurienv'')
      = Some (build_container_info sample_cap_name sample_running)" by (simp add: sample_env_def)
  show "is_ruri_pid (re_readlink sample_env) (ns_pid sample_running)"
  proof -
    have "show_int 42 = ''42''" by code_simp
    then show ?thesis
      by (simp add: is_ruri_pid_iff sample_env_def sample_running_def sample_readlink_def)
  qed
  show "re_cap_from_name sample_env = sample_cap_value" by (simp add: sample_env_def)
qed

definition sample_rootless :: ruri_container where
  "sample_rootless = sample_container\<lparr>rootless := True\<rparr>"

section \<open>Properties\<close>

text \<open>C20: joining a running container: from the text stored for it,
  ruri_read_info restores the dropped capabilities, the seccomp settings, the
  process and the other fields listed in joined, keeps a work directory and a user given on
  the command line, and unsets what was applied when the container was started.  Of what is
  stored, the extra mount points and the rootless flag are not restored.\<close>

theorem join_restores_stored_info:
  assumes "info_plain c" "cap_names_ok ctn (re_cap_from_name env) (caps_of (drop_caplist c))"
    "length (build_container_info ctn c) \<le> 65536" "length (dir @ ''/.rurienv'') < path_max"
    "re_content env (dir @ ''/.rurienv'') = Some (build_container_info ctn c)"
    "is_ruri_pid (re_readlink env) (ns_pid c)" "\<not> rootless c0"
    "length (drop_caplist c0) = ruri_cap_last_cap + 1"
  shows "\<exists>l. caps_of l = caps_of (drop_caplist c) \<and>
    ruri_read_info env (Some c0) dir = Inr (joined c0 l c, [])"
  using full_steps_result[OF assms(1,2,8)] assms(6,7)
  by (auto simp: read_info_text(1)[OF assms(1-5)] run_steps_def)

theorem join_restores_stored_info_witness:
  "\<exists>l. caps_of l = [21] \<and> ruri_read_info sample_env (Some (sample_container\<lparr>rootless := False\<rparr>)) ''/c''
     = Inr (joined (sample_container\<lparr>rootless := False\<rparr>) l sample_running, [])"
proof -
  have "caps_of (drop_caplist sample_running) = [21]"
    using sample_facts(3) by (simp add: sample_running_def)
  moreover have "length (drop_caplist (sample_container\<lparr>rootless := False\<rparr>)) = ruri_cap_last_cap + 1"
    by (simp add: sample_container_def ruri_cap_last_cap_def)
  ultimately show ?thesis
    using join_restores_stored_info[of sample_running sample_cap_name sample_env "''/c''"
        "sample_container\<lparr>rootless := False\<rparr>"] sample_running_facts by simp
qed

lemma rootless_steps_result:
  assumes "foldl res_bind (Inr c) (rootless_steps cache) = Inr d" "k2v3_get_int True ''ns_pid'' cache = Inr p"
  shows "\<exists>w u. d = unset_timens (c\<lparr>ns_pid := p, work_dir := (if work_dir c = None then w else work_dir c),
    user := (if user c = None then u else user c)\<rparr>)"
proof -
  obtain d1 d2 where d: "read_work_dir cache (c\<lparr>ns_pid := p\<rparr>) = Inr d1" "read_user cache d1 = Inr d2"
    "d = unset_timens d2"
    using assms by (simp add: rootless_steps_def read_int_def res_bind_eq_Inr del: res_bind.simps) auto
  obtain w where w: "d1 = c\<lparr>ns_pid := p, work_dir := (if work_dir c = None then w else work_dir c)\<rparr>"
    using d(1) by (cases "work_dir c = None") (auto simp: read_work_dir_def read_char_def res_bind_eq_Inr)
  obtain u where "d2 = d1\<lparr>user := (if user d1 = None then u else user d1)\<rparr>"
    using d(2) by (cases "user d1 = None") (auto simp: read_user_def read_char_def res_bind_eq_Inr)
  then show ?thesis using w d(3) by auto
qed

lemma read_info_rootless:
  assumes "ruri_read_info env (Some c) dir = Inr (c', ops)" "rootless c"
  shows "c' = c \<or> (\<exists>cache p. k2v3_get_int True ''ns_pid'' cache = Inr p \<and>
    is_ruri_pid (re_readlink env) p \<and> run_steps (rootless_steps cache) c = Inr (c', ops))"
proof -
  obtain path buf where b: "k2v3_open_file True (re_content env path) 65536 = Inr buf" "rurienv_path dir = Inr path"
    using assms(1) by (auto simp: ruri_read_info_def res_bind_eq_Inr)
  show ?thesis
  proof (cases buf)
    case None
    then show ?thesis using assms(1) b by (simp add: ruri_read_info_def)
  next
    case (Some s)
    then obtain cache ws where "k2v3_parse True s = Inr (cache, ws)"
      using assms(1) b by (auto simp: ruri_read_info_def res_bind_eq_Inr)
    moreover from this obtain p where "k2v3_get_int True ''ns_pid'' cache = Inr p"
      using assms b Some by (auto simp: ruri_read_info_def res_bind_eq_Inr)
    ultimately show ?thesis
      using assms b Some by (auto simp: ruri_read_info_def split: if_splits)
  qed
qed

text \<open>C21: whatever .rurienv holds, a rootless container takes nothing from it but the
  process to join and a missing work directory or user (and it drops its time
  offsets); its capabilities, mounts and seccomp settings are untouched.\<close>

theorem rootless_join_takes_only_pid:
  assumes "ruri_read_info env (Some c) dir = Inr (c', ops)" "rootless c"
  shows "c' = c \<or> (\<exists>p w u. is_ruri_pid (re_readlink env) p \<and> ops = [] \<and>
    c' = unset_timens (c\<lparr>ns_pid := p, work_dir := (if work_dir c = None then w else work_dir c),
                         user := (if user c = None then u else user c)\<rparr>))"
  using read_info_rootless[OF assms]
proof (elim disjE exE conjE)
  fix cache p
  assume p: "k2v3_get_int True ''ns_pid'' cache = Inr p" "is_ruri_pid (re_readlink env) p"
    and r: "run_steps (rootless_steps cache) c = Inr (c', ops)"
  then have "foldl res_bind (Inr c) (rootless_steps cache) = Inr c'" "ops = []"
    by (auto simp: run_steps_def res_bind_eq_Inr)
  from rootless_steps_result[OF this(1) p(1)] this(2) p(2) show ?thesis by blast
qed blast

text \<open>The stored text of the sample, read by a rootless container.\<close>

theorem rootless_join_takes_only_pid_witness:
  "\<exists>c' ops. ruri_read_info sample_env (Some sample_rootless) ''/c'' = Inr (c', ops)
    \<and> (c' = sample_rootless \<or> (\<exists>p w u. is_ruri_pid (re_readlink sample_env) p \<and> ops = [] \<and>
      c' = unset_timens (sample_rootless\<lparr>ns_pid := p,
        work_dir := (if work_dir sample_rootless = None then w else work_dir sample_rootless),
        user := (if user sample_rootless = None then u else user sample_rootless)\<rparr>)))"
proof -
  have root: "rootless sample_rootless" by (simp add: sample_rootless_def)
  have "\<exists>c' ops. ruri_read_info sample_env (Some sample_rootless) ''/c'' = Inr (c', ops)"
    using read_info_text(1)[of sample_running sample_cap_name sample_cap_value "''/c''" sample_env sample_rootless]
      sample_running_facts info_ints[OF sample_running_facts(1)] info_chars[OF sample_running_facts(1)] root
    by (simp add: run_steps_def rootless_steps_def read_int_def read_work_dir_def read_char_def read_user_def)
  then obtain c' ops where r: "ruri_read_info sample_env (Some sample_rootless) ''/c'' = Inr (c', ops)" by blast
  show ?thesis using r rootless_join_takes_only_pid[OF r root] by blast
qed

text \<open>the process a later ruri finds for a container is the stored one exactly
  while that process runs in another mount namespace; otherwise there is none.\<close>

theorem stored_pid_is_found:
  assumes "info_plain c" "cap_names_ok ctn cfn (caps_of (drop_caplist c))"
    "length (build_container_info ctn c) \<le> 65536" "length (dir @ ''/.rurienv'') < path_max"
    "re_content env (dir @ ''/.rurienv'') = Some (build_container_info ctn c)"
  shows "ruri_get_ns_pid stop env (Some dir) = Inr (if 0 < ns_pid c \<and>
      (\<exists>a b. re_readlink env (''/proc/'' @ show_int (ns_pid c) @ ''/ns/mnt'') = Some a \<and> a \<noteq> [] \<and>
        re_readlink env ''/proc/self/ns/mnt'' = Some b \<and> b \<noteq> [] \<and> a \<noteq> b)
    then ns_pid c else ruri_init_value)"
  using read_info_text(3)[OF assms] unfolding is_ruri_pid_iff by auto

theorem stored_pid_is_found_witness: "ruri_get_ns_pid False sample_env (Some ''/c'') = Inr 42"
proof -
  have "show_int 42 = ''42''" by code_simp
  then show ?thesis
    using stored_pid_is_found[OF sample_running_facts(1-5), of False]
    by (simp add: sample_env_def sample_running_def sample_readlink_def)
qed

end
