(* ===== verification/Args.thy ===== *)
theory Args
  imports Rurienv
begin

text \<open>
  The command line of ruri.c: parse_args with its long and BSD-style options,
  parse_cgroup_settings, and check_container.

  The locals of parse_args and the container it fills are one record; index is the
  position in argv, which ends with NULL at argc.  An option handler that uses a
  NULL argument is undefined behaviour, as atoi, strdup or strlen of NULL are.
  What the options ask of the system (the kind of a path, realpath, the content
  of a configuration file, the numbers of a host device, strtof, libcap) is the
  record \<open>args_env\<close>.
\<close>

section \<open>State and environment\<close>

datatype path_kind = Missing | Directory | Regular_file | Other_file

record args_env =
  ae_kernel :: cap_kernel
  ae_now :: int
  ae_heap :: ruri_container
  path_kind_of :: "string \<Rightarrow> path_kind"
  realpath :: "string \<Rightarrow> string option"
  file_content :: "string \<Rightarrow> string option"
  host_char_dev :: "string \<Rightarrow> (int \<times> int) option option"
  libcap_from_name :: "string \<Rightarrow> int option"
  libcap_to_name :: "int \<Rightarrow> string option"
  strtof_ns :: "string \<Rightarrow> int \<times> string"
  readlink_of :: "string \<Rightarrow> string option"
  path_opens :: "string \<Rightarrow> bool"
  self_exe :: "string option"

record args_state =
  as_index :: nat
  as_container :: ruri_container
  even_unstable :: bool
  fork_exec :: bool
  dump_config :: bool
  output_path :: "string option"
  keep_extra :: caplist
  drop_extra :: caplist
  privileged :: bool
  use_config_file :: bool
  background :: bool
  log_file :: "string option"
  force_panic :: bool

type_synonym argv = "string list"
type_synonym handler = "args_env \<Rightarrow> argv \<Rightarrow> args_state \<Rightarrow> args_state result"

definition null_deref :: fault where
  "null_deref = Undefined ''use of a NULL argument''"

text \<open>\<open>argv_at\<close> is argv[i], None standing for the NULL at argc.\<close>

definition argv_at :: "argv \<Rightarrow> nat \<Rightarrow> string option" where
  "argv_at argv i = (if i < length argv then Some (argv ! i) else None)"

definition use_arg :: "argv \<Rightarrow> nat \<Rightarrow> (string \<Rightarrow> 'a result) \<Rightarrow> 'a result" where
  "use_arg argv i f = (case argv_at argv i of None \<Rightarrow> Inl null_deref | Some s \<Rightarrow> f s)"

definition set_index :: "nat \<Rightarrow> args_state \<Rightarrow> args_state" where
  "set_index i st = st\<lparr>as_index := i\<rparr>"

definition upd_container :: "(ruri_container \<Rightarrow> ruri_container) \<Rightarrow> args_state \<Rightarrow> args_state" where
  "upd_container f st = st\<lparr>as_container := f (as_container st)\<rparr>"

section \<open>Cgroup settings\<close>

text \<open>The loop over at most 15 characters: the option name and the text after the
  first equals sign.\<close>

fun cgroup_split :: "nat \<Rightarrow> string \<Rightarrow> string \<times> string option" where
  "cgroup_split 0 s = ([], None)"
| "cgroup_split (Suc n) [] = ([], None)"
| "cgroup_split (Suc n) (c # cs) =
     (if c = CHR ''='' then ([], Some cs)
      else (case cgroup_split n cs of (buf, limit) \<Rightarrow> (c # buf, limit)))"

definition parse_cgroup_settings :: "string \<Rightarrow> ruri_container \<Rightarrow> ruri_container result" where
  "parse_cgroup_settings str c =
     (case cgroup_split 15 str of
        (_, None) \<Rightarrow> Inl (Fatal ''Error: cgroup limit should be like cpuset=1 or memory=1M'')
      | (buf, Some limit) \<Rightarrow>
          if buf = ''cpuset'' then Inr (c\<lparr>cpuset := Some limit\<rparr>)
          else if buf = ''memory'' then Inr (c\<lparr>memory := Some limit\<rparr>)
          else if buf = ''cpupercent'' then
            (if atoi limit < 1 \<or> atoi limit > 100
             then Inl (Fatal ''Error: cpupercent should be in range 1-100'')
             else Inr (c\<lparr>cpupercent := atoi limit\<rparr>))
          else Inl (Fatal ''Unknown cgroup option''))"

section \<open>Options that take no value\<close>

text \<open>The flags the long form and the BSD-style form share, by the BSD letter.\<close>

definition flag_action :: "char \<Rightarrow> (args_state \<Rightarrow> args_state) option" where
  "flag_action c =
    (if c = CHR ''r'' then Some (upd_container (rootless_update (\<lambda>_. True)))
     else if c = CHR ''D'' then Some (dump_config_update (\<lambda>_. True))
     else if c = CHR ''g'' then Some (upd_container (skip_setgroups_update (\<lambda>_. True)))
     else if c = CHR ''u'' then Some (upd_container (enable_unshare_update (\<lambda>_. True)))
     else if c = CHR ''n'' then Some (upd_container (no_new_privs_update (\<lambda>_. True)))
     else if c = CHR ''N'' then Some (upd_container (use_rurienv_update (\<lambda>_. False)))
     else if c = CHR ''s'' then Some (upd_container (enable_default_seccomp_update (\<lambda>_. True)))
     else if c = CHR ''p'' then Some (privileged_update (\<lambda>_. True))
     else if c = CHR ''S'' then Some (upd_container (mount_host_runtime_update (\<lambda>_. True)))
     else if c = CHR ''R'' then Some (upd_container (ro_root_update (\<lambda>_. True)))
     else if c = CHR ''w'' then Some (upd_container (no_warnings_update (\<lambda>_. True)))
     else if c = CHR ''f'' then Some (fork_exec_update (\<lambda>_. True))
     else if c = CHR ''j'' then Some (upd_container (just_chroot_update (\<lambda>_. True)))
     else if c = CHR ''A'' then Some (upd_container (unmask_dirs_update (\<lambda>_. True)))
     else if c = CHR ''K'' then Some (upd_container (use_kvm_update (\<lambda>_. True)))
     else if c = CHR ''b'' then Some (background_update (\<lambda>_. True))
     else if c = CHR ''z'' then Some (upd_container (enable_tty_signals_update (\<lambda>_. True)))
     else if c = CHR ''y'' then
       Some (upd_container (systemd_mode_update (\<lambda>_. True) \<circ> enable_unshare_update (\<lambda>_. True)))
     else None)"

text \<open>The flags of the long form, by their two spellings.\<close>

definition long_flag_names :: "(string \<times> string \<times> char) list" where
  "long_flag_names =
    [(''-D'', ''--dump-config'', CHR ''D''), (''-b'', ''--background'', CHR ''b''),
     (''-f'', ''--fork'', CHR ''f''), (''-n'', ''--no-new-privs'', CHR ''n''),
     (''-N'', ''--no-rurienv'', CHR ''N''), (''-A'', ''--unmask-dirs'', CHR ''A''),
     (''-s'', ''--enable-seccomp'', CHR ''s''), (''-u'', ''--unshare'', CHR ''u''),
     (''-p'', ''--privileged'', CHR ''p''), (''-r'', ''--rootless'', CHR ''r''),
     (''-g'', ''--skip-setgroups'', CHR ''g''), (''-w'', ''--no-warnings'', CHR ''w''),
     (''-j'', ''--just-chroot'', CHR ''j''), (''-S'', ''--host-runtime'', CHR ''S''),
     (''-R'', ''--read-only'', CHR ''R''), (''-K'', ''--use-kvm'', CHR ''K''),
     (''-z'', ''--enable-tty-signals'', CHR ''z''), (''-y'', ''--systemd'', CHR ''y'')]"

section \<open>Options that take values\<close>

text \<open>The three ways the code fetches a value.  \<open>value_checked\<close> tests for the
  last position first and then steps; \<open>value_late\<close> steps first and so refuses a
  value in the last position, and uses NULL when there is none;
  \<open>value_tested\<close> steps and tests the argument for NULL.\<close>

definition value_checked :: "string \<Rightarrow> (string \<Rightarrow> args_state \<Rightarrow> args_state result) \<Rightarrow> handler" where
  "value_checked msg act env argv st =
     (if as_index st = length argv - 1 then Inl (Fatal msg)
      else use_arg argv (as_index st + 1) (\<lambda>s. act s (set_index (as_index st + 1) st)))"

definition value_late :: "string \<Rightarrow> (string \<Rightarrow> args_state \<Rightarrow> args_state result) \<Rightarrow> handler" where
  "value_late msg act env argv st =
     (if as_index st + 1 = length argv - 1 then Inl (Fatal msg)
      else use_arg argv (as_index st + 1) (\<lambda>s. act s (set_index (as_index st + 1) st)))"

definition value_tested :: "string \<Rightarrow> (string \<Rightarrow> args_state \<Rightarrow> args_state result) \<Rightarrow> handler" where
  "value_tested msg act env argv st =
     (case argv_at argv (as_index st + 1) of
        None \<Rightarrow> Inl (Fatal msg)
      | Some s \<Rightarrow> act s (set_index (as_index st + 1) st))"

text \<open>No test at all (hidepid, OOM score, namespace pid).\<close>

definition value_plain :: "(string \<Rightarrow> args_state \<Rightarrow> args_state result) \<Rightarrow> handler" where
  "value_plain act env argv st =
     use_arg argv (as_index st + 1) (\<lambda>s. act s (set_index (as_index st + 1) st))"

definition set_field :: "(ruri_container \<Rightarrow> ruri_container) \<Rightarrow> args_state \<Rightarrow> args_state result" where
  "set_field f st = Inr (upd_container f st)"

text \<open>--output and --log-file keep a pointer to argv[index], NULL included.\<close>

definition opt_output :: handler where
  "opt_output env argv st =
     (if as_index st + 1 = length argv - 1 then Inl (Fatal ''Please specify the output file'')
      else Inr ((set_index (as_index st + 1) st)\<lparr>output_path := argv_at argv (as_index st + 1)\<rparr>))"

definition opt_log_file :: handler where
  "opt_log_file env argv st =
     (if as_index st + 1 = length argv - 1 then Inl (Fatal ''Please specify the log file'')
      else Inr ((set_index (as_index st + 1) st)\<lparr>background := True,
                 log_file := argv_at argv (as_index st + 1)\<rparr>))"

definition opt_hostname :: handler where
  "opt_hostname = value_checked ''Please specify the hostname !'' (\<lambda>s. set_field (hostname_update (\<lambda>_. Some s)))"

definition opt_user :: handler where
  "opt_user = value_checked ''Please specify the user'' (\<lambda>s. set_field (user_update (\<lambda>_. Some s)))"

definition opt_arch :: handler where
  "opt_arch = value_checked ''Please specify the arch'' (\<lambda>s. set_field (cross_arch_update (\<lambda>_. Some s)))"

definition opt_qemu_path :: handler where
  "opt_qemu_path = value_late ''Please specify the path of qemu binary''
     (\<lambda>s. set_field (qemu_path_update (\<lambda>_. Some s)))"

definition opt_pid_file :: handler where
  "opt_pid_file = value_late ''Please specify the pid file'' (\<lambda>s. set_field (pid_file_update (\<lambda>_. Some s)))"

definition opt_timeout :: handler where
  "opt_timeout env = value_late ''Please specify the timeout in seconds''
     (\<lambda>s st. case strtof_ns env s of (v, end_text) \<Rightarrow>
        if end_text \<noteq> [] then Inl (Fatal ''Invalid timeout value'')
        else if v < 0 then Inl (Fatal ''Timeout should be non-negative'')
        else set_field (timeout_update (\<lambda>_. v)) st) env"

definition opt_hidepid :: handler where
  "opt_hidepid = value_plain
     (\<lambda>s. if atoi s < 0 \<or> atoi s > 2 then (\<lambda>_. Inl (Fatal ''hidepid should be in range 0-2''))
          else set_field (hidepid_update (\<lambda>_. atoi s)))"

definition opt_oom_score :: handler where
  "opt_oom_score = value_plain
     (\<lambda>s. if atoi s < -1000 \<or> atoi s > 1000
          then (\<lambda>_. Inl (Fatal ''oom_score_adj should be in range -1000 to 1000''))
          else set_field (oom_score_adj_update (\<lambda>_. atoi s)))"

definition opt_join_ns :: handler where
  "opt_join_ns = value_plain
     (\<lambda>s. if atoi s \<le> 0 then (\<lambda>_. Inl (Fatal ''NS_PID should be in range 0-2''))
          else set_field (ns_pid_update (\<lambda>_. atoi s)))"

definition opt_limit :: handler where
  "opt_limit = value_tested ''Unknown cgroup option''
     (\<lambda>s st. res_bind (parse_cgroup_settings s (as_container st))
        (\<lambda>c. Inr (st\<lparr>as_container := c\<rparr>)))"

definition opt_work_dir :: handler where
  "opt_work_dir = value_tested ''Unknown work directory'' (\<lambda>s. set_field (work_dir_update (\<lambda>_. Some s)))"

text \<open>Appending to a NULL-terminated array: the loop looks for the first NULL below
  \<open>limit\<close>; the strings and the NULL after them go to \<open>length vs\<close> further
  cells of an array of \<open>cells\<close>.\<close>

definition append_strings :: "nat \<Rightarrow> nat \<Rightarrow> string \<Rightarrow> string list \<Rightarrow> string list \<Rightarrow> string list result" where
  "append_strings limit cells msg vs old =
     (if length old \<ge> limit then Inl (Fatal msg)
      else if length old + length vs + 1 > cells then Inl out_of_bounds
      else Inr (old @ vs))"

definition opt_mask_path :: handler where
  "opt_mask_path = value_tested ''Unknown masked path''
     (\<lambda>s st. res_bind (append_strings ruri_max_mountpoints (ruri_max_mountpoints + 2)
           ''Too many masked paths QwQ'' [s] (masked_path (as_container st)))
        (\<lambda>l. set_field (masked_path_update (\<lambda>_. l)) st))"

definition opt_deny_syscall :: handler where
  "opt_deny_syscall = value_tested ''Error: unknown syscall QwQ''
     (\<lambda>s st. res_bind (append_strings ruri_max_seccomp_denied_syscall ruri_max_seccomp_denied_syscall
           ''Too many syscalls QwQ'' [s] (seccomp_denied_syscall (as_container st)))
        (\<lambda>l. set_field (seccomp_denied_syscall_update (\<lambda>_. l)) st))"

text \<open>Options with two or three values test all of them for NULL first.\<close>

definition two_values :: "string \<Rightarrow> (string \<Rightarrow> string \<Rightarrow> args_state \<Rightarrow> args_state result) \<Rightarrow> handler" where
  "two_values msg act env argv st =
     (case (argv_at argv (as_index st + 1), argv_at argv (as_index st + 2)) of
        (Some a, Some b) \<Rightarrow> act a b (set_index (as_index st + 2) st)
      | _ \<Rightarrow> Inl (Fatal msg))"

definition opt_env :: handler where
  "opt_env = two_values ''Error: unknown env QwQ''
     (\<lambda>k v st. res_bind (append_strings ruri_max_envs (ruri_max_envs + 2) ''Too many envs QwQ''
           [k, v] (env_list (as_container st)))
        (\<lambda>l. set_field (env_list_update (\<lambda>_. l)) st))"

text \<open>A mount on / becomes the rootfs source instead of an entry.\<close>

definition opt_mount :: handler where
  "opt_mount = two_values ''Error: unknown mountpoint QwQ''
     (\<lambda>src dst st.
        if src = ''/'' then Inl (Fatal ''/ is not allowed to use as a mountpoint QwQ'')
        else res_bind (append_strings ruri_max_mountpoints (ruri_max_mountpoints + 2)
           ''Too many mountpoints QwQ'' [src, dst] (extra_mountpoint (as_container st)))
          (\<lambda>l. if dst = ''/'' then
                  (if rootfs_source (as_container st) = None
                   then set_field (rootfs_source_update (\<lambda>_. Some src)) st
                   else Inl (Fatal ''You can only mount one source to / QwQ''))
                else set_field (extra_mountpoint_update (\<lambda>_. l)) st))"

definition opt_ro_mount :: handler where
  "opt_ro_mount = two_values ''Error: unknown mountpoint QwQ''
     (\<lambda>src dst st.
        res_bind (append_strings ruri_max_mountpoints (ruri_max_mountpoints + 2)
           ''Too many mountpoints QwQ'' [src, dst] (extra_ro_mountpoint (as_container st)))
          (\<lambda>l. if dst = ''/'' then
                  (if rootfs_source (as_container st) = None
                   then set_field (rootfs_source_update (\<lambda>_. Some src) \<circ> ro_root_update (\<lambda>_. True)) st
                   else Inl (Fatal ''You can only mount one source to / QwQ''))
                else set_field (extra_ro_mountpoint_update (\<lambda>_. l)) st))"

text \<open>Device numbers: the major one must be non-negative (long form) or positive
  (BSD form); major 0 in the long form is looked up on the host, after the entry
  and its terminator were stored.\<close>

definition detect_numbers :: "args_env \<Rightarrow> bool \<Rightarrow> string \<Rightarrow> string \<Rightarrow> string \<Rightarrow> (string \<times> string) result" where
  "detect_numbers env detect dev maj mnr =
     (if detect \<and> atoi maj = 0 then
        (if length (''/dev/'' @ dev) \<ge> path_max then Inl (Undefined ''sprintf past the end of dev_path'')
         else case host_char_dev env (''/dev/'' @ dev) of
           None \<Rightarrow> Inl (Fatal ''Error: device does not exist on host QwQ'')
         | Some None \<Rightarrow> Inl (Fatal ''Error: device is not a char device on host QwQ'')
         | Some (Some (j, n)) \<Rightarrow> Inr (show_int j, show_int n))
      else Inr (maj, mnr))"

definition opt_char_dev :: "bool \<Rightarrow> handler" where
  "opt_char_dev detect env argv st =
     (case (argv_at argv (as_index st + 1), argv_at argv (as_index st + 2), argv_at argv (as_index st + 3)) of
        (Some dev, Some maj, Some mnr) \<Rightarrow>
          (let old = char_devs (as_container st) in
           if length old \<ge> ruri_max_char_devs then Inl (Fatal ''Too many char devices QwQ'')
           else if (if detect then atoi maj < 0 else atoi maj \<le> 0)
             then Inl (Fatal ''Error: invalid major number QwQ'')
           else if atoi mnr \<le> 0 \<and> mnr \<noteq> ''0'' then Inl (Fatal ''Error: invalid minor number QwQ'')
           else if length old + 4 > ruri_max_char_devs then Inl out_of_bounds
           else res_bind (detect_numbers env detect dev maj mnr)
             (\<lambda>(j, n). set_field (char_devs_update (\<lambda>_. old @ [dev, j, n])) (set_index (as_index st + 3) st)))
      | _ \<Rightarrow> Inl (Fatal ''Error: unknown char devices QwQ''))"

definition opt_timens :: handler where
  "opt_timens = two_values ''Error: unknown time ns offset QwQ''
     (\<lambda>mono real. set_field (timens_monotonic_offset_update (\<lambda>_. strtol mono) \<circ>
        timens_realtime_offset_update (\<lambda>_. strtol real) \<circ> enable_unshare_update (\<lambda>_. True)))"

text \<open>Capabilities to keep or drop: a non-zero number, or a name libcap knows.
  The long form of --cap-drop asks libcap directly, without the lower casing and
  prefixing the others do.\<close>

definition add_cap_arg :: "args_env \<Rightarrow> (string \<Rightarrow> int option) \<Rightarrow> string \<Rightarrow> caplist \<Rightarrow> caplist result" where
  "add_cap_arg env from_name s list =
     (case (if atoi s \<noteq> 0 then Some (atoi s) else from_name s) of
        None \<Rightarrow> Inl (Fatal ''Error: unknown capability'')
      | Some cap \<Rightarrow>
          (case ruri_add_to_caplist (ae_kernel env) list cap of
             None \<Rightarrow> Inl out_of_bounds | Some l \<Rightarrow> Inr l))"

definition opt_keep :: handler where
  "opt_keep env = value_tested ''Missing argument''
     (\<lambda>s st. res_bind (add_cap_arg env (ruri_cap_from_name (libcap_from_name env)) s (keep_extra st))
        (\<lambda>l. Inr (st\<lparr>keep_extra := l\<rparr>))) env"

definition opt_drop :: "bool \<Rightarrow> handler" where
  "opt_drop direct env = value_tested ''Missing argument''
     (\<lambda>s st. res_bind (add_cap_arg env (if direct then libcap_from_name env
           else ruri_cap_from_name (libcap_from_name env)) s (drop_extra st))
        (\<lambda>l. Inr (st\<lparr>drop_extra := l\<rparr>))) env"

section \<open>The long form\<close>

definition opt_strict_mode :: handler where
  "opt_strict_mode env argv st =
     set_field (auto_umount_on_panic_update (\<lambda>_. True)) (st\<lparr>force_panic := True\<rparr>)"

text \<open>-U after a configuration file.\<close>

definition opt_umount :: handler where
  "opt_umount env argv st =
     (if use_config_file st then Inl (Exited ''umount'')
      else Inl (Fatal ''Error: --umount should only be used without other arguments QwQ''))"

text \<open>The flags that exist in the long form only.\<close>

definition long_only_flag :: "string \<Rightarrow> handler option" where
  "long_only_flag s =
    (if s = ''-x'' \<or> s = ''--no-network'' then
       Some (\<lambda>env argv. set_field (no_network_update (\<lambda>_. True) \<circ> enable_unshare_update (\<lambda>_. True)))
     else if s = ''-U'' \<or> s = ''--umount'' then Some opt_umount
     else if s = ''--even-unstable'' then Some (\<lambda>env argv st. Inr (st\<lparr>even_unstable := True\<rparr>))
     else if s = ''--strict-mode'' then Some opt_strict_mode
     else if s = ''--auto-umount'' then Some (\<lambda>env argv. set_field (auto_umount_update (\<lambda>_. True)))
     else if s = ''--umount-on-panic'' then Some opt_strict_mode
     else if s = ''--health-check'' then Some (\<lambda>env argv. set_field (is_health_check_update (\<lambda>_. True)))
     else if s = ''--enable-seccomp-whitelist'' then
       Some (\<lambda>env argv. set_field (enable_seccomp_whitelist_update (\<lambda>_. True)))
     else if s = ''--fork-as-init'' then Some (\<lambda>env argv. set_field (fork_as_init_update (\<lambda>_. True)))
     else None)"

definition long_value :: "string \<Rightarrow> handler option" where
  "long_value s =
    (if s \<in> {''-o'', ''--output''} then Some opt_output
     else if s \<in> {''-L'', ''--log-file''} then Some opt_log_file
     else if s \<in> {''-t'', ''--hostname''} then Some opt_hostname
     else if s \<in> {''-E'', ''--user''} then Some opt_user
     else if s \<in> {''-a'', ''--arch''} then Some opt_arch
     else if s \<in> {''-q'', ''--qemu-path''} then Some opt_qemu_path
     else if s \<in> {''-i'', ''--hidepid''} then Some opt_hidepid
     else if s \<in> {''-O'', ''--oom-score-adj''} then Some opt_oom_score
     else if s \<in> {''-J'', ''--join-ns''} then Some opt_join_ns
     else if s \<in> {''-l'', ''--limit''} then Some opt_limit
     else if s \<in> {''-W'', ''--work-dir''} then Some opt_work_dir
     else if s \<in> {''-Q'', ''--mask-path''} then Some opt_mask_path
     else if s \<in> {''-e'', ''--env''} then Some opt_env
     else if s \<in> {''-m'', ''--mount''} then Some opt_mount
     else if s \<in> {''-M'', ''--ro-mount''} then Some opt_ro_mount
     else if s \<in> {''-I'', ''--char-dev''} then Some (opt_char_dev True)
     else if s \<in> {''-X'', ''--deny-syscall''} then Some opt_deny_syscall
     else if s \<in> {''-T'', ''--timens-offset''} then Some opt_timens
     else if s \<in> {''-k'', ''--keep'', ''--cap-add''} then Some opt_keep
     else if s \<in> {''-d'', ''--drop'', ''--cap-drop''} then Some (opt_drop True)
     else if s = ''--pid-file'' then Some opt_pid_file
     else if s = ''--timeout'' then Some opt_timeout
     else None)"

fun long_flag :: "(string \<times> string \<times> char) list \<Rightarrow> string \<Rightarrow> (args_state \<Rightarrow> args_state) option" where
  "long_flag [] s = None"
| "long_flag ((a, b, c) # names) s = (if s = a \<or> s = b then flag_action c else long_flag names s)"

text \<open>The chain of else-if comparisons up to the command and the directory.\<close>

definition long_option :: "string \<Rightarrow> handler option" where
  "long_option s =
     (case long_flag long_flag_names s of
        Some f \<Rightarrow> Some (\<lambda>env argv st. Inr (f st))
      | None \<Rightarrow> (case long_only_flag s of Some h \<Rightarrow> Some h | None \<Rightarrow> long_value s))"

text \<open>The command: the arguments from index on, at most RURI_MAX_COMMANDS and argc
  of them; index ends after the last one taken.\<close>

definition take_command :: handler where
  "take_command env argv st =
     (if as_index st < length argv then
        (let taken = take (min (length argv) ruri_max_commands) (drop (as_index st) argv)
         in Inr (upd_container (command_update (\<lambda>_. taken)) (set_index (as_index st + length taken) st)))
      else Inr (upd_container (command_update (\<lambda>_. [])) st))"

definition take_container_dir :: "string \<Rightarrow> handler" where
  "take_container_dir s env argv st =
     (case realpath env s of
        None \<Rightarrow> Inl (Fatal ''Container directory does not exist QwQ'')
      | Some d \<Rightarrow> take_command env argv
          (set_index (as_index st + 1) (upd_container (container_dir_update (\<lambda>_. Some d)) st)))"

section \<open>Configuration file option\<close>

definition opt_config :: handler where
  "opt_config env argv st =
     (if as_index st = length argv - 1 then Inl (Fatal ''Please specify a config file !'')
      else use_arg argv (as_index st + 1)
        (\<lambda>path. res_bind (ruri_read_config (libcap_from_name env) (as_container st) (file_content env path))
          (\<lambda>c. Inr ((set_index (as_index st + 2) st)\<lparr>as_container := c, use_config_file := True\<rparr>))))"

section \<open>The BSD-style form\<close>

definition bsd_deny_syscall :: handler where
  "bsd_deny_syscall env argv st =
     (if as_index st = length argv - 1 then Inl (Fatal ''Please specify the syscall'')
      else opt_deny_syscall env argv st)"

text \<open>The letters that take a value, which must be the last of their argument, in
  the order of the cases of the switch.\<close>

definition bsd_value_names :: "char \<Rightarrow> handler option" where
  "bsd_value_names c =
    (if c = CHR ''o'' then Some opt_output
     else if c = CHR ''Q'' then Some opt_mask_path
     else if c = CHR ''c'' then Some opt_config
     else if c = CHR ''a'' then Some opt_arch
     else if c = CHR ''q'' then Some opt_qemu_path
     else if c = CHR ''k'' then Some opt_keep
     else if c = CHR ''d'' then Some (opt_drop False)
     else None)"

definition bsd_value_pairs :: "char \<Rightarrow> handler option" where
  "bsd_value_pairs c =
    (if c = CHR ''e'' then Some opt_env
     else if c = CHR ''m'' then Some opt_mount
     else if c = CHR ''M'' then Some opt_ro_mount
     else if c = CHR ''l'' then Some opt_limit
     else if c = CHR ''W'' then Some opt_work_dir
     else if c = CHR ''E'' then Some opt_user
     else if c = CHR ''t'' then Some opt_hostname
     else None)"

definition bsd_value_limits :: "char \<Rightarrow> handler option" where
  "bsd_value_limits c =
    (if c = CHR ''I'' then Some (opt_char_dev False)
     else if c = CHR ''i'' then Some opt_hidepid
     else if c = CHR ''O'' then Some opt_oom_score
     else if c = CHR ''T'' then Some opt_timens
     else if c = CHR ''L'' then Some opt_log_file
     else if c = CHR ''X'' then Some bsd_deny_syscall
     else if c = CHR ''J'' then Some opt_join_ns
     else None)"

definition bsd_value :: "char \<Rightarrow> handler option" where
  "bsd_value c =
     (case bsd_value_names c of
        Some h \<Rightarrow> Some h
      | None \<Rightarrow> (case bsd_value_pairs c of Some h \<Rightarrow> Some h | None \<Rightarrow> bsd_value_limits c))"

lemmas bsd_value_defs = bsd_value_names_def bsd_value_pairs_def bsd_value_limits_def

lemma bsd_value_cases:
  assumes "bsd_value c = Some h"
  obtains "bsd_value_names c = Some h" | "bsd_value_pairs c = Some h" | "bsd_value_limits c = Some h"
  using assms by (auto simp: bsd_value_def split: option.splits)

definition bsd_switch :: "char \<Rightarrow> bool \<Rightarrow> handler" where
  "bsd_switch c is_last env argv st =
     (case flag_action c of
        Some f \<Rightarrow> Inr (f st)
      | None \<Rightarrow>
          if c = CHR ''x'' then set_field (no_network_update (\<lambda>_. True)) st
          else (case bsd_value c of
              Some h \<Rightarrow> if is_last then h env argv st else Inl (Fatal ''Invalid argument'')
            | None \<Rightarrow> Inl (Fatal ''Invalid argument'')))"

text \<open>The loop over the letters.  Its condition evaluates strlen(argv[index])
  again, with the index a value option has moved; a moved index then ends it.\<close>

fun bsd_loop :: "args_env \<Rightarrow> argv \<Rightarrow> string \<Rightarrow> args_state \<Rightarrow> args_state result" where
  "bsd_loop env argv [] st = Inr st"
| "bsd_loop env argv (c # cs) st =
     res_bind (bsd_switch c (cs = []) env argv st)
       (\<lambda>st'. if as_index st' \<noteq> as_index st then use_arg argv (as_index st') (\<lambda>_. Inr st')
              else bsd_loop env argv cs st')"

section \<open>One turn of the loop over argv\<close>

text \<open>The options that end the program, tested at the top of each turn.\<close>

definition run_on_path :: "string \<Rightarrow> args_env \<Rightarrow> argv \<Rightarrow> args_state \<Rightarrow> unit result" where
  "run_on_path what env argv st =
     (case argv_at argv (as_index st + 1) of
        None \<Rightarrow> Inl (Fatal ''Container directory or config does not exist QwQ'')
      | Some path \<Rightarrow>
          (case path_kind_of env path of
             Missing \<Rightarrow> Inl (Fatal ''Container directory or config does not exist QwQ'')
           | Directory \<Rightarrow> Inl (Exited what)
           | Regular_file \<Rightarrow>
               res_bind (ruri_read_config (libcap_from_name env) (as_container st) (file_content env path))
                 (\<lambda>_. Inl (Exited what))
           | Other_file \<Rightarrow> Inl (Fatal ''Error: unknown file type QwQ'')))"

definition info_option :: "string \<Rightarrow> args_env \<Rightarrow> argv \<Rightarrow> args_state \<Rightarrow> unit result" where
  "info_option s env argv st =
    (if s = ''AwA'' then Inl (Exited ''AwA'')
     else if s = ''meow'' then Inl (Exited ''meow'')
     else if s \<in> {''-v'', ''--version''} then Inl (Exited ''version'')
     else if s \<in> {''-V'', ''--version-code''} then Inl (Exited ''version code'')
     else if s \<in> {''-h'', ''--help''} then Inl (Exited ''help'')
     else if s \<in> {''-H'', ''--show-examples''} then Inl (Exited ''examples'')
     else if s \<in> {''-F'', ''--ruri-fetch''} then Inl (Exited ''fetch'')
     else if s \<in> {''-U'', ''--umount''} then run_on_path ''umount'' env argv st
     else if s \<in> {''-P'', ''--ps''} then run_on_path ''ps'' env argv st
     else if s = ''--stat'' then Inl (Exited ''stat'')
     else if s \<in> {''-C'', ''--correct-config''} then
       (case argv_at argv (as_index st + 1) of
          None \<Rightarrow> Inl (Exited ''114'') | Some _ \<Rightarrow> Inl (Exited ''correct config''))
     else Inr ())"

definition arg_chain :: handler where
  "arg_chain env argv st = use_arg argv (as_index st)
     (\<lambda>s. case long_option s of
        Some h \<Rightarrow> h env argv st
      | None \<Rightarrow>
          if use_config_file st then take_command env argv st
          else if path_kind_of env s = Directory then take_container_dir s env argv st
          else if ch_at s 0 = CHR ''-'' then
            (if length s = 1 then Inl (Fatal ''Invalid argument'') else bsd_loop env argv (tl s) st)
          else Inl (Fatal ''Error: unknown option''))"

text \<open>The flag of the result tells whether the loop was left with break.\<close>

definition arg_step :: "args_env \<Rightarrow> argv \<Rightarrow> args_state \<Rightarrow> (args_state \<times> bool) result" where
  "arg_step env argv st = use_arg argv (as_index st)
     (\<lambda>s. res_bind (info_option s env argv st)
       (\<lambda>_. if s = ''-c'' \<or> s = ''--config'' then
               res_bind (opt_config env argv st)
                 (\<lambda>st1. if as_index st1 = length argv then Inr (st1, True)
                        else res_bind (arg_chain env argv st1) (\<lambda>st2. Inr (st2, False)))
             else res_bind (arg_chain env argv st) (\<lambda>st2. Inr (st2, False))))"

section \<open>Relations every step keeps\<close>

text \<open>A relation on states that every operation keeps.  Whatever the options of
  one turn keep, being reflexive and transitive, the bundle loop, a turn and (below)
  the whole loop keep: the locale.  \<open>forward\<close> is the relation that makes
  the loop end.\<close>

definition keeps_rel :: "(args_state \<Rightarrow> args_state \<Rightarrow> bool) \<Rightarrow> (args_state \<Rightarrow> args_state result) \<Rightarrow> bool" where
  "keeps_rel R h = (\<forall>st st'. h st = Inr st' \<longrightarrow> R st st')"

abbreviation index_le :: "args_state \<Rightarrow> args_state \<Rightarrow> bool" where
  "index_le st st' \<equiv> as_index st \<le> as_index st'"

abbreviation forward :: "(args_state \<Rightarrow> args_state result) \<Rightarrow> bool" where
  "forward h \<equiv> keeps_rel index_le h"

lemmas forward_def = keeps_rel_def

lemma keeps_relI: "(\<And>st st'. h st = Inr st' \<Longrightarrow> R st st') \<Longrightarrow> keeps_rel R h"
  by (simp add: keeps_rel_def)

lemmas forwardI = keeps_relI

lemma index_simps [simp]:
  "as_index (set_index i st) = i" "as_index (upd_container f st) = as_index st"
  "as_container (set_index i st) = as_container st"
  "as_container (upd_container f st) = f (as_container st)"
  by (simp_all add: set_index_def upd_container_def)

lemma set_field_Inr: "set_field f st = Inr st' \<longleftrightarrow> st' = upd_container f st"
  by (auto simp: set_field_def)

lemma use_arg_Inr: "use_arg argv i f = Inr v \<longleftrightarrow> (\<exists>s. argv_at argv i = Some s \<and> f s = Inr v)"
  by (auto simp: use_arg_def split: option.splits)

lemmas handler_defs = value_checked_def value_late_def value_tested_def value_plain_def two_values_def

lemmas option_defs = opt_output_def opt_log_file_def opt_hostname_def opt_user_def opt_arch_def
  opt_qemu_path_def opt_pid_file_def opt_timeout_def opt_hidepid_def opt_oom_score_def opt_join_ns_def
  opt_limit_def opt_work_dir_def opt_mask_path_def opt_deny_syscall_def opt_env_def opt_mount_def
  opt_ro_mount_def opt_char_dev_def opt_timens_def opt_keep_def opt_drop_def opt_config_def
  bsd_deny_syscall_def opt_umount_def opt_strict_mode_def

lemma forward_actions:
  "forward (set_field f)" "forward (\<lambda>st. Inl e)" "forward Inr"
  by (auto simp: forward_def set_field_Inr)

lemma act_index:
  assumes "act s (set_index i st) = Inr st'" "forward (act s)"
  shows "i \<le> as_index st'"
  using assms by (fastforce simp: forward_def)

lemma forward_values:
  assumes "\<And>s. forward (act s)"
  shows "forward (value_checked msg act env argv)" "forward (value_late msg act env argv)"
    "forward (value_tested msg act env argv)" "forward (value_plain act env argv)"
  by (rule forwardI; auto simp: handler_defs use_arg_Inr split: if_splits option.splits
      dest!: act_index[OF _ assms])+

lemma forward_two_values:
  assumes "\<And>a b. forward (act a b)"
  shows "forward (two_values msg act env argv)"
proof (rule forwardI)
  fix st st' assume r: "two_values msg act env argv st = Inr st'"
  then obtain a b where "act a b (set_index (as_index st + 2) st) = Inr st'"
    by (auto simp: two_values_def split: option.splits)
  from act_index[of "act a", OF this assms] show "as_index st \<le> as_index st'" by simp
qed

lemma forward_bind_field:
  assumes "\<And>v st st'. f v st = Inr st' \<Longrightarrow> as_index st \<le> as_index st'"
  shows "forward (\<lambda>st. res_bind (g st) (\<lambda>v. f v st))"
  using assms by (auto simp: forward_def res_bind_eq_Inr)

lemma forward_options:
  "forward (opt_output env argv)" "forward (opt_log_file env argv)" "forward (opt_hostname env argv)"
  "forward (opt_user env argv)" "forward (opt_arch env argv)" "forward (opt_qemu_path env argv)"
  "forward (opt_pid_file env argv)" "forward (opt_timeout env argv)" "forward (opt_hidepid env argv)"
  "forward (opt_oom_score env argv)" "forward (opt_join_ns env argv)" "forward (opt_limit env argv)"
  "forward (opt_work_dir env argv)" "forward (opt_mask_path env argv)" "forward (opt_deny_syscall env argv)"
  "forward (opt_env env argv)" "forward (opt_mount env argv)" "forward (opt_ro_mount env argv)"
  "forward (opt_timens env argv)" "forward (opt_keep env argv)" "forward (opt_drop direct env argv)"
  unfolding option_defs
  by (intro forward_values forward_two_values forwardI;
      auto simp: forward_def res_bind_eq_Inr set_field_Inr split: if_splits prod.splits)+

lemma forward_other_options:
  "forward (opt_char_dev detect env argv)" "forward (opt_config env argv)"
  "forward (bsd_deny_syscall env argv)" "forward (opt_umount env argv)" "forward (opt_strict_mode env argv)"
proof -
  show "forward (opt_char_dev detect env argv)"
    by (rule forwardI)
       (auto simp: opt_char_dev_def Let_def res_bind_eq_Inr set_field_Inr split: option.splits if_splits)
  show "forward (opt_config env argv)"
    by (rule forwardI) (auto simp: opt_config_def use_arg_Inr res_bind_eq_Inr split: if_splits)
  show "forward (bsd_deny_syscall env argv)"
    using forward_options(15)[of env argv] by (auto simp: forward_def bsd_deny_syscall_def)
  show "forward (opt_umount env argv)" by (auto simp: forward_def opt_umount_def)
  show "forward (opt_strict_mode env argv)" by (auto simp: forward_def opt_strict_mode_def set_field_Inr)
qed

lemma flag_action_index: "flag_action c = Some f \<Longrightarrow> \<forall>st. as_index (f st) = as_index st"
  by (auto simp: flag_action_def split: if_splits)

lemma long_flag_action: "long_flag names s = Some f \<Longrightarrow> \<exists>c. flag_action c = Some f"
  by (induction names s rule: long_flag.induct) (auto split: if_splits)

lemma forward_set: "forward (\<lambda>st. set_field f st)" "forward (\<lambda>st. Inr (st\<lparr>even_unstable := b\<rparr>))"
  by (auto simp: forward_def set_field_Inr)

lemma forward_long_only:
  assumes "long_only_flag s = Some h"
  shows "forward (h env argv)"
  using assms unfolding long_only_flag_def
  by (elim select_chain[where Q = "\<lambda>h. forward (h env argv)"])
     (simp_all add: forward_set forward_actions forward_other_options)

lemma forward_long_value:
  assumes "long_value s = Some h"
  shows "forward (h env argv)"
  using assms unfolding long_value_def
  by (elim select_chain[where Q = "\<lambda>h. forward (h env argv)"])
     (simp_all add: forward_options forward_other_options)

lemma forward_long_option: "long_option s = Some h \<Longrightarrow> forward (h env argv)"
  by (auto simp: long_option_def forward_long_only forward_long_value split: option.splits)
     (auto simp: forward_def dest!: long_flag_action flag_action_index)

lemma forward_bsd_value:
  assumes "bsd_value c = Some h"
  shows "forward (h env argv)"
  using assms
proof (rule bsd_value_cases)
  assume "bsd_value_names c = Some h"
  then show ?thesis unfolding bsd_value_names_def
    by (elim select_chain[where Q = "\<lambda>h. forward (h env argv)"]) (simp_all add: forward_options forward_other_options)
next
  assume "bsd_value_pairs c = Some h"
  then show ?thesis unfolding bsd_value_pairs_def
    by (elim select_chain[where Q = "\<lambda>h. forward (h env argv)"]) (simp_all add: forward_options forward_other_options)
next
  assume "bsd_value_limits c = Some h"
  then show ?thesis unfolding bsd_value_limits_def
    by (elim select_chain[where Q = "\<lambda>h. forward (h env argv)"]) (simp_all add: forward_options forward_other_options)
qed

lemma forward_bsd_switch: "forward (bsd_switch c is_last env argv)"
proof (cases "flag_action c")
  case (Some f)
  then show ?thesis using flag_action_index[OF Some] by (simp add: forward_def bsd_switch_def)
next
  case None
  show ?thesis
  proof (cases "bsd_value c")
    case None
    then show ?thesis using \<open>flag_action c = None\<close>
      by (auto simp: forward_def bsd_switch_def set_field_Inr split: if_splits)
  next
    case (Some h)
    then show ?thesis using \<open>flag_action c = None\<close> forward_bsd_value[OF Some, of env argv]
      by (auto simp: forward_def bsd_switch_def set_field_Inr split: if_splits)
  qed
qed

lemma forward_command: "forward (take_command env argv)" "forward (take_container_dir s env argv)"
  by (auto simp: forward_def take_command_def take_container_dir_def Let_def split: if_splits option.splits)

lemma arg_chain_cases:
  assumes "arg_chain env argv st = Inr st'"
  obtains h s where "s \<in> set argv" "long_option s = Some h" "h env argv st = Inr st'"
  | "take_command env argv st = Inr st'"
  | s where "take_container_dir s env argv st = Inr st'"
  | s where "argv_at argv (as_index st) = Some s" "bsd_loop env argv (tl s) st = Inr st'"
proof -
  obtain s where s: "argv_at argv (as_index st) = Some s"
    using assms by (auto simp: arg_chain_def use_arg_Inr)
  then have "s \<in> set argv" by (auto simp: argv_at_def split: if_splits)
  then show thesis
    using assms s that by (auto simp: arg_chain_def use_arg_Inr split: option.splits if_splits)
qed

locale step_relation =
  fixes R :: "args_state \<Rightarrow> args_state \<Rightarrow> bool" and env :: args_env and argv :: argv
  assumes refl: "R st st"
    and trans: "R st st1 \<Longrightarrow> R st1 st2 \<Longrightarrow> R st st2"
    and index: "as_index st \<le> i \<Longrightarrow> R st (set_index i st)"
    and long: "s \<in> set argv \<Longrightarrow> long_option s = Some h \<Longrightarrow> keeps_rel R (h env argv)"
    and bsd: "keeps_rel R (bsd_switch c is_last env argv)"
    and config: "keeps_rel R (opt_config env argv)"
    and command: "keeps_rel R (take_command env argv)"
    and directory: "keeps_rel R (take_container_dir s env argv)"
begin

lemma bsd_loop: "bsd_loop env argv cs st = Inr st' \<Longrightarrow> R st st'"
proof (induction cs arbitrary: st)
  case Nil
  then show ?case using refl by simp
next
  case (Cons c cs)
  then obtain st1 where 1: "bsd_switch c (cs = []) env argv st = Inr st1"
    and 2: "st' = st1 \<or> bsd_loop env argv cs st1 = Inr st'"
    by (auto simp: res_bind_eq_Inr use_arg_Inr split: if_splits)
  have "R st st1" using 1 bsd by (simp add: keeps_rel_def)
  then show ?case using 2 Cons.IH[of st1] trans by blast
qed

lemma chain: "arg_chain env argv st = Inr st' \<Longrightarrow> R st st'"
  by (erule arg_chain_cases) (use long command directory bsd_loop in \<open>auto simp: keeps_rel_def\<close>)

lemma turn: "arg_step env argv st = Inr (st', stop) \<Longrightarrow> R st st'"
proof -
  assume "arg_step env argv st = Inr (st', stop)"
  then obtain st1 where 1: "st1 = st \<or> opt_config env argv st = Inr st1"
    and 2: "st' = st1 \<or> arg_chain env argv st1 = Inr st'"
    by (auto simp: arg_step_def use_arg_Inr res_bind_eq_Inr split: if_splits)
  have "R st st1" using 1 config refl by (auto simp: keeps_rel_def)
  moreover have "R st1 st'" using 2 chain refl by blast
  ultimately show ?thesis by (rule trans)
qed

end

interpretation fwd: step_relation index_le env argv for env argv
  by unfold_locales (simp_all add: forward_long_option forward_bsd_switch forward_other_options forward_command)

lemma arg_step_index: "arg_step env argv st = Inr (st', stop) \<Longrightarrow> as_index st \<le> as_index st'"
  by (rule fwd.turn)

section \<open>The loop over argv\<close>

function args_loop :: "args_env \<Rightarrow> argv \<Rightarrow> args_state \<Rightarrow> args_state result" where
  "args_loop env argv st =
     (if as_index st < length argv then
        (case arg_step env argv st of
           Inl e \<Rightarrow> Inl e
         | Inr (st', stop) \<Rightarrow>
             if stop then Inr st' else args_loop env argv (set_index (as_index st' + 1) st'))
      else Inr st)"
  by pat_completeness auto
termination
  by (relation "measure (\<lambda>(env, argv, st). length argv - as_index st)")
     (auto dest: arg_step_index simp: less_eq_Suc_le)

declare args_loop.simps [simp del]

context step_relation
begin

lemma loop: "args_loop env argv st = Inr st' \<Longrightarrow> R st st'"
proof (induction "length argv - as_index st" arbitrary: st rule: less_induct)
  case less
  show ?case
  proof (cases "as_index st < length argv")
    case False
    then show ?thesis using less.prems refl by (simp add: args_loop.simps[of env argv st])
  next
    case True
    then obtain st1 stop where step: "arg_step env argv st = Inr (st1, stop)"
      using less.prems by (auto simp: args_loop.simps[of env argv st] split: sum.splits)
    let ?next = "set_index (as_index st1 + 1) st1"
    have r: "R st st1" by (rule turn[OF step])
    have le: "as_index st \<le> as_index st1" by (rule arg_step_index[OF step])
    show ?thesis
    proof (cases stop)
      case True
      then show ?thesis using less.prems step r \<open>as_index st < length argv\<close>
        by (simp add: args_loop.simps[of env argv st])
    next
      case False
      then have "args_loop env argv ?next = Inr st'"
        using less.prems step \<open>as_index st < length argv\<close> by (simp add: args_loop.simps[of env argv st])
      moreover have "length argv - as_index ?next < length argv - as_index st"
        using le \<open>as_index st < length argv\<close> by simp
      ultimately have "R ?next st'" using less.hyps by blast
      moreover have "R st1 ?next" by (rule index) simp
      ultimately show ?thesis using trans[OF r] trans by blast
    qed
  qed
qed

end

definition initial_args :: "ruri_container \<Rightarrow> args_state" where
  "initial_args c =
     \<lparr>as_index = 1, as_container = c, even_unstable = False, fork_exec = False, dump_config = False,
      output_path = None, keep_extra = ruri_init_value # replicate ruri_cap_last_cap 0,
      drop_extra = ruri_init_value # replicate ruri_cap_last_cap 0, privileged = False,
      use_config_file = False, background = False, log_file = None, force_panic = False\<rparr>"

section \<open>After the loop\<close>

definition rurienv_of :: "args_env \<Rightarrow> rurienv_env" where
  "rurienv_of env = \<lparr>re_kernel = ae_kernel env, re_now = ae_now env, re_heap = ae_heap env,
     re_content = file_content env, re_readlink = readlink_of env, re_opens = path_opens env,
     re_cap_from_name = libcap_from_name env\<rparr>"

text \<open>Going to the background: the processes the program forked off end, the one
  that goes on is the model's.\<close>

definition go_background :: "args_env \<Rightarrow> args_state \<Rightarrow> unit result" where
  "go_background env st =
     (if background st then
        (case log_file st of
           None \<Rightarrow> Inr ()
         | Some f \<Rightarrow> if path_opens env f then Inr ()
                     else Inl (Fatal ''Error: failed to open log file QwQ''))
      else Inr ())"

definition dump_and_exit :: "args_env \<Rightarrow> args_state \<Rightarrow> ruri_container \<Rightarrow> ruri_container result" where
  "dump_and_exit env st c =
     (case container_dir c of
        None \<Rightarrow> Inl (Fatal ''Error: container directory is not set or does not exist QwQ'')
      | Some d \<Rightarrow>
          if d = ''/'' then Inl (Fatal ''Error: / is not allowed to use as a container directory QwQ'')
          else (case output_path st of
              None \<Rightarrow> Inl (Exited (ruri_container_info_to_k2v (self_exe env) (libcap_to_name env) c))
            | Some f \<Rightarrow>
                if path_opens env f
                then Inl (Exited (ruri_container_info_to_k2v (self_exe env) (libcap_to_name env) c))
                else Inl (Fatal ''Error: failed to open output file QwQ'')))"

definition finish_args :: "args_env \<Rightarrow> args_state \<Rightarrow> ruri_container result" where
  "finish_args env st =
     (if systemd_mode (as_container st) \<and> \<not> even_unstable st
      then Inl (Fatal ''Error: systemd mode is very unstable, you must enable --even-unstable to use it'')
      else res_bind (go_background env st)
        (\<lambda>_. case ruri_build_caplist (ae_kernel env) (drop_caplist (as_container st)) (privileged st)
                    (drop_extra st) (keep_extra st) of
           None \<Rightarrow> Inl out_of_bounds
         | Some caps \<Rightarrow>
             (let c = (as_container st)\<lparr>drop_caplist := caps\<rparr> in
              if dump_config st then dump_and_exit env st c
              else res_bind (ruri_get_ns_pid (use_config_file st) (rurienv_of env) (container_dir c))
                (\<lambda>p. Inr (if p > 0 then c\<lparr>enable_unshare := True\<rparr> else c)))))"

definition parse_args :: "args_env \<Rightarrow> argv \<Rightarrow> ruri_container result" where
  "parse_args env argv =
     (if length argv \<le> 1 then Inl (Fatal ''Error: too few arguments QwQ'')
      else (case ruri_init_config (ae_kernel env) (ae_now env) (ae_heap env) of
          None \<Rightarrow> Inl out_of_bounds
        | Some c \<Rightarrow> res_bind (args_loop env argv (initial_args c)) (finish_args env)))"

section \<open>Checks before the container runs\<close>

record process_ids =
  ruid :: int
  euid :: int
  rgid :: int
  egid :: int

text \<open>The two loops over the mount points.\<close>

fun paths_fit :: "string list \<Rightarrow> bool" where
  "paths_fit [] = True"
| "paths_fit (p # ps) = (if length p > path_max then False else paths_fit ps)"

definition check_container :: "process_ids \<Rightarrow> ruri_container \<Rightarrow> unit result" where
  "check_container ids c =
     (case container_dir c of
        None \<Rightarrow> Inl (Fatal ''Error: container directory is not set or does not exist QwQ'')
      | Some d \<Rightarrow>
          if d = ''/'' then Inl (Fatal ''Error: / is not allowed to use as a container directory QwQ'')
          else if rootless c \<and> (euid ids = 0 \<or> ruid ids = 0 \<or> rgid ids = 0 \<or> egid ids = 0)
            then Inl (Fatal ''Error: rootless container should not be run with root privileges QwQ'')
          else if (cross_arch c = None) \<noteq> (qemu_path c = None)
            then Inl (Fatal ''Error: --arch and --qemu-path should be set at the same time QwQ'')
          else if \<not> paths_fit (extra_mountpoint c) then Inl (Fatal ''Error: mountpoint path is too long QwQ'')
          else if \<not> paths_fit (extra_ro_mountpoint c) then Inl (Fatal ''Error: mountpoint path is too long QwQ'')
          else if systemd_mode c \<and> mount_host_runtime c
            then Inl (Fatal ''Error: --systemd should not run with --mount-host-runtime QwQ'')
          else Inr ())"

datatype run_mode = Run_unshare | Run_rootless | Run_chroot

text \<open>The body of ruri(): the arguments, the detection of rootless mode, the checks,
  and which of the three ways to run the container is taken.\<close>

definition ruri_main :: "args_env \<Rightarrow> process_ids \<Rightarrow> argv \<Rightarrow> (ruri_container \<times> run_mode) result" where
  "ruri_main env ids argv = res_bind (parse_args env argv)
     (\<lambda>c. let c' = (if euid ids \<noteq> 0 then c\<lparr>rootless := True\<rparr> else c) in
       res_bind (check_container ids c')
         (\<lambda>_. Inr (c', if enable_unshare c' \<and> \<not> rootless c' then Run_unshare
                       else if rootless c' then Run_rootless else Run_chroot)))"

end
