(* ===== verification/Args_Props.thy ===== *)
theory Args_Props
  imports Args
begin

text \<open>
  The properties of the command line.  \<open>arrays_ok\<close> is the well-formedness of the
  container's arrays; with the gate of systemd mode it is a relation every option
  keeps, and the locale \<open>step_relation\<close> of Args carries it through the loop.  The
  sample run at the end of the lemmas is the witness of the properties that follow.
\<close>

section \<open>What every run keeps\<close>

text \<open>The arrays of a container: pairs and triples are complete, and each array has
  room for the NULL (for pairs, the two NULLs) that ends it.\<close>

definition arrays_ok :: "ruri_container \<Rightarrow> bool" where
  "arrays_ok c =
    (length (command c) \<le> ruri_max_commands \<and>
     even (length (env_list c)) \<and> length (env_list c) \<le> ruri_max_envs \<and>
     even (length (extra_mountpoint c)) \<and> length (extra_mountpoint c) \<le> ruri_max_mountpoints \<and>
     even (length (extra_ro_mountpoint c)) \<and> length (extra_ro_mountpoint c) \<le> ruri_max_mountpoints \<and>
     length (masked_path c) < ruri_max_mountpoints + 2 \<and>
     3 dvd length (char_devs c) \<and> length (char_devs c) < ruri_max_char_devs \<and>
     length (seccomp_denied_syscall c) < ruri_max_seccomp_denied_syscall)"

abbreviation sound_step :: "args_state \<Rightarrow> args_state \<Rightarrow> bool" where
  "sound_step st st' \<equiv> even_unstable st' = even_unstable st \<and>
     (arrays_ok (as_container st) \<longrightarrow> arrays_ok (as_container st'))"

abbreviation sound :: "(args_state \<Rightarrow> args_state result) \<Rightarrow> bool" where
  "sound h \<equiv> keeps_rel sound_step h"

lemmas limit_defs = ruri_max_commands_def ruri_max_envs_def ruri_max_mountpoints_def
  ruri_max_char_devs_def ruri_max_seccomp_denied_syscall_def

lemma gate_simps [simp]:
  "even_unstable (set_index i st) = even_unstable st" "even_unstable (upd_container f st) = even_unstable st"
  by (simp_all add: set_index_def upd_container_def)

lemma sound_values:
  assumes "\<And>s. sound (act s)"
  shows "sound (value_checked msg act env argv)" "sound (value_late msg act env argv)"
    "sound (value_tested msg act env argv)" "sound (value_plain act env argv)"
  using assms by (fastforce simp: keeps_rel_def handler_defs use_arg_Inr split: if_splits option.splits)+

lemma sound_two_values:
  assumes "\<And>a b. sound (act a b)"
  shows "sound (two_values msg act env argv)"
  using assms by (fastforce simp: keeps_rel_def two_values_def split: option.splits)

lemma sound_field: "(\<And>c. arrays_ok c \<Longrightarrow> arrays_ok (f c)) \<Longrightarrow> sound (set_field f)"
  by (auto simp: keeps_rel_def set_field_Inr)

lemma append_strings_Inr: "append_strings limit cells msg vs old = Inr l \<longleftrightarrow>
    length old < limit \<and> length old + length vs + 1 \<le> cells \<and> l = old @ vs"
  by (auto simp: append_strings_def)

lemma cgroup_settings_arrays:
  "parse_cgroup_settings s c = Inr c' \<Longrightarrow> arrays_ok c' = arrays_ok c"
  by (auto simp: parse_cgroup_settings_def arrays_ok_def split: prod.splits option.splits if_splits)

lemma sound_fields [simp]:
  "sound (set_field (hostname_update u))" "sound (set_field (user_update u))"
  "sound (set_field (cross_arch_update u))" "sound (set_field (qemu_path_update u))"
  "sound (set_field (pid_file_update u))" "sound (set_field (work_dir_update u))"
  "sound (set_field (timeout_update i))" "sound (set_field (hidepid_update i))"
  "sound (set_field (oom_score_adj_update i))" "sound (set_field (ns_pid_update i))"
  "sound (\<lambda>st. Inl e)" "sound Inr"
  by ((rule sound_field, simp add: arrays_ok_def) | simp add: keeps_rel_def)+

lemma sound_options:
  "sound (opt_output env argv)" "sound (opt_log_file env argv)" "sound (opt_hostname env argv)"
  "sound (opt_user env argv)" "sound (opt_arch env argv)" "sound (opt_qemu_path env argv)"
  "sound (opt_pid_file env argv)" "sound (opt_hidepid env argv)" "sound (opt_work_dir env argv)"
  "sound (opt_oom_score env argv)" "sound (opt_join_ns env argv)"
  unfolding option_defs
  by ((rule sound_values, simp) | (auto simp: keeps_rel_def)[1])+

lemma sound_timeout: "sound (opt_timeout env argv)"
  unfolding opt_timeout_def
  by (rule sound_values) (auto simp: keeps_rel_def set_field_Inr arrays_ok_def split: prod.splits if_splits)

lemma sound_limit: "sound (opt_limit env argv)"
  unfolding opt_limit_def
  by (rule sound_values) (auto simp: keeps_rel_def res_bind_eq_Inr cgroup_settings_arrays)

lemma sound_appends:
  "sound (opt_mask_path env argv)" "sound (opt_deny_syscall env argv)"
  "sound (opt_env env argv)" "sound (opt_mount env argv)" "sound (opt_ro_mount env argv)"
  unfolding opt_mask_path_def opt_deny_syscall_def opt_env_def opt_mount_def opt_ro_mount_def
  by (rule sound_values sound_two_values, (auto simp: keeps_rel_def res_bind_eq_Inr set_field_Inr
      append_strings_Inr arrays_ok_def limit_defs elim!: evenE split: if_splits)[1])+

lemma arrays_ok_add_dev:
  "arrays_ok c \<Longrightarrow> \<not> length (char_devs c) + 4 > ruri_max_char_devs \<Longrightarrow>
   arrays_ok (c\<lparr>char_devs := char_devs c @ [a, b, d]\<rparr>)"
  by (auto simp: arrays_ok_def limit_defs) presburger

lemma sound_char_dev: "sound (opt_char_dev detect env argv)"
proof (rule keeps_relI)
  fix st st' assume "opt_char_dev detect env argv st = Inr st'"
  then obtain dev j n where "st' = upd_container (char_devs_update (\<lambda>_. char_devs (as_container st) @ [dev, j, n]))
      (set_index (as_index st + 3) st)" "\<not> length (char_devs (as_container st)) + 4 > ruri_max_char_devs"
    by (auto simp: opt_char_dev_def Let_def res_bind_eq_Inr set_field_Inr split: option.splits if_splits)
  then show "sound_step st st'" using arrays_ok_add_dev[of "as_container st"] by simp
qed

lemma sound_caps: "sound (opt_keep env argv)" "sound (opt_drop direct env argv)"
  unfolding opt_keep_def opt_drop_def
  by (rule sound_values, (auto simp: keeps_rel_def res_bind_eq_Inr)[1])+

lemma sound_timens: "sound (opt_timens env argv)"
  unfolding opt_timens_def by (rule sound_two_values, rule sound_field) (simp add: arrays_ok_def)

definition keeps_arrays :: "config_step \<Rightarrow> bool" where
  "keeps_arrays f = (\<forall>d c'. arrays_ok d \<longrightarrow> f d = Inr c' \<longrightarrow> arrays_ok c')"

lemma keeps_arrays_reads:
  "(\<And>d. arrays_ok d \<Longrightarrow> \<forall>x. arrays_ok (upd (\<lambda>_. x) d)) \<Longrightarrow> keeps_arrays (read_bool cache k upd)"
  "(\<And>d. arrays_ok d \<Longrightarrow> \<forall>x. arrays_ok (updc (\<lambda>_. x) d)) \<Longrightarrow> keeps_arrays (read_char cache k updc)"
  "(\<And>d. arrays_ok d \<Longrightarrow> \<forall>x. arrays_ok (updi (\<lambda>_. x) d)) \<Longrightarrow> keeps_arrays (read_int cache k updi)"
  "(\<And>d. arrays_ok d \<Longrightarrow> \<forall>x. arrays_ok (updi (\<lambda>_. x) d)) \<Longrightarrow> keeps_arrays (read_long cache k updi)"
  "(\<And>d. arrays_ok d \<Longrightarrow> \<forall>vs. length vs + terms \<le> cells \<longrightarrow> length vs mod grp = 0 \<longrightarrow> arrays_ok (upda (\<lambda>_. vs) d)) \<Longrightarrow>
     keeps_arrays (read_array cache k lim cells terms grp msg upda)"
  "keeps_arrays (read_caps cfn cache)"
  by (auto simp: keeps_arrays_def read_bool_def read_char_def read_int_def read_long_def
      read_array_def read_caps_def res_bind_eq_Inr arrays_ok_def split: if_splits)

lemma keeps_arrays_user: "keeps_arrays (read_user cache)"
  by (auto simp: keeps_arrays_def read_user_def read_char_def res_bind_eq_Inr arrays_ok_def split: if_splits)

lemma keeps_arrays_arrays:
  "keeps_arrays (read_array cache k lim (ruri_max_envs + 2) 2 2 msg env_list_update)"
  "keeps_arrays (read_array cache k lim (ruri_max_mountpoints + 2) 2 2 msg extra_mountpoint_update)"
  "keeps_arrays (read_array cache k lim (ruri_max_mountpoints + 2) 2 2 msg extra_ro_mountpoint_update)"
  "keeps_arrays (read_array cache k lim ruri_max_char_devs 1 3 msg char_devs_update)"
  "keeps_arrays (read_array cache k lim ruri_max_seccomp_denied_syscall 1 1 msg seccomp_denied_syscall_update)"
  "keeps_arrays (read_array cache k lim (ruri_max_mountpoints + 2) 1 1 msg masked_path_update)"
  "keeps_arrays (read_array cache k lim (ruri_max_commands + 1) 1 1 msg command_update)"
  by (rule keeps_arrays_reads(5), auto simp: arrays_ok_def even_iff_mod_2_eq_zero dvd_eq_mod_eq_0)+

lemma keeps_arrays_fields:
  "keeps_arrays (read_bool cache k no_new_privs_update)" "keeps_arrays (read_bool cache k enable_default_seccomp_update)"
  "keeps_arrays (read_bool cache k enable_seccomp_whitelist_update)" "keeps_arrays (read_bool cache k rootless_update)"
  "keeps_arrays (read_bool cache k mount_host_runtime_update)" "keeps_arrays (read_bool cache k ro_root_update)"
  "keeps_arrays (read_bool cache k no_warnings_update)" "keeps_arrays (read_bool cache k use_rurienv_update)"
  "keeps_arrays (read_bool cache k just_chroot_update)" "keeps_arrays (read_bool cache k unmask_dirs_update)"
  "keeps_arrays (read_bool cache k no_network_update)" "keeps_arrays (read_bool cache k use_kvm_update)"
  "keeps_arrays (read_bool cache k skip_setgroups_update)" "keeps_arrays (read_bool cache k enable_tty_signals_update)"
  "keeps_arrays (read_bool cache k systemd_mode_update)" "keeps_arrays (read_char cache k container_dir_update)"
  "keeps_arrays (read_char cache k qemu_path_update)" "keeps_arrays (read_char cache k cross_arch_update)"
  "keeps_arrays (read_char cache k cpuset_update)" "keeps_arrays (read_char cache k memory_update)"
  "keeps_arrays (read_char cache k work_dir_update)" "keeps_arrays (read_char cache k rootfs_source_update)"
  "keeps_arrays (read_char cache k hostname_update)" "keeps_arrays (read_int cache k cpupercent_update)"
  "keeps_arrays (read_int cache k hidepid_update)" "keeps_arrays (read_int cache k oom_score_adj_update)"
  "keeps_arrays (read_long cache k timens_realtime_offset_update)"
  "keeps_arrays (read_long cache k timens_monotonic_offset_update)"
  by (rule keeps_arrays_reads, simp add: arrays_ok_def)+

lemma config_steps_arrays: "\<forall>f \<in> set (config_steps cfn cache). keeps_arrays f"
  by (simp add: config_steps_def keeps_arrays_reads(6) keeps_arrays_user keeps_arrays_arrays[simplified] keeps_arrays_fields)

lemma read_config_arrays:
  assumes "ruri_read_config cfn c content = Inr c'" "arrays_ok c"
  shows "arrays_ok c'"
proof -
  have "arrays_ok c'" if "foldl res_bind (Inr c) fs = Inr c'" "set fs \<subseteq> set (config_steps cfn cache)" "arrays_ok c"
    for fs cache c
    using that
  proof (induction fs arbitrary: c)
    case (Cons f fs)
    obtain d where "f c = Inr d" using Cons.prems(1) by (cases "f c") (auto simp: foldl_res_bind_Inl)
    then show ?case using Cons config_steps_arrays[of cfn cache] by (auto simp: keeps_arrays_def)
  qed simp
  then show ?thesis using assms
    by (fastforce simp: ruri_read_config_def res_bind_eq_Inr split: option.splits prod.splits)
qed

lemma sound_config: "sound (opt_config env argv)"
  by (auto simp: keeps_rel_def opt_config_def use_arg_Inr res_bind_eq_Inr read_config_arrays split: if_splits)

lemma sound_deny: "sound (bsd_deny_syscall env argv)" "sound (opt_umount env argv)"
  "sound (opt_strict_mode env argv)" "sound (set_field (no_network_update b))"
  using sound_appends(2)[of env argv]
  by (auto simp: keeps_rel_def bsd_deny_syscall_def opt_umount_def opt_strict_mode_def set_field_Inr
      arrays_ok_def)

lemmas sound_all = sound_options sound_timeout sound_limit sound_appends sound_char_dev sound_caps
  sound_timens sound_config sound_deny sound_fields

lemma sound_flag:
  assumes "flag_action c = Some f"
  shows "sound_step st (f st)"
  using assms unfolding flag_action_def
  by (elim select_chain[where Q = "\<lambda>f. sound_step st (f st)"]) (simp_all add: arrays_ok_def)

lemma sound_long_only:
  assumes "long_only_flag s = Some h"
  shows "sound (h env argv) \<or> s = ''--even-unstable'' \<and> (\<forall>st st'. h env argv st = Inr st' \<longrightarrow>
    as_container st' = as_container st)"
proof (cases "s = ''--even-unstable''")
  case True
  then show ?thesis using assms by (simp add: long_only_flag_def) auto
next
  case False
  have n: "sound (set_field (no_network_update b \<circ> enable_unshare_update b))"
    "sound (set_field (auto_umount_update b))" "sound (set_field (is_health_check_update b))"
    "sound (set_field (enable_seccomp_whitelist_update b))" "sound (set_field (fork_as_init_update b))" for b
    by ((rule sound_field)?, simp add: arrays_ok_def)+
  have "long_only_flag s = Some h \<Longrightarrow> s \<noteq> ''--even-unstable'' \<longrightarrow> sound (h env argv)"
    unfolding long_only_flag_def
    by (elim select_chain_if[where Q = "\<lambda>h. s \<noteq> ''--even-unstable'' \<longrightarrow> sound (h env argv)"])
       (simp_all add: sound_all n)
  then show ?thesis using assms False by simp
qed

lemma sound_long_value:
  assumes "long_value s = Some h"
  shows "sound (h env argv)"
  using assms unfolding long_value_def
  by (elim select_chain[where Q = "\<lambda>h. sound (h env argv)"]) (simp_all add: sound_all)

lemma sound_bsd_value:
  assumes "bsd_value c = Some h"
  shows "sound (h env argv)"
  using assms
proof (rule bsd_value_cases)
  assume "bsd_value_names c = Some h"
  then show ?thesis unfolding bsd_value_names_def
    by (elim select_chain[where Q = "\<lambda>h. sound (h env argv)"]) (simp_all add: sound_all)
next
  assume "bsd_value_pairs c = Some h"
  then show ?thesis unfolding bsd_value_pairs_def
    by (elim select_chain[where Q = "\<lambda>h. sound (h env argv)"]) (simp_all add: sound_all)
next
  assume "bsd_value_limits c = Some h"
  then show ?thesis unfolding bsd_value_limits_def
    by (elim select_chain[where Q = "\<lambda>h. sound (h env argv)"]) (simp_all add: sound_all)
qed

lemma sound_bsd_switch: "sound (bsd_switch c is_last env argv)"
proof (rule keeps_relI)
  fix st st' assume r: "bsd_switch c is_last env argv st = Inr st'"
  show "sound_step st st'"
  proof (cases "flag_action c")
    case (Some f)
    then show ?thesis using r sound_flag[OF Some, of st] by (simp add: bsd_switch_def)
  next
    case None
    then have "set_field (no_network_update (\<lambda>_. True)) st = Inr st' \<or>
        (\<exists>h. bsd_value c = Some h \<and> h env argv st = Inr st')"
      using r by (auto simp: bsd_switch_def split: option.splits if_splits)
    then show ?thesis using sound_bsd_value[of c _ env argv] sound_deny(4)
      by (auto simp: keeps_rel_def)
  qed
qed

lemma sound_command: "sound (take_command env argv)" "sound (take_container_dir s env argv)"
  by (auto simp: keeps_rel_def take_command_def take_container_dir_def Let_def arrays_ok_def
      split: if_splits option.splits)

text \<open>The relation between the states before and after: the gate for systemd mode is
  opened by its own option only, and the arrays stay well formed.\<close>

abbreviation run_step :: "argv \<Rightarrow> args_state \<Rightarrow> args_state \<Rightarrow> bool" where
  "run_step argv st st' \<equiv> (even_unstable st' \<longrightarrow> even_unstable st \<or> ''--even-unstable'' \<in> set argv) \<and>
     (arrays_ok (as_container st) \<longrightarrow> arrays_ok (as_container st'))"

lemma sound_run: "sound h \<Longrightarrow> keeps_rel (run_step argv) h"
  by (auto simp: keeps_rel_def)

lemma run_long:
  assumes "s \<in> set argv" "long_option s = Some h"
  shows "keeps_rel (run_step argv) (h env argv)"
proof (cases "long_flag long_flag_names s")
  case (Some f)
  then obtain c where "flag_action c = Some f" using long_flag_action by blast
  then show ?thesis using assms(2) Some sound_flag[of c f]
    by (auto simp: long_option_def keeps_rel_def)
next
  case None
  then consider "long_only_flag s = Some h" | "long_value s = Some h"
    using assms(2) by (auto simp: long_option_def split: option.splits)
  then show ?thesis
  proof cases
    case 1
    then show ?thesis using sound_long_only[OF 1, of env argv] assms(1) sound_run
      by (auto simp: keeps_rel_def)
  next
    case 2
    then show ?thesis by (intro sound_run sound_long_value)
  qed
qed

interpretation run: step_relation "run_step argv" env argv for env argv
  by unfold_locales
     (auto simp: run_long sound_run sound_bsd_switch sound_config sound_command)

section \<open>A sample run\<close>

definition sample_args_env :: args_env where
  "sample_args_env = \<lparr>ae_kernel = sample_kernel, ae_now = 0, ae_heap = sample_container,
     path_kind_of = (\<lambda>p. if p = ''/ct'' then Directory else Missing), realpath = Some,
     file_content = (\<lambda>p. None), host_char_dev = (\<lambda>p. None), libcap_from_name = sample_cap_value,
     libcap_to_name = sample_cap_name, strtof_ns = (\<lambda>s. (0, s)), readlink_of = sample_readlink,
     path_opens = (\<lambda>p. True), self_exe = None\<rparr>"

definition sample_argv :: argv where
  "sample_argv = [''ruri'', ''--even-unstable'', ''-yp'', ''-i'', ''2'', ''/ct'', ''/bin/sh'']"

lemma init_config_total:
  assumes "0 \<le> get_last_cap kern" "get_last_cap kern < int ruri_cap_last_cap"
  shows "\<exists>c. ruri_init_config kern now h = Some c \<and> length (drop_caplist c) = ruri_cap_last_cap + 1"
proof -
  let ?list = "replicate (ruri_cap_last_cap + 1) ruri_init_value"
  have "\<exists>t. ruri_build_caplist kern ?list False empty_caplist empty_caplist = Some t \<and>
      caplist_wf (get_last_cap kern) t"
    using build_caplist_spec[OF assms, of ?list empty_caplist empty_caplist False] empty_caplist_facts
    by auto
  moreover have "ruri_build_caplist kern ?list False [ruri_init_value, 0] [ruri_init_value, 0]
      = ruri_build_caplist kern ?list False empty_caplist empty_caplist"
    by (simp add: ruri_build_caplist_def arr_get_def empty_caplist_def)
  ultimately show ?thesis by (auto simp: ruri_init_config_def caplist_wf_def)
qed

lemma init_config_fields:
  assumes "ruri_init_config kern now h = Some c"
  shows "\<not> rootless c" "cross_arch c = None" "qemu_path c = None" "extra_mountpoint c = []"
    "extra_ro_mountpoint c = []" "\<not> mount_host_runtime c" "arrays_ok c"
  using assms by (auto simp: ruri_init_config_def Option.bind_eq_Some_conv arrays_ok_def limit_defs)

lemmas turn_defs = arg_step_def arg_chain_def use_arg_def argv_at_def info_option_def long_option_def
  long_flag_names_def long_only_flag_def long_value_def ch_at_def handler_defs set_field_def

lemmas letter_defs = bsd_switch_def flag_action_def bsd_value_def bsd_value_defs

lemma sample_env_simps:
  "path_kind_of sample_args_env p = (if p = ''/ct'' then Directory else Missing)"
  "realpath sample_args_env = Some" "file_content sample_args_env p = None"
  "ae_kernel sample_args_env = sample_kernel" "length sample_argv = 7"
  "ae_now sample_args_env = 0" "ae_heap sample_args_env = sample_container"
  "sample_argv = [''ruri'', ''--even-unstable'', ''-yp'', ''-i'', ''2'', ''/ct'', ''/bin/sh'']"
  by (simp_all add: sample_args_env_def sample_argv_def)

lemma sample_turns:
  assumes "\<not> use_config_file st"
  shows "as_index st = 1 \<Longrightarrow> arg_step sample_args_env sample_argv st = Inr (st\<lparr>even_unstable := True\<rparr>, False)"
  "as_index st = 2 \<Longrightarrow> arg_step sample_args_env sample_argv st =
     Inr (upd_container (systemd_mode_update (\<lambda>_. True) \<circ> enable_unshare_update (\<lambda>_. True)) st\<lparr>privileged := True\<rparr>, False)"
  "as_index st = 3 \<Longrightarrow> arg_step sample_args_env sample_argv st =
     Inr (upd_container (hidepid_update (\<lambda>_. 2)) (set_index 4 st), False)"
  "as_index st = 5 \<Longrightarrow> arg_step sample_args_env sample_argv st =
     Inr (upd_container (command_update (\<lambda>_. [''/bin/sh'']))
       (set_index 7 (set_index 6 (upd_container (container_dir_update (\<lambda>_. Some ''/ct'')) st))), False)"
proof -
  have n: "atoi ''2'' = 2" by code_simp
  note a = sample_env_simps turn_defs assms
  show "as_index st = 1 \<Longrightarrow> arg_step sample_args_env sample_argv st = Inr (st\<lparr>even_unstable := True\<rparr>, False)"
    by (simp add: a)
  show "as_index st = 2 \<Longrightarrow> arg_step sample_args_env sample_argv st =
     Inr (upd_container (systemd_mode_update (\<lambda>_. True) \<circ> enable_unshare_update (\<lambda>_. True)) st\<lparr>privileged := True\<rparr>, False)"
    by (simp add: a letter_defs)
  show "as_index st = 3 \<Longrightarrow> arg_step sample_args_env sample_argv st =
     Inr (upd_container (hidepid_update (\<lambda>_. 2)) (set_index 4 st), False)"
    by (simp add: a opt_hidepid_def n)
  show "as_index st = 5 \<Longrightarrow> arg_step sample_args_env sample_argv st =
     Inr (upd_container (command_update (\<lambda>_. [''/bin/sh'']))
       (set_index 7 (set_index 6 (upd_container (container_dir_update (\<lambda>_. Some ''/ct'')) st))), False)"
    by (simp add: a take_container_dir_def take_command_def ruri_max_commands_def Let_def)
qed

lemma initial_extras:
  "caplist_wf lc (ruri_init_value # replicate ruri_cap_last_cap 0)"
  "caps_of (ruri_init_value # replicate ruri_cap_last_cap 0) = []"
  by (simp_all add: caplist_wf_def caps_of_def)

lemma sample_loop: "args_loop sample_args_env sample_argv (initial_args c) = Inr ((initial_args c)
    \<lparr>as_index := 8, even_unstable := True, privileged := True,
     as_container := c\<lparr>systemd_mode := True, enable_unshare := True, hidepid := 2,
       container_dir := Some ''/ct'', command := [''/bin/sh'']\<rparr>\<rparr>)"
  by (simp add: args_loop.simps sample_turns sample_env_simps(5) initial_args_def set_index_def upd_container_def)

lemma sample_parse: "\<exists>c. parse_args sample_args_env sample_argv = Inr c \<and> systemd_mode c \<and> hidepid c = 2 \<and>
    container_dir c = Some ''/ct'' \<and> command c = [''/bin/sh''] \<and> \<not> rootless c \<and> enable_unshare c \<and>
    cross_arch c = None \<and> qemu_path c = None \<and> extra_mountpoint c = [] \<and> extra_ro_mountpoint c = [] \<and>
    \<not> mount_host_runtime c"
proof -
  let ?e = "ruri_init_value # replicate ruri_cap_last_cap 0"
  obtain c0 where c0: "ruri_init_config sample_kernel 0 sample_container = Some c0"
    "length (drop_caplist c0) = ruri_cap_last_cap + 1"
    using init_config_total[of sample_kernel 0 sample_container] by (auto simp: sample_kernel_last ruri_cap_last_cap_def)
  have f: "\<not> rootless c0" "cross_arch c0 = None" "qemu_path c0 = None" "extra_mountpoint c0 = []"
    "extra_ro_mountpoint c0 = []" "\<not> mount_host_runtime c0"
    using init_config_fields[OF c0(1)] by simp_all
  obtain caps where caps: "ruri_build_caplist sample_kernel (drop_caplist c0) True ?e ?e = Some caps"
    using build_caplist_spec[of sample_kernel "drop_caplist c0" ?e ?e True] c0(2) initial_extras
    by (auto simp: sample_kernel_last ruri_cap_last_cap_def)
  have ns: "ruri_get_ns_pid False (rurienv_of sample_args_env) (Some ''/ct'') = Inr ruri_init_value"
    by (simp add: ruri_get_ns_pid_def rurienv_of_def sample_env_simps rurienv_path_def path_max_def k2v3_open_file_def)
  have "parse_args sample_args_env sample_argv = finish_args sample_args_env ((initial_args c0)
    \<lparr>as_index := 8, even_unstable := True, privileged := True,
     as_container := c0\<lparr>systemd_mode := True, enable_unshare := True, hidepid := 2,
       container_dir := Some ''/ct'', command := [''/bin/sh'']\<rparr>\<rparr>)"
    by (simp add: parse_args_def c0(1) sample_env_simps(4-7) sample_loop)
  then show ?thesis
    using f caps ns
    by (simp add: finish_args_def initial_args_def go_background_def sample_env_simps(4) ruri_init_value_def)
qed

section \<open>Properties\<close>

lemma parse_args_run:
  assumes "parse_args env argv = Inr c"
  obtains c0 st where "ruri_init_config (ae_kernel env) (ae_now env) (ae_heap env) = Some c0"
    "args_loop env argv (initial_args c0) = Inr st" "finish_args env st = Inr c"
  using assms by (auto simp: parse_args_def res_bind_eq_Inr split: if_splits option.splits)

lemma finish_args_result:
  assumes "finish_args env st = Inr c"
  shows "\<exists>caps u. ruri_build_caplist (ae_kernel env) (drop_caplist (as_container st)) (privileged st)
      (drop_extra st) (keep_extra st) = Some caps \<and>
    c = (as_container st)\<lparr>drop_caplist := caps, enable_unshare := u\<rparr>"
    and "systemd_mode (as_container st) \<longrightarrow> even_unstable st"
    and "enable_unshare (as_container st) \<longrightarrow> enable_unshare c"
proof -
  have d: "dump_and_exit env st x \<noteq> Inr c" for x
    by (auto simp: dump_and_exit_def split: option.splits)
  obtain caps where "ruri_build_caplist (ae_kernel env) (drop_caplist (as_container st)) (privileged st)
      (drop_extra st) (keep_extra st) = Some caps"
    "c = (as_container st)\<lparr>drop_caplist := caps\<rparr> \<or>
     c = (as_container st)\<lparr>drop_caplist := caps, enable_unshare := True\<rparr>"
    "systemd_mode (as_container st) \<longrightarrow> even_unstable st"
    using assms d by (auto simp: finish_args_def res_bind_eq_Inr Let_def split: if_splits option.splits)
  then show "\<exists>caps u. ruri_build_caplist (ae_kernel env) (drop_caplist (as_container st)) (privileged st)
      (drop_extra st) (keep_extra st) = Some caps \<and>
    c = (as_container st)\<lparr>drop_caplist := caps, enable_unshare := u\<rparr>"
    "systemd_mode (as_container st) \<longrightarrow> even_unstable st"
    "enable_unshare (as_container st) \<longrightarrow> enable_unshare c"
    by (auto intro: exI[of _ "enable_unshare (as_container st)"])
qed

lemma systemd_gate:
  assumes "parse_args env argv = Inr c" "systemd_mode c"
  shows "''--even-unstable'' \<in> set argv"
proof (rule parse_args_run[OF assms(1)])
  fix c0 st
  assume st: "args_loop env argv (initial_args c0) = Inr st" "finish_args env st = Inr c"
  have "systemd_mode (as_container st)" using finish_args_result(1)[OF st(2)] assms(2) by auto
  then have "even_unstable st" using finish_args_result(2)[OF st(2)] by simp
  then show ?thesis using run.loop[OF st(1)] by (simp add: initial_args_def)
qed

lemma arrays_after_parse:
  assumes "parse_args env argv = Inr c"
  shows "arrays_ok c"
proof (rule parse_args_run[OF assms])
  fix c0 st
  assume i: "ruri_init_config (ae_kernel env) (ae_now env) (ae_heap env) = Some c0"
    and st: "args_loop env argv (initial_args c0) = Inr st" "finish_args env st = Inr c"
  have "arrays_ok (as_container st)"
    using run.loop[OF st(1)] init_config_fields(7)[OF i] by (simp add: initial_args_def)
  then show ?thesis using finish_args_result(1)[OF st(2)] by (auto simp: arrays_ok_def)
qed

text \<open>C22: systemd mode needs --even-unstable on the command line, however it was
  asked for: by option, by a letter of a bundle, or by the configuration file.\<close>

theorem systemd_needs_even_unstable:
  assumes "parse_args env argv = Inr c" "systemd_mode c"
  shows "''--even-unstable'' \<in> set argv"
  by (rule systemd_gate[OF assms])

theorem systemd_needs_even_unstable_witness: "''--even-unstable'' \<in> set sample_argv"
  using sample_parse systemd_needs_even_unstable by blast

text \<open>C23: the container parse_args returns is well formed, whatever mixture of
  options and configuration files built it: variables and mount points come in pairs
  and devices in triples, and every array keeps room for the NULLs that end it.\<close>

theorem parsed_arrays_ok:
  assumes "parse_args env argv = Inr c"
  shows "arrays_ok c"
  by (rule arrays_after_parse[OF assms])

theorem parsed_arrays_ok_witness: "\<exists>c. parse_args sample_args_env sample_argv = Inr c \<and> arrays_ok c"
  using sample_parse parsed_arrays_ok by blast

text \<open>C24: what ruri() has established when it starts a container: a directory that
  is not the root directory, no root identity in rootless mode and rootless mode for
  every other user, an architecture exactly with an emulator, mount point paths that
  fit PATH_MAX, systemd mode neither without --even-unstable nor with the host
  runtime; and the way to run it: unsharing as root, in a user namespace, or plain
  chroot as root.\<close>

theorem started_container_checked:
  assumes "ruri_main env ids argv = Inr (c, mode)"
  shows "(\<exists>d. container_dir c = Some d \<and> d \<noteq> ''/'') \<and>
    (rootless c \<longrightarrow> euid ids \<noteq> 0 \<and> ruid ids \<noteq> 0 \<and> egid ids \<noteq> 0 \<and> rgid ids \<noteq> 0) \<and>
    (\<not> rootless c \<longrightarrow> euid ids = 0) \<and>
    (cross_arch c = None \<longleftrightarrow> qemu_path c = None) \<and>
    (\<forall>p \<in> set (extra_mountpoint c) \<union> set (extra_ro_mountpoint c). length p \<le> 4096) \<and>
    (systemd_mode c \<longrightarrow> \<not> mount_host_runtime c \<and> ''--even-unstable'' \<in> set argv) \<and>
    arrays_ok c \<and>
    (mode = Run_rootless \<longleftrightarrow> rootless c) \<and> (mode = Run_unshare \<longleftrightarrow> enable_unshare c \<and> \<not> rootless c)"
proof -
  obtain c1 where c1: "parse_args env argv = Inr c1" "c = (if euid ids \<noteq> 0 then c1\<lparr>rootless := True\<rparr> else c1)"
    "check_container ids c = Inr ()"
    "mode = (if enable_unshare c \<and> \<not> rootless c then Run_unshare else if rootless c then Run_rootless else Run_chroot)"
    using assms by (auto simp: ruri_main_def res_bind_eq_Inr Let_def)
  have fit: "paths_fit ps \<Longrightarrow> \<forall>p \<in> set ps. length p \<le> 4096" for ps
    by (induction ps) (auto simp: path_max_def split: if_splits)
  obtain d where d: "container_dir c = Some d" "d \<noteq> ''/''"
    using c1(3) by (auto simp: check_container_def split: option.splits if_splits)
  then have k: "\<not> (rootless c \<and> (euid ids = 0 \<or> ruid ids = 0 \<or> rgid ids = 0 \<or> egid ids = 0))"
    "(cross_arch c = None) = (qemu_path c = None)" "paths_fit (extra_mountpoint c)"
    "paths_fit (extra_ro_mountpoint c)" "\<not> (systemd_mode c \<and> mount_host_runtime c)"
    using c1(3) by (simp_all add: check_container_def split: if_splits)
  have "systemd_mode c \<longrightarrow> ''--even-unstable'' \<in> set argv"
    using systemd_gate[OF c1(1)] c1(2) by (auto split: if_splits)
  moreover have "arrays_ok c" using arrays_after_parse[OF c1(1)] c1(2) by (auto simp: arrays_ok_def)
  moreover have "\<not> rootless c \<longrightarrow> euid ids = 0" using c1(2) by auto
  ultimately show ?thesis using d k fit[OF k(3)] fit[OF k(4)] c1(4) by (auto split: if_splits)
qed

theorem started_container_checked_witness:
  "\<exists>c. ruri_main sample_args_env \<lparr>ruid = 0, euid = 0, rgid = 0, egid = 0\<rparr> sample_argv = Inr (c, Run_unshare)
     \<and> container_dir c \<noteq> Some ''/''"
proof -
  obtain c where c: "ruri_main sample_args_env \<lparr>ruid = 0, euid = 0, rgid = 0, egid = 0\<rparr> sample_argv
      = Inr (c, Run_unshare)"
    using sample_parse by (auto simp: ruri_main_def check_container_def)
  then show ?thesis using started_container_checked[OF c] by auto
qed

lemma build_caplist_kernel:
  assumes "0 \<le> get_last_cap kern" "get_last_cap kern < int ruri_cap_last_cap"
    and "length list = ruri_cap_last_cap + 1"
    and "caplist_wf (get_last_cap kern) dr" "caplist_wf (get_last_cap kern) ke"
    and "ruri_build_caplist kern list pr dr ke = Some t"
  shows "set (caps_of t) =
    (if pr then {} else {0..get_last_cap kern} - {0, 1, 3, 4, 5, 6, 7, 8, 10, 29, 31})
    \<union> set (caps_of dr) - set (caps_of ke)"
  using build_caplist_spec[OF assms(1-5), of pr] assms(6)
  by (simp add: default_dropped_def keep_common_facts insert_commute)

text \<open>C25: the capabilities a container started from a configuration file loses are
  those of the command line and the defaults; the drop_caplist read from the file has
  no influence, because parse_args builds the list anew after the loop.\<close>

theorem config_caps_discarded:
  assumes "0 \<le> get_last_cap (ae_kernel env)" "get_last_cap (ae_kernel env) < int ruri_cap_last_cap"
    and "length (drop_caplist (as_container st)) = ruri_cap_last_cap + 1"
    and "caplist_wf (get_last_cap (ae_kernel env)) (drop_extra st)"
    and "caplist_wf (get_last_cap (ae_kernel env)) (keep_extra st)"
    and "finish_args env st = Inr c"
  shows "set (caps_of (drop_caplist c)) =
    (if privileged st then {} else {0..get_last_cap (ae_kernel env)} - {0, 1, 3, 4, 5, 6, 7, 8, 10, 29, 31})
    \<union> set (caps_of (drop_extra st)) - set (caps_of (keep_extra st))"
  using finish_args_result(1)[OF assms(6)] build_caplist_kernel[OF assms(1-5)] by auto

text \<open>A privileged container with a file that drops CAP_SYS_ADMIN keeps it.\<close>

theorem config_caps_discarded_witness:
  "\<exists>c. finish_args sample_args_env ((initial_args sample_container)\<lparr>privileged := True\<rparr>) = Inr c \<and>
    caps_of (drop_caplist sample_container) = [21] \<and> caps_of (drop_caplist c) = []"
proof -
  let ?st = "(initial_args sample_container)\<lparr>privileged := True\<rparr>"
  let ?e = "ruri_init_value # replicate ruri_cap_last_cap 0"
  have len: "length (drop_caplist sample_container) = ruri_cap_last_cap + 1"
    by (simp add: sample_container_def ruri_cap_last_cap_def)
  have f: "\<not> systemd_mode sample_container" "container_dir sample_container = Some ''/ct''"
    by (simp_all add: sample_container_def)
  have lc: "0 \<le> get_last_cap sample_kernel" "get_last_cap sample_kernel < int ruri_cap_last_cap"
    by (simp_all add: sample_kernel_last ruri_cap_last_cap_def)
  obtain caps where caps: "ruri_build_caplist sample_kernel (drop_caplist sample_container) True ?e ?e = Some caps"
    using build_caplist_spec[OF lc len, of ?e ?e True] initial_extras by auto
  have "ruri_get_ns_pid False (rurienv_of sample_args_env) (Some ''/ct'') = Inr ruri_init_value"
    by (simp add: ruri_get_ns_pid_def rurienv_of_def sample_env_simps rurienv_path_def path_max_def k2v3_open_file_def)
  then obtain c where c: "finish_args sample_args_env ?st = Inr c"
    using caps f by (simp add: finish_args_def initial_args_def go_background_def sample_env_simps(4)
      ruri_init_value_def)
  have "set (caps_of (drop_caplist c)) = {}"
    using config_caps_discarded[of sample_args_env ?st c] c lc len initial_extras
    by (simp add: initial_args_def sample_env_simps(4))
  then show ?thesis using c sample_facts(3) by auto
qed

definition flag_letters :: "char list" where
  "flag_letters = map (\<lambda>(_, _, c). c) long_flag_names"

lemma flag_letters_actions: "list_all (\<lambda>c. flag_action c \<noteq> None) flag_letters"
  by (simp add: flag_letters_def long_flag_names_def flag_action_def)

lemma flag_action_letters: "c \<in> set flag_letters \<Longrightarrow> \<exists>f. flag_action c = Some f"
  using flag_letters_actions by (auto simp: list_all_iff)

lemma flag_pairs_all: "list_all (\<lambda>(a, b, c). long_flag long_flag_names a = flag_action c \<and>
    long_flag long_flag_names b = flag_action c) long_flag_names"
  by (simp add: long_flag_names_def)

lemma flag_pairs:
  "(a, b, c) \<in> set long_flag_names \<Longrightarrow> long_flag long_flag_names a = flag_action c \<and>
     long_flag long_flag_names b = flag_action c"
  using flag_pairs_all by (auto simp: list_all_iff)

lemma bsd_loop_flags:
  "set cs \<subseteq> set flag_letters \<Longrightarrow> bsd_loop env argv cs st = Inr (fold (the \<circ> flag_action) cs st)"
proof (induction cs arbitrary: st)
  case (Cons c cs)
  then obtain f where f: "flag_action c = Some f" using flag_action_letters[of c] by auto
  then show ?case using Cons flag_action_index[OF f] by (simp add: bsd_switch_def)
qed simp

text \<open>C26: a bundle of flag letters is the sequence of its flags: it applies them
  from left to right and moves to the next argument, and each letter alone, and its
  long name, is the option that applies the same flag.\<close>

theorem flag_bundle_is_sequence:
  assumes "set cs \<subseteq> set flag_letters"
  shows "bsd_loop env argv cs st = Inr (fold (the \<circ> flag_action) cs st) \<and>
    (\<forall>(short, name, c) \<in> set long_flag_names. \<forall>s \<in> {short, name}.
       case long_option s of None \<Rightarrow> False | Some h \<Rightarrow> h env argv st = Inr (the (flag_action c) st))"
proof -
  have "case long_option s of None \<Rightarrow> False | Some h \<Rightarrow> h env argv st = Inr (the (flag_action c) st)"
    if "(a, b, c) \<in> set long_flag_names" "s \<in> {a, b}" for a b c s
  proof -
    have "c \<in> set flag_letters" using that(1) by (force simp: flag_letters_def)
    then obtain f where "flag_action c = Some f" using flag_action_letters[of c] by auto
    then show ?thesis using flag_pairs[OF that(1)] that(2) by (auto simp: long_option_def)
  qed
  then show ?thesis using bsd_loop_flags[OF assms] by fast
qed

theorem flag_bundle_is_sequence_witness:
  "bsd_loop sample_args_env sample_argv ''yp'' (initial_args sample_container)
     = Inr (fold (the \<circ> flag_action) ''yp'' (initial_args sample_container))"
proof -
  have "set ''yp'' \<subseteq> set flag_letters" by (simp add: flag_letters_def long_flag_names_def)
  from flag_bundle_is_sequence[OF this] show ?thesis by blast
qed

text \<open>the letter x in a bundle is not the flag -x: the flag also enables the
  unshare mode, the letter only records no_network, so the container run by
  a bundle keeps the host's network unless another flag unshares.\<close>

theorem bundled_x_does_not_unshare:
  "bsd_loop env argv ''x'' st = Inr (upd_container (no_network_update (\<lambda>_. True)) st) \<and>
   (case long_option ''-x'' of None \<Rightarrow> False
    | Some h \<Rightarrow> h env argv st = Inr (upd_container
        (no_network_update (\<lambda>_. True) \<circ> enable_unshare_update (\<lambda>_. True)) st))"
  by (simp add: bsd_switch_def flag_action_def set_field_def long_option_def long_flag_names_def
      long_only_flag_def)

text \<open>a bundle that ends in c with its file as the last argument makes the
  program evaluate strlen(NULL): reading the file moves the index to argc, and
  the loop condition takes the length of argv[argc].\<close>

theorem bundled_config_last_is_null:
  assumes "as_index st + 2 = length argv" "set cs \<subseteq> set flag_letters"
    and "ruri_read_config (libcap_from_name env)
      (as_container (fold (the \<circ> flag_action) cs st)) (file_content env (argv ! (as_index st + 1))) = Inr c"
  shows "bsd_loop env argv (cs @ ''c'') st = Inl null_deref"
proof -
  have "bsd_loop env argv (cs @ ds) st = bsd_loop env argv ds (fold (the \<circ> flag_action) cs st) \<and>
      as_index (fold (the \<circ> flag_action) cs st) = as_index st" if "ds \<noteq> []" for ds
    using assms(2)
  proof (induction cs arbitrary: st)
    case (Cons c cs)
    then obtain f where f: "flag_action c = Some f" using flag_action_letters[of c] by auto
    then show ?case using Cons flag_action_index[OF f] that by (simp add: bsd_switch_def)
  qed simp
  from this[of "''c''"] have s: "bsd_loop env argv (cs @ ''c'') st
      = bsd_loop env argv ''c'' (fold (the \<circ> flag_action) cs st)"
    "as_index (fold (the \<circ> flag_action) cs st) = as_index st" by blast+
  have c: "flag_action CHR ''c'' = None" by (simp add: flag_action_def)
  have v: "bsd_value CHR ''c'' = Some opt_config" by (simp add: bsd_value_def bsd_value_defs)
  have len: "as_index st \<noteq> length argv - 1" "as_index st + 1 < length argv" using assms(1) by auto
  show ?thesis unfolding s(1)
    using assms(1,3) s(2) len
    by (simp add: bsd_switch_def c v opt_config_def use_arg_def argv_at_def)
qed

text \<open>The sample configuration can be read.\<close>

definition sample_config_env :: args_env where
  "sample_config_env = sample_args_env\<lparr>file_content := (\<lambda>p.
     Some (ruri_container_info_to_k2v None sample_cap_name (sample_container\<lparr>char_devs := []\<rparr>)))\<rparr>"

lemma sample_config_read:
  assumes "length (drop_caplist c0) = ruri_cap_last_cap + 1" "user c0 = None"
  shows "\<exists>c. ruri_read_config (libcap_from_name sample_config_env) c0 (file_content sample_config_env p) = Inr c"
proof -
  let ?c = "sample_container\<lparr>char_devs := []\<rparr>"
  have e: "?c = sample_container" by (simp add: sample_container_def)
  have plain: "config_plain ?c" by (rule sample_plain) (simp_all add: list_plain_def)
  have len: "length (ruri_container_info_to_k2v None sample_cap_name ?c) \<le> 65536"
    by (rule sample_text_fits) simp
  have caps: "cap_names_ok sample_cap_name sample_cap_value (caps_of (drop_caplist ?c))"
    "caps_of (drop_caplist ?c) = [21]"
    using sample_facts e by auto
  have n: "length (caps_of (drop_caplist ?c)) \<le> ruri_cap_last_cap" "caps_of (drop_caplist ?c) \<noteq> []"
    "ruri_init_value \<notin> set (caps_of (drop_caplist ?c))"
    unfolding caps(2) by (simp_all add: ruri_cap_last_cap_def ruri_init_value_def)
  have d: "length (char_devs ?c) \<noteq> ruri_max_char_devs"
    "length (seccomp_denied_syscall ?c) \<noteq> ruri_max_seccomp_denied_syscall"
    by (simp_all add: sample_container_def limit_defs)
  have "\<exists>c. foldl res_bind (Inr c0) (config_steps sample_cap_value (cache_of (container_items sample_cap_name ?c))) = Inr c"
    using config_steps_result[OF plain caps(1) n assms] d by metis
  then show ?thesis
    using read_config_text[OF plain caps(1), of None c0] len
    by (simp add: sample_config_env_def sample_args_env_def)
qed

theorem bundled_config_last_is_null_witness:
  "bsd_loop sample_config_env [''ruri'', ''-Rc'', ''conf''] ''c''
     (initial_args (sample_container\<lparr>user := None\<rparr>)) = Inl null_deref"
proof -
  define c0 where "c0 = sample_container\<lparr>user := None\<rparr>"
  have c0: "length (drop_caplist c0) = ruri_cap_last_cap + 1" "user c0 = None"
    by (simp_all add: c0_def sample_container_def ruri_cap_last_cap_def)
  have i: "as_container (initial_args c0) = c0" "as_index (initial_args c0) = 1"
    by (simp_all add: initial_args_def)
  obtain c where "ruri_read_config (libcap_from_name sample_config_env) c0
      (file_content sample_config_env ''conf'') = Inr c"
    using sample_config_read[OF c0] by blast
  then show ?thesis
    using bundled_config_last_is_null[of "initial_args c0" "[''ruri'', ''-Rc'', ''conf'']" "[]"
        sample_config_env c] i by (simp add: c0_def)
qed

section \<open>Cgroup options\<close>

lemma cgroup_split_name:
  "CHR ''='' \<notin> set name \<Longrightarrow> length name < n \<Longrightarrow> cgroup_split n (name @ CHR ''='' # v) = (name, Some v)"
proof (induction name arbitrary: n)
  case Nil
  then show ?case by (cases n) auto
next
  case (Cons c name)
  then show ?case by (cases n) auto
qed

lemma cgroup_split_Some:
  "cgroup_split n s = (name, Some v) \<Longrightarrow> s = name @ CHR ''='' # v"
  by (induction n s arbitrary: name rule: cgroup_split.induct) (auto split: if_splits prod.splits)

text \<open>parse_cgroup_settings accepts exactly cpuset=V, memory=V and cpupercent=N
  with N read as a number from 1 to 100, and sets that one field.\<close>

theorem cgroup_settings_iff:
  "parse_cgroup_settings s c = Inr c' \<longleftrightarrow>
     (\<exists>v. s = ''cpuset='' @ v \<and> c' = c\<lparr>cpuset := Some v\<rparr>) \<or>
     (\<exists>v. s = ''memory='' @ v \<and> c' = c\<lparr>memory := Some v\<rparr>) \<or>
     (\<exists>v. s = ''cpupercent='' @ v \<and> 1 \<le> atoi v \<and> atoi v \<le> 100 \<and> c' = c\<lparr>cpupercent := atoi v\<rparr>)"
proof
  assume r: "parse_cgroup_settings s c = Inr c'"
  then obtain name v where "cgroup_split 15 s = (name, Some v)"
    by (auto simp: parse_cgroup_settings_def split: prod.splits option.splits)
  then show "(\<exists>v. s = ''cpuset='' @ v \<and> c' = c\<lparr>cpuset := Some v\<rparr>) \<or>
     (\<exists>v. s = ''memory='' @ v \<and> c' = c\<lparr>memory := Some v\<rparr>) \<or>
     (\<exists>v. s = ''cpupercent='' @ v \<and> 1 \<le> atoi v \<and> atoi v \<le> 100 \<and> c' = c\<lparr>cpupercent := atoi v\<rparr>)"
    using r cgroup_split_Some[of 15 s name v]
    by (simp add: parse_cgroup_settings_def split: if_splits)
next
  have fwd: "cgroup_split 15 (name @ CHR ''='' # v) = (name, Some v)"
    if "name \<in> {''cpuset'', ''memory'', ''cpupercent''}" for name v
    by (rule cgroup_split_name) (use that in auto)
  assume "(\<exists>v. s = ''cpuset='' @ v \<and> c' = c\<lparr>cpuset := Some v\<rparr>) \<or>
     (\<exists>v. s = ''memory='' @ v \<and> c' = c\<lparr>memory := Some v\<rparr>) \<or>
     (\<exists>v. s = ''cpupercent='' @ v \<and> 1 \<le> atoi v \<and> atoi v \<le> 100 \<and> c' = c\<lparr>cpupercent := atoi v\<rparr>)"
  then show "parse_cgroup_settings s c = Inr c'"
    using fwd[of "''cpuset''"] fwd[of "''memory''"] fwd[of "''cpupercent''"]
    by (elim disjE exE conjE) (simp_all add: parse_cgroup_settings_def)
qed

end
