(* ===== verification/Sys.thy ===== *)
theory Sys
  imports Prelude
begin

text \<open>
  Code that talks to the kernel.  A program is a function from the system calls made
  so far to a result and the calls made after it; the answers come from a
  \<open>world\<close> that may depend on everything done before, so nothing is assumed of
  the kernel but what a theorem states.  Calls that can fail return 0 (or any
  non-negative number) for success and the negated errno otherwise.  A write answers
  the number of characters written.  Questions that change nothing (lstat, realpath,
  access, statfs, the text of a file) are not part of the trace.

  \<open>only P p\<close> says that every call p makes satisfies P; its rules follow the
  structure of a program.  The locale \<open>call_policy\<close> collects the calls that set
  up file systems, so that a policy which admits them is shown once per component.
\<close>

section \<open>Calls\<close>

type_synonym path = string
type_synonym mount_flags = "32 word"

datatype file_kind = Dir_file | Block_dev | Regular | Char_dev | Fifo | Socket | Other_kind

datatype namespace = Ns_mnt | Ns_uts | Ns_ipc | Ns_pid | Ns_cgroup | Ns_time | Ns_net | Ns_files | Ns_fs
  | Ns_user | Ns_sysvsem

datatype sec_action = Sec_allow | Sec_kill | Sec_errno nat

text \<open>Comparisons of the argument with the given index.\<close>

datatype arg_cmp = Arg_eq nat int | Arg_ne nat int | Arg_lt nat int | Arg_gt nat int | Arg_masked_eq nat int int

datatype sec_arch = Arch_x86 | Arch_x86_64 | Arch_x32 | Arch_arm | Arch_aarch64 | Arch_ppc64le
  | Arch_s390 | Arch_s390x | Arch_riscv64 | Arch_loongarch64 | Arch_other

text \<open>The version uname(2) reports, ordered part by part.\<close>

datatype kernel_version = Version (v_major: int) (v_minor: int) (v_patch: int)

instantiation kernel_version :: linorder
begin

definition less_eq_kernel_version :: "kernel_version \<Rightarrow> kernel_version \<Rightarrow> bool" where
  "less_eq_kernel_version k k' =
     (v_major k < v_major k' \<or> (v_major k = v_major k' \<and>
       (v_minor k < v_minor k' \<or> (v_minor k = v_minor k' \<and> v_patch k \<le> v_patch k'))))"

definition less_kernel_version :: "kernel_version \<Rightarrow> kernel_version \<Rightarrow> bool" where
  "less_kernel_version k k' = (k \<le> k' \<and> \<not> k' \<le> k)"

instance
  by standard (auto simp: less_eq_kernel_version_def less_kernel_version_def intro: kernel_version.expand)

end

datatype sys_call =
  Mount string path "string option" mount_flags "string option"
| Umount path mount_flags
| Mkdir path int
| Rmdir path
| Remove path
| Open path
| Create path
| Write_to path string
| Mknod path int int
| Symlink path path
| Chmod path int
| Chown path int int
| Ioctl_loop_free
| Ioctl_loop_set path path
| Copy_file path path
| Chattr_immutable path bool
| Truncate path
| Chdir path
| Chroot path
| Pivot_root
| Unshare namespace
| Setns namespace int
| Sethostname string
| Setgroups "32 word list"
| Setgid "32 word"
| Setuid "32 word"
| Seccomp_init sec_action
| Seccomp_rule sec_action string "arg_cmp list"
| Seccomp_ctl_nnp bool
| Seccomp_load
| Drop_bounding int
| Drop_ambient int
| Capget
| Capset_no_inheritable
| Setenv string string
| No_new_privs
| Lock_ambient
| Close_fds
| Block_tty_signals
| Set_dumpable bool
| Pipe
| Pipe_write string
| Pipe_read nat
| Fork
| Waitpid int
| Send_status string
| Kill int int
| Socketpair
| Lock_file path
| Unlock_file path
| Memfd
| Write_memfd path
| Reexec path
| Exec "string list"

record world =
  w_ret :: "sys_call list \<Rightarrow> sys_call \<Rightarrow> int"
  w_lstat :: "sys_call list \<Rightarrow> path \<Rightarrow> file_kind option"
  w_realpath :: "sys_call list \<Rightarrow> path \<Rightarrow> path option"
  w_access :: "sys_call list \<Rightarrow> path \<Rightarrow> bool"
  w_cgroup2 :: "sys_call list \<Rightarrow> bool"
  w_text :: "sys_call list \<Rightarrow> path \<Rightarrow> string option"
  w_readlink :: "sys_call list \<Rightarrow> path \<Rightarrow> string option"
  w_is_dir :: "sys_call list \<Rightarrow> path \<Rightarrow> bool"
  w_is_regular :: "sys_call list \<Rightarrow> path \<Rightarrow> bool"
  w_is_proc :: "sys_call list \<Rightarrow> path \<Rightarrow> bool"
  w_proc_dirs :: "sys_call list \<Rightarrow> string list option"
  w_mounts :: "sys_call list \<Rightarrow> (path \<times> string) list option"
  w_syscall_known :: "string \<Rightarrow> bool"
  w_kernel :: kernel_version
  w_arch :: sec_arch
  w_force_panic :: bool
  w_pid :: int

definition eexist :: int where "eexist = 17"

section \<open>Programs\<close>

type_synonym 'a prog = "sys_call list \<Rightarrow> 'a result \<times> sys_call list"

definition ret :: "'a \<Rightarrow> 'a prog" where "ret v tr = (Inr v, tr)"

definition die :: "fault \<Rightarrow> 'a prog" where "die e tr = (Inl e, tr)"

definition seq :: "'a prog \<Rightarrow> ('a \<Rightarrow> 'b prog) \<Rightarrow> 'b prog" where
  "seq p f tr = (case p tr of (Inl e, tr') \<Rightarrow> (Inl e, tr') | (Inr v, tr') \<Rightarrow> f v tr')"

definition call :: "world \<Rightarrow> sys_call \<Rightarrow> int prog" where
  "call w c tr = (Inr (w_ret w tr c), tr @ [c])"

definition ask :: "(sys_call list \<Rightarrow> 'a) \<Rightarrow> 'a prog" where "ask q tr = (Inr (q tr), tr)"

text \<open>A call whose result the code ignores.\<close>

definition run :: "world \<Rightarrow> sys_call \<Rightarrow> unit prog" where
  "run w c = seq (call w c) (\<lambda>_. ret ())"

fun run_all :: "world \<Rightarrow> sys_call list \<Rightarrow> unit prog" where
  "run_all w [] = ret ()"
| "run_all w (c # cs) = seq (run w c) (\<lambda>_. run_all w cs)"

fun for_each :: "('x \<Rightarrow> unit prog) \<Rightarrow> 'x list \<Rightarrow> unit prog" where
  "for_each f [] = ret ()"
| "for_each f (x # xs) = seq (f x) (\<lambda>_. for_each f xs)"

text \<open>The macros of include/ruri.h: ruri_warn_on_error ends the program when strict
  mode was asked for, ruri_panic_on_error always.\<close>

definition warn_unless :: "world \<Rightarrow> bool \<Rightarrow> string \<Rightarrow> unit prog" where
  "warn_unless w ok msg =
     (if ok then ret () else if w_force_panic w then die (Fatal msg) else ret ())"

definition panic_unless :: "bool \<Rightarrow> string \<Rightarrow> unit prog" where
  "panic_unless ok msg = (if ok then ret () else die (Fatal msg))"

definition warned :: "world \<Rightarrow> sys_call \<Rightarrow> string \<Rightarrow> unit prog" where
  "warned w c msg = seq (call w c) (\<lambda>r. warn_unless w (r = 0) msg)"

lemma prog_simps [simp]:
  "ret v tr = (Inr v, tr)" "die e tr = (Inl e, tr)" "call w c tr = (Inr (w_ret w tr c), tr @ [c])"
  "ask q tr = (Inr (q tr), tr)" "run w c tr = (Inr (), tr @ [c])"
  by (simp_all add: ret_def die_def call_def ask_def run_def seq_def)

lemma seq_Inr:
  "seq p f tr = (Inr v, tr2) \<longleftrightarrow> (\<exists>u tr1. p tr = (Inr u, tr1) \<and> f u tr1 = (Inr v, tr2))"
  by (auto simp: seq_def split: prod.splits sum.splits)

lemma seq_assoc: "seq (seq p f) g = seq p (\<lambda>v. seq (f v) g)"
  by (rule ext) (auto simp: seq_def split: prod.splits sum.splits)

lemma seq_run [simp]:
  "seq (ret v) f1 = f1 v" "seq (die e) f2 = die e" "seq (call w c) f3 tr = f3 (w_ret w tr c) (tr @ [c])"
  "seq (ask q) f4 tr = f4 (q tr) tr" "seq (run w c) f5 tr = f5 () (tr @ [c])"
  by (auto simp: seq_def)

lemma run_all_result [simp]: "run_all w cs tr = (Inr (), tr @ cs)"
  by (induction cs arbitrary: tr) simp_all

lemma seq_run_all [simp]: "seq (run_all w cs) g tr = g () (tr @ cs)"
  by (simp add: seq_def)

lemma warned_result:
  "warned w c msg tr = ((if w_ret w tr c = 0 \<or> \<not> w_force_panic w then Inr () else Inl (Fatal msg)), tr @ [c])"
  by (simp add: warned_def warn_unless_def)

text \<open>The outcome of a component that makes no calls.\<close>

definition lift_result :: "'a result \<Rightarrow> 'a prog" where
  "lift_result r = (case r of Inl e \<Rightarrow> die e | Inr v \<Rightarrow> ret v)"

section \<open>The calls a program can make\<close>

definition only :: "(sys_call \<Rightarrow> bool) \<Rightarrow> 'a prog \<Rightarrow> bool" where
  "only P p = (\<forall>tr. \<exists>cs. snd (p tr) = tr @ cs \<and> list_all P cs)"

named_theorems only_intros

lemma onlyD: "only P p \<Longrightarrow> p tr = (r, tr') \<Longrightarrow> \<exists>cs. tr' = tr @ cs \<and> list_all P cs"
  unfolding only_def by (metis snd_conv)

lemma only_basic [only_intros]:
  "only P (ret v)" "only P (die e)" "only P (ask q)" "P c \<Longrightarrow> only P (call w c)" "P c \<Longrightarrow> only P (run w c)"
  by (auto simp: only_def)

lemma only_seq [only_intros]:
  assumes "only P p" "\<And>v. only P (f v)"
  shows "only P (seq p f)"
  unfolding only_def
proof
  fix tr
  obtain r tr1 where p: "p tr = (r, tr1)" by fastforce
  then obtain cs where cs: "tr1 = tr @ cs" "list_all P cs" using onlyD[OF assms(1)] by blast
  show "\<exists>cs. snd (seq p f tr) = tr @ cs \<and> list_all P cs"
  proof (cases r)
    case (Inl e)
    then show ?thesis using p cs by (simp add: seq_def)
  next
    case (Inr v)
    obtain cs2 where "snd (f v tr1) = tr1 @ cs2" "list_all P cs2"
      using assms(2)[of v] unfolding only_def by blast
    then show ?thesis using p Inr cs by (auto simp: seq_def)
  qed
qed

lemma only_if [only_intros]: "(b \<Longrightarrow> only P p) \<Longrightarrow> (\<not> b \<Longrightarrow> only P q) \<Longrightarrow> only P (if b then p else q)"
  by simp

lemma only_option [only_intros]:
  "(v = None \<Longrightarrow> only P p) \<Longrightarrow> (\<And>x. v = Some x \<Longrightarrow> only P (q x)) \<Longrightarrow> only P (case v of None \<Rightarrow> p | Some x \<Rightarrow> q x)"
  by (cases v) auto

lemma only_for_each [only_intros]: "(\<And>x. x \<in> set xs \<Longrightarrow> only P (f x)) \<Longrightarrow> only P (for_each f xs)"
  by (induction xs) (auto intro: only_intros)

lemma only_run_all [only_intros]: "list_all P cs \<Longrightarrow> only P (run_all w cs)"
  by (simp add: only_def)

lemma only_lift [only_intros]: "only P (lift_result r)"
  by (cases r) (simp_all add: lift_result_def only_basic)

lemma only_warn [only_intros]: "only P (warn_unless w b msg)" "only P (panic_unless b msg)"
  by (simp_all add: warn_unless_def panic_unless_def only_basic)

lemma only_warned [only_intros]: "P c \<Longrightarrow> only P (warned w c msg)"
  by (simp add: warned_def only_basic only_seq only_warn)

lemma only_mono: "only P p \<Longrightarrow> (\<And>c. P c \<Longrightarrow> Q c) \<Longrightarrow> only Q p"
  unfolding only_def list_all_iff by metis

text \<open>Programs that return on every trace, with a result that satisfies P.\<close>

definition returns :: "('a \<Rightarrow> bool) \<Rightarrow> 'a prog \<Rightarrow> bool" where
  "returns P p = (\<forall>tr. \<exists>v tr'. p tr = (Inr v, tr') \<and> P v)"

lemma returns_ret: "P v \<Longrightarrow> returns P (ret v)" by (simp add: returns_def)

lemma returns_call: "returns (\<lambda>_. True) (call w c)" "returns (\<lambda>_. True) (run w c)" "returns (\<lambda>_. True) (ask q)"
  by (simp_all add: returns_def)

lemma returns_seq:
  assumes "returns P p" "\<And>v. P v \<Longrightarrow> returns Q (f v)"
  shows "returns Q (seq p f)"
  unfolding returns_def
proof
  fix tr
  obtain v tr1 where p: "p tr = (Inr v, tr1)" "P v" using assms(1) unfolding returns_def by blast
  then obtain u tr2 where "f v tr1 = (Inr u, tr2)" "Q u" using assms(2) unfolding returns_def by blast
  then show "\<exists>v tr'. seq p f tr = (Inr v, tr') \<and> Q v" using p by (simp add: seq_def)
qed

lemma returns_if: "(b \<Longrightarrow> returns P p) \<Longrightarrow> (\<not> b \<Longrightarrow> returns P q) \<Longrightarrow> returns P (if b then p else q)"
  by simp

lemma for_each_trace:
  assumes "\<And>x tr tr'. f x tr = (Inr (), tr') \<Longrightarrow> tr' = tr @ g x"
  shows "for_each f xs tr = (Inr (), tr') \<Longrightarrow> tr' = tr @ concat (map g xs)"
  using assms by (induction xs arbitrary: tr) (fastforce simp: seq_Inr)+

lemma warn_unless_trace: "warn_unless w b m tr = (Inr u, tr') \<Longrightarrow> tr' = tr"
  by (auto simp: warn_unless_def split: if_splits)

lemma for_each_returns:
  "(\<And>x. x \<in> set xs \<Longrightarrow> returns (\<lambda>_. True) (f x)) \<Longrightarrow> returns (\<lambda>_. True) (for_each f xs)"
  by (induction xs) (auto intro!: returns_ret returns_seq simp del: prog_simps)

text \<open>When every call succeeds, nothing is warned about.\<close>

lemma warned_returns: "(\<And>tr. w_ret w tr c = 0) \<Longrightarrow> returns (\<lambda>_. True) (warned w c msg)"
  by (simp add: returns_def warned_result)

text \<open>A policy that admits the calls on files and loop devices, and one that admits
  mounting besides.\<close>

locale file_policy =
  fixes allowed :: "sys_call \<Rightarrow> bool"
  assumes files [simp]: "allowed (Mkdir p m)" "allowed (Rmdir p)" "allowed (Remove p)" "allowed (Open p)"
      "allowed (Create p)" "allowed (Write_to p s)" "allowed (Mknod p j n)" "allowed (Symlink p q)"
      "allowed (Chmod p m)" "allowed (Chown p u g)" "allowed (Copy_file p q)"
      "allowed (Chattr_immutable p b)" "allowed (Truncate p)" "allowed (Chdir p)"
    and loops [simp]: "allowed Ioctl_loop_free" "allowed (Ioctl_loop_set p q)"

locale call_policy = file_policy +
  assumes mounts [simp]: "allowed (Mount src tgt ty fl dat)" "allowed (Umount p fl)"

fun is_mount :: "sys_call \<Rightarrow> bool" where
  "is_mount (Mount src tgt ty fl dat) = True"
| "is_mount c = False"

text \<open>The policy of everything that runs before the command: it is not executed, no
  identity is changed, the root directory stays.\<close>

fun is_exec :: "sys_call \<Rightarrow> bool" where
  "is_exec (Exec argv) = True"
| "is_exec c = False"

fun is_identity :: "sys_call \<Rightarrow> bool" where
  "is_identity (Setuid u) = True"
| "is_identity (Setgid g) = True"
| "is_identity (Setgroups gs) = True"
| "is_identity c = False"

fun is_root_change :: "sys_call \<Rightarrow> bool" where
  "is_root_change (Chroot p) = True"
| "is_root_change Pivot_root = True"
| "is_root_change c = False"

definition setup_call :: "sys_call \<Rightarrow> bool" where
  "setup_call c = (\<not> is_exec c \<and> \<not> is_identity c \<and> \<not> is_root_change c)"

end
