(* ===== verification/Cgroup.thy ===== *)
theory Cgroup
  imports Container Sys
begin

text \<open>
  cgroup.c: sizes with a unit, the detection of the cgroup hierarchies of the host, the
  limits of a container (attach first, then write), killing through cgroup v2 and the
  test whether a process belongs to a container.  Questions and calls go to the
  \<open>world\<close> of Sys; a control file is written with an open and a write.
\<close>

section \<open>Sizes\<close>

definition ssize_max :: int where "ssize_max = 2 ^ 63 - 1"

definition scale_size :: "int \<Rightarrow> int \<Rightarrow> int" where
  "scale_size n k = (if n > ssize_max div k then -2 else n * k)"

definition humansize_to_bytes :: "string \<Rightarrow> int" where
  "humansize_to_bytes human =
     (let n = signed_val (dropWhile is_space human); endptr = strtol_end human
      in if n < - (2 ^ 63) \<or> n > 2 ^ 63 - 1 then -2
         else if endptr = human \<or> n < 0 then -1
         else case endptr of
             [] \<Rightarrow> if n > ssize_max then -2 else n
           | u # rest \<Rightarrow>
               if rest \<noteq> [] then -1
               else if u = CHR ''k'' \<or> u = CHR ''K'' then scale_size n 1024
               else if u = CHR ''m'' \<or> u = CHR ''M'' then scale_size n (1024 * 1024)
               else if u = CHR ''g'' \<or> u = CHR ''G'' then scale_size n (1024 * 1024 * 1024)
               else -1)"

section \<open>Control files\<close>

definition open_and_write :: "world \<Rightarrow> path \<Rightarrow> string \<Rightarrow> int prog" where
  "open_and_write w p v =
     seq (call w (Open p))
      (\<lambda>fd. if fd < 0 then ret 1
        else seq (call w (Write_to p v)) (\<lambda>n. ret (if n \<noteq> int (length v) then 2 else 0)))"

section \<open>Detection\<close>

datatype cgroup_type = Cgroup_v1 | Cgroup_v2 | Cgroup_enosys

record cgroup_node =
  cg_prefix :: "path option"
  cg_type :: cgroup_type

record cgroup_env =
  memory_node :: cgroup_node
  cpuset_node :: cgroup_node
  cpu_node :: cgroup_node

definition no_cgroup :: cgroup_node where "no_cgroup = \<lparr>cg_prefix = None, cg_type = Cgroup_enosys\<rparr>"

definition cgroup_at :: "path \<Rightarrow> cgroup_type \<Rightarrow> cgroup_node" where
  "cgroup_at p t = \<lparr>cg_prefix = Some p, cg_type = t\<rparr>"

definition mode_user :: int where "mode_user = 384"

type_synonym node_update = "(cgroup_node \<Rightarrow> cgroup_node) \<Rightarrow> cgroup_env \<Rightarrow> cgroup_env"

text \<open>One block of the detection functions: a control file is there and the controller
  is still unsupported; the calls of the block; the node it sets.\<close>

definition detect_block ::
    "world \<Rightarrow> path \<Rightarrow> (cgroup_env \<Rightarrow> cgroup_node) \<Rightarrow> node_update \<Rightarrow> unit prog \<Rightarrow> cgroup_node \<Rightarrow>
     cgroup_env \<Rightarrow> cgroup_env prog" where
  "detect_block w control_file get upd setup_calls node env =
     seq (ask (\<lambda>tr. w_access w tr control_file))
      (\<lambda>there. if there \<and> cg_type (get env) = Cgroup_enosys
        then seq setup_calls (\<lambda>_. ret (upd (\<lambda>_. node) env)) else ret env)"

definition unified_setup :: "world \<Rightarrow> string \<Rightarrow> unit prog" where
  "unified_setup w controller =
     seq (run w (Mkdir ''/sys/fs/cgroup/unified/ruri'' mode_user))
      (\<lambda>_. seq (open_and_write w ''/sys/fs/cgroup/unified/cgroup.subtree_control'' controller)
        (\<lambda>_. seq (open_and_write w ''/sys/fs/cgroup/unified/ruri/cgroup.subtree_control'' controller)
          (\<lambda>_. ret ())))"

definition unified_node :: cgroup_node where
  "unified_node = cgroup_at ''/sys/fs/cgroup/unified/ruri/'' Cgroup_v2"

definition memory_line :: string where "memory_line = ''+memory'' @ [newline]"
definition cpu_line :: string where "cpu_line = ''+cpu'' @ [newline]"
definition cpuset_line :: string where "cpuset_line = ''+cpuset'' @ [newline]"

definition detect_cgroup_unified :: "world \<Rightarrow> cgroup_env \<Rightarrow> cgroup_env prog" where
  "detect_cgroup_unified w env =
     seq (detect_block w ''/sys/fs/cgroup/unified/memory.high'' memory_node memory_node_update
            (unified_setup w memory_line) unified_node env)
      (\<lambda>env1. seq (detect_block w ''/sys/fs/cgroup/unified/cpu.max'' cpu_node cpu_node_update
            (unified_setup w cpu_line) unified_node env1)
        (\<lambda>env2. detect_block w ''/sys/fs/cgroup/unified/cpuset.cpus'' cpuset_node cpuset_node_update
            (unified_setup w cpuset_line) unified_node env2))"

text \<open>The v1 blocks: control file, directory to create (its prefix adds the slash).\<close>

definition v1_block :: "world \<Rightarrow> path \<Rightarrow> path \<Rightarrow> (cgroup_env \<Rightarrow> cgroup_node) \<Rightarrow> node_update \<Rightarrow>
    cgroup_env \<Rightarrow> cgroup_env prog" where
  "v1_block w control_file dir get upd =
     detect_block w control_file get upd (run w (Mkdir dir mode_user)) (cgroup_at (dir @ ''/'') Cgroup_v1)"

definition detect_cgroup_v1_fallback :: "world \<Rightarrow> cgroup_env \<Rightarrow> cgroup_env prog" where
  "detect_cgroup_v1_fallback w env =
     seq (v1_block w ''/sys/fs/cgroup/cpu/cpu.cfs_quota_us'' ''/sys/fs/cgroup/cpu/ruri''
            cpu_node cpu_node_update env)
      (\<lambda>env1. seq (v1_block w ''/sys/fs/cgroup/memory/memory.limit_in_bytes'' ''/sys/fs/cgroup/memory/ruri''
            memory_node memory_node_update env1)
        (\<lambda>env2. seq (v1_block w ''/sys/fs/cgroup/cpuset/cpuset.cpus'' ''/sys/fs/cgroup/cpuset/ruri''
            cpuset_node cpuset_node_update env2)
          (\<lambda>env3. seq (v1_block w ''/dev/memcg/memory.limit_in_bytes'' ''/dev/memcg/ruri''
              memory_node memory_node_update env3)
            (\<lambda>env4. v1_block w ''/dev/cpuset/cpus'' ''/dev/cpuset/ruri''
              cpuset_node cpuset_node_update env4))))"

definition v2_control :: path where "v2_control = ''/sys/fs/cgroup/cgroup.subtree_control''"
definition v2_ruri_control :: path where "v2_ruri_control = ''/sys/fs/cgroup/ruri/cgroup.subtree_control''"
definition v2_node :: cgroup_node where "v2_node = cgroup_at ''/sys/fs/cgroup/ruri/'' Cgroup_v2"

definition v2_block :: "world \<Rightarrow> string \<Rightarrow> node_update \<Rightarrow> cgroup_env \<Rightarrow> cgroup_env prog" where
  "v2_block w controller upd env =
     seq (open_and_write w v2_ruri_control controller)
      (\<lambda>r. ret (if r = 0 then upd (\<lambda>_. v2_node) env else env))"

definition detect_cgroup_v2 :: "world \<Rightarrow> cgroup_env \<Rightarrow> cgroup_env prog" where
  "detect_cgroup_v2 w env =
     seq (run w (Mkdir ''/sys/fs/cgroup/ruri'' mode_user))
      (\<lambda>_. seq (open_and_write w v2_control memory_line)
        (\<lambda>_. seq (open_and_write w v2_control cpu_line)
          (\<lambda>_. seq (open_and_write w v2_control cpuset_line)
            (\<lambda>_. seq (v2_block w memory_line memory_node_update env)
              (\<lambda>env1. seq (v2_block w cpu_line cpu_node_update env1)
                (\<lambda>env2. v2_block w cpuset_line cpuset_node_update env2))))))"

definition no_cgroups :: cgroup_env where
  "no_cgroups = \<lparr>memory_node = no_cgroup, cpuset_node = no_cgroup, cpu_node = no_cgroup\<rparr>"

definition ruri_detect_cgroup_env :: "world \<Rightarrow> cgroup_env prog" where
  "ruri_detect_cgroup_env w =
     seq (detect_cgroup_v2 w no_cgroups)
      (\<lambda>env. seq (detect_cgroup_unified w env) (\<lambda>env'. detect_cgroup_v1_fallback w env'))"

section \<open>Limits\<close>

text \<open>The directory of the container under a prefix (every control file is in it).\<close>

definition cgroup_dir :: "cgroup_node \<Rightarrow> ruri_container \<Rightarrow> path" where
  "cgroup_dir node c = the (cg_prefix node) @ show_int (container_id c) @ ''/''"

text \<open>The first half of the three functions: create the directory and write the own
  process id to cgroup.procs.  The result tells whether the function goes on.\<close>

definition attach_cgroup :: "world \<Rightarrow> cgroup_node \<Rightarrow> ruri_container \<Rightarrow> string \<Rightarrow> bool prog" where
  "attach_cgroup w node c pid_text =
     (if cg_type node = Cgroup_enosys
      then seq (warn_unless w False ''No cgroup support detected'') (\<lambda>_. ret False)
      else seq (run w (Mkdir (cgroup_dir node c) mode_user))
        (\<lambda>_. seq (open_and_write w (cgroup_dir node c @ ''cgroup.procs'') pid_text)
          (\<lambda>r. if r \<noteq> 0 then seq (warn_unless w False ''Failed to attach cgroup'') (\<lambda>_. ret False)
                else ret True)))"

text \<open>The writes of a limit, stopping with a warning at the first that fails.\<close>

fun write_settings :: "world \<Rightarrow> (path \<times> string) list \<Rightarrow> bool prog" where
  "write_settings w [] = ret True"
| "write_settings w ((p, v) # rest) =
     seq (open_and_write w p v)
      (\<lambda>r. if r \<noteq> 0
        then seq (warn_unless w False ''Failed to set cgroup limit'') (\<lambda>_. ret False)
        else write_settings w rest)"

definition line_of :: "string \<Rightarrow> string" where "line_of s = s @ [newline]"

definition memory_settings :: "cgroup_node \<Rightarrow> ruri_container \<Rightarrow> int \<Rightarrow> (path \<times> string) list" where
  "memory_settings node c bytes =
     (if cg_type node = Cgroup_v2
      then [(cgroup_dir node c @ ''memory.max'', line_of (show_int bytes)),
            (cgroup_dir node c @ ''memory.oom.group'', line_of ''1'')]
      else [(cgroup_dir node c @ ''memory.limit_in_bytes'', line_of (show_int bytes)),
            (cgroup_dir node c @ ''memory.oom_control'', line_of ''0'')])"

definition ruri_set_memory_limit :: "world \<Rightarrow> ruri_container \<Rightarrow> cgroup_env \<Rightarrow> unit prog" where
  "ruri_set_memory_limit w c env =
     seq (attach_cgroup w (memory_node env) c (show_int (w_pid w)))
      (\<lambda>attached. if \<not> attached then ret ()
        else case memory c of
          None \<Rightarrow> ret ()
        | Some m \<Rightarrow>
            if humansize_to_bytes m = -1 then die (Fatal ''Memory format error'')
            else if humansize_to_bytes m = -2 then die (Fatal ''Memory value too big'')
            else seq (write_settings w (memory_settings (memory_node env) c (humansize_to_bytes m)))
              (\<lambda>_. ret ()))"

definition pid_text :: "world \<Rightarrow> cgroup_node \<Rightarrow> string" where
  "pid_text w node = (if cg_type node = Cgroup_v2 then show_int (w_pid w) else line_of (show_int (w_pid w)))"

definition cpuset_settings :: "cgroup_node \<Rightarrow> ruri_container \<Rightarrow> string \<Rightarrow> (path \<times> string) list" where
  "cpuset_settings node c cpus =
     (if cg_type node = Cgroup_v2 then [(cgroup_dir node c @ ''cpuset.cpus'', line_of cpus)]
      else [(cgroup_dir node c @ ''cpuset.mems'', line_of ''0''),
            (cgroup_dir node c @ ''cpuset.cpus'', line_of cpus)])"

text \<open>The text of cpuset is printed to a buffer of 256 characters, in the v1 branch only
  after cpuset.mems was written.\<close>

definition ruri_set_cpuset :: "world \<Rightarrow> ruri_container \<Rightarrow> cgroup_env \<Rightarrow> unit prog" where
  "ruri_set_cpuset w c env =
     seq (attach_cgroup w (cpuset_node env) c (pid_text w (cpuset_node env)))
      (\<lambda>attached. if \<not> attached then ret ()
        else case cpuset c of
          None \<Rightarrow> ret ()
        | Some cpus \<Rightarrow>
            if length cpus + 2 > 256 then
              seq (write_settings w (butlast (cpuset_settings (cpuset_node env) c cpus)))
                (\<lambda>written. if written then die (Undefined ''sprintf past the end of buf'') else ret ())
            else seq (write_settings w (cpuset_settings (cpuset_node env) c cpus)) (\<lambda>_. ret ()))"

definition cpu_settings :: "cgroup_node \<Rightarrow> ruri_container \<Rightarrow> int \<Rightarrow> (path \<times> string) list" where
  "cpu_settings node c quota =
     (if cg_type node = Cgroup_v2
      then [(cgroup_dir node c @ ''cpu.max'', line_of (show_int quota @ '' 100000''))]
      else [(cgroup_dir node c @ ''cpu.cfs_quota_us'', line_of (show_int quota)),
            (cgroup_dir node c @ ''cpu.cfs_period_us'', line_of ''100000'')])"

text \<open>cpupercent is an int: its product with 1000 may leave the range.\<close>

definition ruri_set_cpupercent :: "world \<Rightarrow> ruri_container \<Rightarrow> cgroup_env \<Rightarrow> unit prog" where
  "ruri_set_cpupercent w c env =
     seq (attach_cgroup w (cpu_node env) c (pid_text w (cpu_node env)))
      (\<lambda>attached. if \<not> attached \<or> cpupercent c \<le> 0 then ret ()
        else if cpupercent c * 1000 > 2 ^ 31 - 1 then die (Undefined ''signed overflow of cpupercent * 1000'')
        else seq (write_settings w (cpu_settings (cpu_node env) c (cpupercent c * 1000))) (\<lambda>_. ret ()))"

definition ruri_set_limit :: "world \<Rightarrow> ruri_container \<Rightarrow> unit prog" where
  "ruri_set_limit w c =
     seq (ruri_detect_cgroup_env w)
      (\<lambda>env. seq (ruri_set_memory_limit w c env)
        (\<lambda>_. seq (ruri_set_cpuset w c env) (\<lambda>_. ruri_set_cpupercent w c env)))"

section \<open>Processes of a container\<close>

definition v2_dir :: "ruri_container \<Rightarrow> path" where
  "v2_dir c = ''/sys/fs/cgroup/ruri/'' @ show_int (container_id c)"

definition ruri_try_cgroup_kill :: "world \<Rightarrow> ruri_container \<Rightarrow> int prog" where
  "ruri_try_cgroup_kill w c =
     seq (ask (w_cgroup2 w))
      (\<lambda>v2. if \<not> v2 then ret 1
        else seq (open_and_write w (v2_dir c @ ''/cgroup.kill'') (line_of ''1''))
          (\<lambda>r. if r \<noteq> 0 then ret 1
            else seq (run w (Rmdir (v2_dir c @ ''/ruri-'' @ show_int (container_id c))))
              (\<lambda>_. seq (run w (Rmdir (v2_dir c))) (\<lambda>_. ret 0))))"

text \<open>fgets with a buffer of 256 characters: up to 255 characters or through a newline.\<close>

definition fgets_line :: "string \<Rightarrow> string" where
  "fgets_line s = (let l = takeWhile (\<lambda>ch. ch \<noteq> newline) (take 255 s)
     in if length l < length (take 255 s) then l @ [newline] else l)"

lemma fgets_line_nonempty: "s \<noteq> [] \<Longrightarrow> 0 < length (fgets_line s)"
  by (cases s) (auto simp: fgets_line_def Let_def)

function pid_in_lines :: "int \<Rightarrow> string \<Rightarrow> bool" where
  "pid_in_lines pid s =
     (if s = [] then False
      else if atoi (fgets_line s) = pid then True
      else pid_in_lines pid (drop (length (fgets_line s)) s))"
  by pat_completeness auto
termination
  using fgets_line_nonempty by (relation "measure (\<lambda>(pid, s). length s)") (auto simp: Let_def)

declare pid_in_lines.simps [simp del]

definition procs_node :: "cgroup_env \<Rightarrow> cgroup_node" where
  "procs_node env =
     (if cg_type (memory_node env) \<noteq> Cgroup_enosys then memory_node env
      else if cg_type (cpuset_node env) \<noteq> Cgroup_enosys then cpuset_node env
      else cpu_node env)"

definition ruri_pid_in_cgroup :: "world \<Rightarrow> int \<Rightarrow> int \<Rightarrow> bool prog" where
  "ruri_pid_in_cgroup w pid cid =
     seq (ruri_detect_cgroup_env w)
      (\<lambda>env. if cg_type (procs_node env) = Cgroup_enosys then ret False
        else seq (ask (\<lambda>tr. w_text w tr (the (cg_prefix (procs_node env)) @ show_int cid @ ''/cgroup.procs'')))
          (\<lambda>procs. ret (case procs of None \<Rightarrow> False | Some s \<Rightarrow> pid_in_lines pid s)))"

section \<open>Lemmas\<close>

subsection \<open>Sizes\<close>

lemma digits_val_stop:
  "\<forall>c \<in> set s. is_digit c \<Longrightarrow> (t = [] \<or> \<not> is_digit (hd t)) \<Longrightarrow> digits_val a (s @ t) = digits_val a s"
  by (cases t) (auto simp: digits_val_append)

text \<open>A printed number followed by anything but a digit.\<close>

lemma number_then:
  assumes "t = [] \<or> \<not> is_digit (hd t)"
  shows "dropWhile is_space (show_nat n @ t) = show_nat n @ t"
    and "signed_val (show_nat n @ t) = int n" and "strtol_end (show_nat n @ t) = t"
proof -
  obtain c cs where s: "show_nat n = c # cs" by (meson neq_Nil_conv show_nat_nonempty)
  have c: "is_digit c" using show_nat_digits[of c n] s by auto
  have all: "\<forall>x \<in> set (show_nat n). is_digit x" using show_nat_digits by blast
  show d: "dropWhile is_space (show_nat n @ t) = show_nat n @ t"
    using s c is_digit_not by auto
  have "digits_val 0 ((c # cs) @ t) = n"
    using digits_val_stop[OF all assms, of 0] digits_val_show_nat[of n] unfolding s
    by (simp del: digits_val.simps)
  then show "signed_val (show_nat n @ t) = int n"
    using s is_digit_not[OF c] by (simp add: signed_val_def del: digits_val.simps)
  have "dropWhile is_digit (show_nat n @ t) = t"
    using all assms by (cases t) (simp_all add: dropWhile_append dropWhile_eq_Nil_conv)
  then show "strtol_end (show_nat n @ t) = t"
    unfolding strtol_end_def d using s c is_digit_not[OF c] by (simp add: Let_def)
qed

definition unit_factor :: "char \<Rightarrow> int" where
  "unit_factor u = (if u \<in> {CHR ''k'', CHR ''K''} then 1024
     else if u \<in> {CHR ''m'', CHR ''M''} then 1024 ^ 2 else 1024 ^ 3)"

lemma scale_size_exact: "0 < k \<Longrightarrow> scale_size n k = (if n * k \<le> ssize_max then n * k else -2)"
proof -
  assume k: "0 < k"
  have "n \<le> ssize_max div k \<longleftrightarrow> n * k \<le> ssize_max"
  proof
    assume "n \<le> ssize_max div k"
    then have "n * k \<le> (ssize_max div k) * k" using k by simp
    also have "\<dots> \<le> ssize_max" using k by (simp add: ssize_max_def minus_mod_eq_div_mult [symmetric])
    finally show "n * k \<le> ssize_max" .
  next
    assume "n * k \<le> ssize_max"
    then have "n * k div k \<le> ssize_max div k" using k by (rule zdiv_mono1)
    then show "n \<le> ssize_max div k" using k by simp
  qed
  then show ?thesis by (auto simp: scale_size_def)
qed

text \<open>C29: A number with a unit letter is that many bytes, a number alone is bytes, and what
  does not fit a 64-bit size is reported as too large; no other unit is accepted.\<close>

theorem humansize_exact:
  assumes "\<not> is_digit u"
  shows "humansize_to_bytes (show_nat n) = (if int n \<le> ssize_max then int n else -2) \<and>
    humansize_to_bytes (show_nat n @ [u]) =
      (if int n > ssize_max then -2
       else if u \<notin> set ''kKmMgG'' then -1
       else if int n * unit_factor u \<le> ssize_max then int n * unit_factor u else -2)"
  using number_then[of "[u]" n] number_then[of "[]" n] assms not_sym[OF show_nat_nonempty[of n]]
  by (auto simp: humansize_to_bytes_def ssize_max_def Let_def scale_size_exact[unfolded ssize_max_def]
        unit_factor_def)

lemma humansize_exact_witness: "humansize_to_bytes (show_nat 512 @ ''M'') = 536870912"
  using humansize_exact[of "CHR ''M''" 512] by (simp add: is_digit_def ssize_max_def unit_factor_def)

lemma humansize_range: "humansize_to_bytes s \<in> {-1, -2} \<union> {0..ssize_max}"
proof -
  have "scale_size n k \<in> {-2} \<union> {0..ssize_max}" if "0 \<le> n" "0 < k" for n k
    using that scale_size_exact[of k n] by auto
  then show ?thesis unfolding humansize_to_bytes_def Let_def
    by (auto simp: ssize_max_def split: list.splits)
qed

subsection \<open>Detection\<close>

lemma open_and_write_only: "allowed (Open p) \<Longrightarrow> allowed (Write_to p v) \<Longrightarrow> only allowed (open_and_write w p v)"
  unfolding open_and_write_def by (intro only_intros)

text \<open>A node is unsupported and without a prefix, or has a directory as its prefix.\<close>

definition node_ok :: "cgroup_node \<Rightarrow> bool" where
  "node_ok n = (case cg_prefix n of None \<Rightarrow> cg_type n = Cgroup_enosys
     | Some p \<Rightarrow> cg_type n \<noteq> Cgroup_enosys \<and> p \<noteq> [] \<and> last p = CHR ''/'')"

definition cgroup_env_ok :: "cgroup_env \<Rightarrow> bool" where
  "cgroup_env_ok env = (node_ok (memory_node env) \<and> node_ok (cpuset_node env) \<and> node_ok (cpu_node env))"

lemma open_and_write_returns: "returns (\<lambda>_. True) (open_and_write w p v)"
  unfolding open_and_write_def by (intro returns_seq[OF returns_call(1)] returns_if returns_ret TrueI)

lemma detect_block_returns:
  assumes "P env" "returns (\<lambda>_. True) s" "P (upd (\<lambda>_. node) env)"
  shows "returns P (detect_block w f get upd s node env)"
  unfolding detect_block_def
  by (intro returns_seq[OF returns_call(3)] returns_if returns_seq[OF assms(2)] returns_ret assms)

lemma set_node_ok:
  "cgroup_env_ok env \<Longrightarrow> node_ok n \<Longrightarrow> cgroup_env_ok (memory_node_update (\<lambda>_. n) env)"
  "cgroup_env_ok env \<Longrightarrow> node_ok n \<Longrightarrow> cgroup_env_ok (cpuset_node_update (\<lambda>_. n) env)"
  "cgroup_env_ok env \<Longrightarrow> node_ok n \<Longrightarrow> cgroup_env_ok (cpu_node_update (\<lambda>_. n) env)"
  by (simp_all add: cgroup_env_ok_def)

lemma the_nodes_ok: "node_ok v2_node" "node_ok unified_node" "node_ok no_cgroup"
  "node_ok (cgroup_at (dir @ ''/'') Cgroup_v1)"
  by (simp_all add: node_ok_def v2_node_def unified_node_def no_cgroup_def cgroup_at_def)

lemma blocks_return:
  "cgroup_env_ok env \<Longrightarrow> returns cgroup_env_ok (v2_block w l memory_node_update env)"
  "cgroup_env_ok env \<Longrightarrow> returns cgroup_env_ok (v2_block w l cpuset_node_update env)"
  "cgroup_env_ok env \<Longrightarrow> returns cgroup_env_ok (v2_block w l cpu_node_update env)"
  "returns (\<lambda>_. True) (unified_setup w l)"
  unfolding v2_block_def unified_setup_def
  by (intro returns_seq[OF open_and_write_returns] returns_seq[OF returns_call(2)] returns_ret TrueI;
      simp add: set_node_ok the_nodes_ok)+

lemma detect_cgroup_v2_returns: "cgroup_env_ok env \<Longrightarrow> returns cgroup_env_ok (detect_cgroup_v2 w env)"
  unfolding detect_cgroup_v2_def
  by (intro returns_seq[OF returns_call(2)] returns_seq[OF open_and_write_returns]
      returns_seq[OF blocks_return(1)] returns_seq[OF blocks_return(3)] blocks_return(2))

lemma detect_cgroup_unified_returns:
  assumes "cgroup_env_ok env"
  shows "returns cgroup_env_ok (detect_cgroup_unified w env)"
  unfolding detect_cgroup_unified_def
  by (intro returns_seq[where P = cgroup_env_ok] detect_block_returns assms blocks_return(4) set_node_ok the_nodes_ok)

lemma detect_cgroup_v1_returns:
  assumes "cgroup_env_ok env"
  shows "returns cgroup_env_ok (detect_cgroup_v1_fallback w env)"
  unfolding detect_cgroup_v1_fallback_def v1_block_def
  by (intro returns_seq[where P = cgroup_env_ok] detect_block_returns assms returns_call(2) set_node_ok the_nodes_ok)

text \<open>C30: On every host the detection returns, and each controller it reports is either
  unsupported and has no prefix, or is of version 1 or 2 and its prefix is a directory
  path: the limit functions never print a NULL prefix.\<close>

theorem detected_env_well_formed:
  "\<exists>env tr'. ruri_detect_cgroup_env w tr = (Inr env, tr') \<and> cgroup_env_ok env"
proof -
  have "cgroup_env_ok no_cgroups" by (simp add: cgroup_env_ok_def no_cgroups_def the_nodes_ok)
  then have "returns cgroup_env_ok (ruri_detect_cgroup_env w)"
    unfolding ruri_detect_cgroup_env_def
    by (intro returns_seq[where P = cgroup_env_ok] detect_cgroup_v2_returns detect_cgroup_unified_returns
        detect_cgroup_v1_returns)
  then show ?thesis unfolding returns_def by blast
qed

text \<open>The first of the available hierarchies.\<close>

fun first_available :: "(bool \<times> cgroup_node) list \<Rightarrow> cgroup_node" where
  "first_available [] = no_cgroup"
| "first_available ((b, n) # rest) = (if b then n else first_available rest)"

text \<open>A kernel whose answers do not change while ruri looks at it.\<close>

definition steady :: "world \<Rightarrow> bool" where
  "steady w = ((\<forall>tr c. w_ret w tr c = w_ret w [] c) \<and> (\<forall>tr p. w_access w tr p = w_access w [] p))"

definition writable :: "world \<Rightarrow> path \<Rightarrow> string \<Rightarrow> bool" where
  "writable w p v = (w_ret w [] (Open p) \<ge> 0 \<and> w_ret w [] (Write_to p v) = int (length v))"

definition yields :: "'a prog \<Rightarrow> 'a \<Rightarrow> bool" where "yields p v = returns (\<lambda>u. u = v) p"

lemma yields_seq: "yields p v \<Longrightarrow> yields (f v) u \<Longrightarrow> yields (seq p f) u"
  unfolding yields_def by (rule returns_seq[where P = "\<lambda>x. x = v"]) auto

lemma yields_eq: "yields p v \<Longrightarrow> v = u \<Longrightarrow> yields p u"
  by simp

lemma yields_then: "returns (\<lambda>_. True) p \<Longrightarrow> (\<And>v. yields (f v) u) \<Longrightarrow> yields (seq p f) u"
  unfolding yields_def by (rule returns_seq) auto

lemma yields_write:
  assumes "steady w"
  shows "yields (v2_block w l upd env) (if writable w v2_ruri_control l then upd (\<lambda>_. v2_node) env else env)"
proof -
  obtain a b where "w_ret w tr (Open v2_ruri_control) = a" "w_ret w tr (Write_to v2_ruri_control l) = b" for tr
    using assms unfolding steady_def by metis
  then show ?thesis
    by (auto simp: yields_def returns_def v2_block_def open_and_write_def writable_def seq_assoc)
qed

lemma yields_block:
  assumes "steady w" "returns (\<lambda>_. True) s"
  shows "yields (detect_block w f get upd s node env)
     (if w_access w [] f \<and> cg_type (get env) = Cgroup_enosys then upd (\<lambda>_. node) env else env)"
proof -
  have a: "w_access w tr f = w_access w [] f" for tr using assms(1) unfolding steady_def by blast
  show ?thesis
  proof (cases "w_access w [] f \<and> cg_type (get env) = Cgroup_enosys")
    case True
    have "yields (seq s (\<lambda>_. ret (upd (\<lambda>_. node) env))) (upd (\<lambda>_. node) env)"
      by (rule yields_then[OF assms(2)]) (simp add: yields_def returns_def)
    then show ?thesis using True a by (simp add: yields_def returns_def detect_block_def)
  next
    case False
    then show ?thesis using a by (auto simp: yields_def returns_def detect_block_def)
  qed
qed

definition pick :: "bool \<Rightarrow> cgroup_node \<Rightarrow> cgroup_node \<Rightarrow> cgroup_node" where
  "pick b node old = (if b \<and> cg_type old = Cgroup_enosys then node else old)"

lemma v2_picks:
  assumes "steady w"
  shows "yields (v2_block w l memory_node_update \<lparr>memory_node = no_cgroup, cpuset_node = s, cpu_node = p\<rparr>)
      \<lparr>memory_node = pick (writable w v2_ruri_control l) v2_node no_cgroup, cpuset_node = s, cpu_node = p\<rparr>"
    "yields (v2_block w l cpu_node_update \<lparr>memory_node = m, cpuset_node = s, cpu_node = no_cgroup\<rparr>)
      \<lparr>memory_node = m, cpuset_node = s, cpu_node = pick (writable w v2_ruri_control l) v2_node no_cgroup\<rparr>"
    "yields (v2_block w l cpuset_node_update \<lparr>memory_node = m, cpuset_node = no_cgroup, cpu_node = p\<rparr>)
      \<lparr>memory_node = m, cpuset_node = pick (writable w v2_ruri_control l) v2_node no_cgroup, cpu_node = p\<rparr>"
  by (rule yields_eq[OF yields_write[OF assms]]; simp add: pick_def no_cgroup_def)+

lemma block_picks:
  assumes "steady w" "returns (\<lambda>_. True) calls"
  shows "yields (detect_block w f memory_node memory_node_update calls node
        \<lparr>memory_node = m, cpuset_node = s, cpu_node = p\<rparr>)
      \<lparr>memory_node = pick (w_access w [] f) node m, cpuset_node = s, cpu_node = p\<rparr>"
    "yields (detect_block w f cpuset_node cpuset_node_update calls node
        \<lparr>memory_node = m, cpuset_node = s, cpu_node = p\<rparr>)
      \<lparr>memory_node = m, cpuset_node = pick (w_access w [] f) node s, cpu_node = p\<rparr>"
    "yields (detect_block w f cpu_node cpu_node_update calls node
        \<lparr>memory_node = m, cpuset_node = s, cpu_node = p\<rparr>)
      \<lparr>memory_node = m, cpuset_node = s, cpu_node = pick (w_access w [] f) node p\<rparr>"
  by (rule yields_eq[OF yields_block[OF assms]]; simp add: pick_def)+

definition memory_choice :: "world \<Rightarrow> (bool \<times> cgroup_node) list" where
  "memory_choice w =
     [(writable w v2_ruri_control memory_line, v2_node),
      (w_access w [] ''/sys/fs/cgroup/unified/memory.high'', unified_node),
      (w_access w [] ''/sys/fs/cgroup/memory/memory.limit_in_bytes'', cgroup_at ''/sys/fs/cgroup/memory/ruri/'' Cgroup_v1),
      (w_access w [] ''/dev/memcg/memory.limit_in_bytes'', cgroup_at ''/dev/memcg/ruri/'' Cgroup_v1)]"

definition cpuset_choice :: "world \<Rightarrow> (bool \<times> cgroup_node) list" where
  "cpuset_choice w =
     [(writable w v2_ruri_control cpuset_line, v2_node),
      (w_access w [] ''/sys/fs/cgroup/unified/cpuset.cpus'', unified_node),
      (w_access w [] ''/sys/fs/cgroup/cpuset/cpuset.cpus'', cgroup_at ''/sys/fs/cgroup/cpuset/ruri/'' Cgroup_v1),
      (w_access w [] ''/dev/cpuset/cpus'', cgroup_at ''/dev/cpuset/ruri/'' Cgroup_v1)]"

definition cpu_choice :: "world \<Rightarrow> (bool \<times> cgroup_node) list" where
  "cpu_choice w =
     [(writable w v2_ruri_control cpu_line, v2_node),
      (w_access w [] ''/sys/fs/cgroup/unified/cpu.max'', unified_node),
      (w_access w [] ''/sys/fs/cgroup/cpu/cpu.cfs_quota_us'', cgroup_at ''/sys/fs/cgroup/cpu/ruri/'' Cgroup_v1)]"

definition chosen_env :: "world \<Rightarrow> cgroup_env" where
  "chosen_env w = \<lparr>memory_node = first_available (memory_choice w),
     cpuset_node = first_available (cpuset_choice w), cpu_node = first_available (cpu_choice w)\<rparr>"

lemma node_types [simp]:
  "cg_type v2_node = Cgroup_v2" "cg_type unified_node = Cgroup_v2" "cg_type no_cgroup = Cgroup_enosys"
  "cg_type (cgroup_at p t) = t"
  by (simp_all add: v2_node_def unified_node_def no_cgroup_def cgroup_at_def)

lemma first_available_type:
  "list_all (\<lambda>(b, n). cg_type n \<noteq> Cgroup_enosys) xs \<Longrightarrow>
   cg_type (first_available xs) = Cgroup_enosys \<longleftrightarrow> list_all (\<lambda>(b, n). \<not> b) xs"
  by (induction xs) (auto split: if_splits)

lemma first_available_append:
  "first_available (xs @ ys) = (if list_all (\<lambda>(b, n). \<not> b) xs then first_available ys else first_available xs)"
  by (induction xs) auto

lemma first_available_pick:
  "pick b n no_cgroup = first_available [(b, n)]"
  "list_all (\<lambda>(b, n). cg_type n \<noteq> Cgroup_enosys) xs \<Longrightarrow>
   pick b n (first_available xs) = first_available (xs @ [(b, n)])"
proof -
  show "pick b n no_cgroup = first_available [(b, n)]" by (simp add: pick_def)
  assume "list_all (\<lambda>(b, n). cg_type n \<noteq> Cgroup_enosys) xs"
  moreover have "first_available xs = no_cgroup" if "list_all (\<lambda>(b, n). \<not> b) xs"
    using that by (induction xs) auto
  ultimately show "pick b n (first_available xs) = first_available (xs @ [(b, n)])"
    by (simp add: pick_def first_available_type first_available_append)
qed

text \<open>A host with cgroup v1 for memory only.\<close>

definition sample_host :: world where
  "sample_host =
     \<lparr>w_ret = \<lambda>_ c. (case c of Write_to p v \<Rightarrow> int (length v)
        | Open p \<Rightarrow> if is_prefix ''/sys/fs/cgroup/memory/'' p then 3 else -2 | _ \<Rightarrow> 0),
      w_lstat = \<lambda>_ _. None, w_realpath = \<lambda>_ _. None,
      w_access = \<lambda>_ p. p = ''/sys/fs/cgroup/memory/memory.limit_in_bytes'', w_cgroup2 = \<lambda>_. False,
      w_text = \<lambda>_ _. None, w_readlink = \<lambda>_ _. None, w_is_dir = \<lambda>_ _. True,
      w_is_regular = \<lambda>_ _. True, w_is_proc = \<lambda>_ _. False, w_proc_dirs = \<lambda>_. Some [], w_mounts = \<lambda>_. Some [],
      w_syscall_known = \<lambda>_. True, w_kernel = Version 6 1 0, w_arch = Arch_x86_64,
      w_force_panic = False, w_pid = 7\<rparr>"

lemma sample_host_simps [simp]:
  "w_ret sample_host tr (Open p) = (if is_prefix ''/sys/fs/cgroup/memory/'' p then 3 else -2)"
  "w_access sample_host tr p = (p = ''/sys/fs/cgroup/memory/memory.limit_in_bytes'')"
  by (simp_all add: sample_host_def)

lemma steady_sample_host: "steady sample_host"
  by (simp add: steady_def sample_host_def)

lemma detect_yields:
  assumes "steady w"
  shows "yields (ruri_detect_cgroup_env w) (chosen_env w)"
    unfolding ruri_detect_cgroup_env_def detect_cgroup_v2_def detect_cgroup_unified_def
      detect_cgroup_v1_fallback_def v1_block_def seq_assoc no_cgroups_def
    by (rule yields_then[OF returns_call(2)] yields_then[OF open_and_write_returns]
        yields_seq[OF v2_picks(1)[OF assms]] yields_seq[OF v2_picks(2)[OF assms]]
        yields_seq[OF block_picks(1)[OF assms blocks_return(4)]] yields_seq[OF block_picks(2)[OF assms blocks_return(4)]]
        yields_seq[OF block_picks(3)[OF assms blocks_return(4)]]
        yields_seq[OF block_picks(1)[OF assms returns_call(2)]] yields_seq[OF block_picks(3)[OF assms returns_call(2)]]
        yields_seq[OF block_picks(2)[OF assms returns_call(2)]] yields_seq[OF v2_picks(3)[OF assms]]
        yields_eq[OF block_picks(2)[OF assms returns_call(2)]])+
      (simp only: chosen_env_def memory_choice_def cpuset_choice_def cpu_choice_def first_available_pick
        node_types cgroup_type.distinct not_False_eq_True append.simps list.pred_inject split_conv simp_thms)

text \<open>C31: On a host whose answers do not change meanwhile, the detection chooses for each
  controller the first available hierarchy, in the order: the one mounted at
  /sys/fs/cgroup, the unified one of hybrid systems, version 1, version 1 below /dev.\<close>

theorem detection_takes_first_available:
  assumes "steady w"
  shows "\<exists>tr'. ruri_detect_cgroup_env w tr = (Inr (chosen_env w), tr')"
  using detect_yields[OF assms] unfolding yields_def returns_def by blast

lemma detection_takes_first_available_witness:
  "\<exists>tr'. ruri_detect_cgroup_env sample_host [] =
     (Inr \<lparr>memory_node = cgroup_at ''/sys/fs/cgroup/memory/ruri/'' Cgroup_v1, cpuset_node = no_cgroup,
        cpu_node = no_cgroup\<rparr>, tr')"
  using detection_takes_first_available[of sample_host "[]"] steady_sample_host
  by (simp add: chosen_env_def memory_choice_def cpuset_choice_def
      cpu_choice_def writable_def v2_ruri_control_def)

subsection \<open>Limits\<close>

lemma write_settings_only:
  "(\<And>p. allowed (Open p)) \<Longrightarrow> (\<And>p v. (p, v) \<in> set ss \<Longrightarrow> allowed (Write_to p v)) \<Longrightarrow>
   only allowed (write_settings w ss)"
  by (induction ss rule: write_settings.induct) (auto intro!: only_intros open_and_write_only simp del: prog_simps)

text \<open>Every write of the program is either the one to cgroup.procs or a setting of S, and
  a setting is only written after the process has entered the group.\<close>

definition attached_writes :: "world \<Rightarrow> cgroup_node \<Rightarrow> ruri_container \<Rightarrow> string \<Rightarrow> (path \<times> string) set \<Rightarrow>
    sys_call list \<Rightarrow> sys_call list \<Rightarrow> bool" where
  "attached_writes w node c pid S tr cs =
     (let procs = cgroup_dir node c @ ''cgroup.procs'';
          enter = [Mkdir (cgroup_dir node c) mode_user, Open procs]
      in \<forall>p v. Write_to p v \<in> set cs \<longrightarrow> (p, v) = (procs, pid) \<or>
           (p, v) \<in> S \<and> take 3 cs = enter @ [Write_to procs pid] \<and>
           w_ret w (tr @ enter) (Write_to procs pid) = int (length pid))"

definition writes_attached :: "world \<Rightarrow> cgroup_node \<Rightarrow> ruri_container \<Rightarrow> string \<Rightarrow> (path \<times> string) set \<Rightarrow>
    'a prog \<Rightarrow> bool" where
  "writes_attached w node c pid S p =
     (\<forall>tr. \<exists>cs. snd (p tr) = tr @ cs \<and> attached_writes w node c pid S tr cs)"

lemma attach_then:
  assumes "only (\<lambda>c. \<forall>p v. c = Write_to p v \<longrightarrow> (p, v) \<in> S) q"
  shows "writes_attached w node c pid S
    (seq (attach_cgroup w node c pid) (\<lambda>attached. if \<not> attached then ret () else q))"
  unfolding writes_attached_def
proof
  fix tr
  let ?dir = "cgroup_dir node c"
  let ?procs = "?dir @ ''cgroup.procs''"
  let ?enter = "[Mkdir ?dir mode_user, Open ?procs]"
  let ?p = "seq (attach_cgroup w node c pid) (\<lambda>attached. if \<not> attached then ret () else q)"
  have few: "attached_writes w node c pid S tr cs" if "set cs \<subseteq> set (?enter @ [Write_to ?procs pid])" for cs
    using that by (auto simp: attached_writes_def Let_def)
  show "\<exists>cs. snd (?p tr) = tr @ cs \<and> attached_writes w node c pid S tr cs"
  proof (cases "cg_type node = Cgroup_enosys")
    case True
    then show ?thesis using few[of "[]"] by (auto simp: attach_cgroup_def warn_unless_def seq_def)
  next
    case enosys: False
    show ?thesis
    proof (cases "w_ret w (tr @ [Mkdir ?dir mode_user]) (Open ?procs) < 0")
      case True
      then show ?thesis using few[of ?enter] enosys
        by (auto simp: attach_cgroup_def open_and_write_def warn_unless_def seq_def)
    next
      case opened: False
      show ?thesis
      proof (cases "w_ret w (tr @ ?enter) (Write_to ?procs pid) = int (length pid)")
        case False
        then show ?thesis using few[of "?enter @ [Write_to ?procs pid]"] enosys opened
          by (auto simp: attach_cgroup_def open_and_write_def warn_unless_def seq_def)
      next
        case True
        obtain r tr2 where q: "q (tr @ ?enter @ [Write_to ?procs pid]) = (r, tr2)" by fastforce
        then obtain cs where cs: "tr2 = (tr @ ?enter @ [Write_to ?procs pid]) @ cs"
          "list_all (\<lambda>c. \<forall>p v. c = Write_to p v \<longrightarrow> (p, v) \<in> S) cs"
          using onlyD[OF assms] by blast
        have "attached_writes w node c pid S tr (?enter @ [Write_to ?procs pid] @ cs)"
          unfolding attached_writes_def Let_def
        proof (intro allI impI)
          fix p v assume "Write_to p v \<in> set (?enter @ [Write_to ?procs pid] @ cs)"
          then have "(p, v) = (?procs, pid) \<or> (p, v) \<in> S" using cs(2) by (auto simp: list_all_iff)
          then show "(p, v) = (?procs, pid) \<or> (p, v) \<in> S \<and>
              take 3 (?enter @ [Write_to ?procs pid] @ cs) = ?enter @ [Write_to ?procs pid] \<and>
              w_ret w (tr @ ?enter) (Write_to ?procs pid) = int (length pid)"
            using True by simp
        qed
        moreover have "attach_cgroup w node c pid tr = (Inr True, tr @ ?enter @ [Write_to ?procs pid])"
          using enosys opened True by (simp add: attach_cgroup_def open_and_write_def seq_assoc)
        then have "?p tr = q (tr @ ?enter @ [Write_to ?procs pid])" by (simp add: seq_def)
        ultimately show ?thesis using cs(1) q by (intro exI[of _ "?enter @ [Write_to ?procs pid] @ cs"]) simp
      qed
    qed
  qed
qed

lemma settings_only:
  "set ss \<subseteq> S \<Longrightarrow> only (\<lambda>c. \<forall>p v. c = Write_to p v \<longrightarrow> (p, v) \<in> S) (write_settings w ss)"
  by (rule write_settings_only) auto

definition memory_limits :: "cgroup_node \<Rightarrow> ruri_container \<Rightarrow> (path \<times> string) set" where
  "memory_limits node c = (case memory c of None \<Rightarrow> {}
     | Some m \<Rightarrow> if humansize_to_bytes m < 0 then {} else set (memory_settings node c (humansize_to_bytes m)))"

definition cpuset_limits :: "cgroup_node \<Rightarrow> ruri_container \<Rightarrow> (path \<times> string) set" where
  "cpuset_limits node c = (case cpuset c of None \<Rightarrow> {} | Some s \<Rightarrow> set (cpuset_settings node c s))"

definition cpu_limits :: "cgroup_node \<Rightarrow> ruri_container \<Rightarrow> (path \<times> string) set" where
  "cpu_limits node c =
     (if cpupercent c \<le> 0 then {} else set (cpu_settings node c (cpupercent c * 1000)))"

lemma humansize_codes: "humansize_to_bytes s < 0 \<longleftrightarrow> humansize_to_bytes s = -1 \<or> humansize_to_bytes s = -2"
  using humansize_range[of s] by (auto simp: ssize_max_def)

text \<open>C32: The three limit functions write only the process id to cgroup.procs and the
  control files of a limit the container has; a control file is written only after the
  process id was accepted, so no limit is set on a group the process did not enter.\<close>

theorem limits_only_after_attach:
  "writes_attached w (memory_node env) c (show_int (w_pid w)) (memory_limits (memory_node env) c)
     (ruri_set_memory_limit w c env) \<and>
   writes_attached w (cpuset_node env) c (pid_text w (cpuset_node env)) (cpuset_limits (cpuset_node env) c)
     (ruri_set_cpuset w c env) \<and>
   writes_attached w (cpu_node env) c (pid_text w (cpu_node env)) (cpu_limits (cpu_node env) c)
     (ruri_set_cpupercent w c env)"
proof (intro conjI)
  show "writes_attached w (memory_node env) c (show_int (w_pid w)) (memory_limits (memory_node env) c)
     (ruri_set_memory_limit w c env)"
    unfolding ruri_set_memory_limit_def
    by (rule attach_then)
      (auto intro!: only_intros settings_only simp: memory_limits_def humansize_codes simp del: prog_simps seq_run)
  show "writes_attached w (cpuset_node env) c (pid_text w (cpuset_node env)) (cpuset_limits (cpuset_node env) c)
     (ruri_set_cpuset w c env)"
    unfolding ruri_set_cpuset_def
    by (rule attach_then)
      (auto intro!: only_intros settings_only simp: cpuset_limits_def simp del: prog_simps seq_run dest: in_set_butlastD)
  have split_if: "(if \<not> attached \<or> b then p else q) = (if \<not> attached then p else if b then p else q)"
    for attached b :: bool and p q :: "unit prog" by auto
  show "writes_attached w (cpu_node env) c (pid_text w (cpu_node env)) (cpu_limits (cpu_node env) c)
     (ruri_set_cpupercent w c env)"
    unfolding ruri_set_cpupercent_def split_if
    by (rule attach_then)
      (auto intro!: only_intros settings_only simp: cpu_limits_def simp del: prog_simps seq_run)
qed

subsection \<open>Processes\<close>

lemma show_nat_length: "n < 10 ^ k \<Longrightarrow> 0 < k \<Longrightarrow> length (show_nat n) \<le> k"
proof (induction k arbitrary: n)
  case (Suc k)
  show ?case
  proof (cases "n < 10")
    case True
    then show ?thesis by (subst show_nat.simps) simp
  next
    case False
    then have "n div 10 < 10 ^ k" "0 < k" using Suc.prems by (auto intro!: gr0I)
    then show ?thesis using Suc.IH False by (subst show_nat.simps) simp
  qed
qed simp

lemma line_of_nonempty [simp]: "line_of s \<noteq> []"
  by (simp add: line_of_def)

text \<open>A process id of a file of processes, as atoi reads it.\<close>

definition pid_ok :: "int \<Rightarrow> bool" where "pid_ok p = (0 \<le> p \<and> p < 2 ^ 31)"

lemma atoi_line:
  assumes "pid_ok p"
  shows "atoi (line_of (show_int p)) = p"
proof -
  have eq: "line_of (show_int p) = show_nat (nat p) @ [newline]"
    using assms by (simp add: line_of_def show_int_def pid_ok_def)
  have nl: "\<not> is_digit newline" by (simp add: is_digit_def)
  have "strtol (line_of (show_int p)) = p"
    unfolding eq strtol_def using number_then[of "[newline]" "nat p"] nl assms by (simp add: pid_ok_def)
  then show ?thesis using assms by (simp add: atoi_def pid_ok_def signed_take_bit_int_eq_self)
qed

lemma fgets_pid_line:
  assumes "pid_ok p"
  shows "fgets_line (line_of (show_int p) @ rest) = line_of (show_int p)"
proof -
  have len: "length (show_nat (nat p)) \<le> 10" using assms by (intro show_nat_length) (auto simp: pid_ok_def)
  have no: "\<forall>ch \<in> set (show_nat (nat p)). ch \<noteq> newline"
    using show_nat_digits is_digit_not by blast
  have eq: "line_of (show_int p) @ rest = show_nat (nat p) @ newline # rest"
    using assms by (simp add: line_of_def show_int_def pid_ok_def)
  have "take 255 (line_of (show_int p) @ rest) = show_nat (nat p) @ newline # take (254 - length (show_nat (nat p))) rest"
    unfolding eq using len by (simp add: take_Cons')
  then show ?thesis using no assms
    by (simp add: fgets_line_def Let_def takeWhile_append2 line_of_def show_int_def pid_ok_def takeWhile_tail)
qed

lemma pid_in_lines_iff:
  assumes "list_all pid_ok pids"
  shows "pid_in_lines pid (concat (map (\<lambda>p. line_of (show_int p)) pids)) \<longleftrightarrow> pid \<in> set pids"
  using assms
proof (induction pids)
  case Nil
  then show ?case by (simp add: pid_in_lines.simps)
next
  case (Cons p pids)
  let ?rest = "concat (map (\<lambda>p. line_of (show_int p)) pids)"
  have "line_of (show_int p) @ ?rest \<noteq> []" by (simp add: line_of_def)
  moreover have "fgets_line (line_of (show_int p) @ ?rest) = line_of (show_int p)"
    "atoi (line_of (show_int p)) = p"
    using Cons.prems fgets_pid_line atoi_line by auto
  ultimately have "pid_in_lines pid (line_of (show_int p) @ ?rest) \<longleftrightarrow> p = pid \<or> pid_in_lines pid ?rest"
    by (subst pid_in_lines.simps) simp
  then show ?case using Cons by auto
qed

text \<open>A process belongs to a container exactly when the cgroup.procs of the container
  under the detected hierarchy lists it; without a hierarchy or that file it does not.\<close>

theorem pid_in_cgroup_iff:
  assumes "ruri_detect_cgroup_env w tr = (Inr env, tr')"
    and "w_text w tr' (the (cg_prefix (procs_node env)) @ show_int cid @ ''/cgroup.procs'')
           = map_option (\<lambda>pids. concat (map (\<lambda>p. line_of (show_int p)) pids)) procs"
    and "\<forall>pids \<in> set_option procs. list_all pid_ok pids"
  shows "ruri_pid_in_cgroup w pid cid tr =
    (Inr (cg_type (procs_node env) \<noteq> Cgroup_enosys \<and> (\<exists>pids. procs = Some pids \<and> pid \<in> set pids)), tr')"
proof -
  have "(case map_option (\<lambda>pids. concat (map (\<lambda>p. line_of (show_int p)) pids)) procs of
      None \<Rightarrow> False | Some s \<Rightarrow> pid_in_lines pid s) \<longleftrightarrow> (\<exists>pids. procs = Some pids \<and> pid \<in> set pids)"
    using assms(3) pid_in_lines_iff by (cases procs) auto
  then show ?thesis using assms(1,2) by (simp add: ruri_pid_in_cgroup_def seq_def)
qed

lemma pid_in_cgroup_iff_witness:
  "\<exists>tr'. ruri_pid_in_cgroup (sample_host\<lparr>w_text := \<lambda>_ p. if p = ''/sys/fs/cgroup/memory/ruri/7/cgroup.procs''
       then Some (concat (map (\<lambda>p. line_of (show_int p)) [41, 42])) else None\<rparr>) 42 7 [] = (Inr True, tr')"
proof -
  let ?w = "sample_host\<lparr>w_text := \<lambda>_ p. if p = ''/sys/fs/cgroup/memory/ruri/7/cgroup.procs''
       then Some (concat (map (\<lambda>p. line_of (show_int p)) [41, 42])) else None\<rparr>"
  have "steady ?w" using steady_sample_host by (simp add: steady_def)
  then obtain tr' where tr': "ruri_detect_cgroup_env ?w [] = (Inr (chosen_env ?w), tr')"
    using detect_yields unfolding yields_def returns_def by blast
  have node: "procs_node (chosen_env ?w) = cgroup_at ''/sys/fs/cgroup/memory/ruri/'' Cgroup_v1"
    by (simp add: procs_node_def chosen_env_def memory_choice_def writable_def v2_ruri_control_def)
  have seven: "show_int 7 = ''7''" by code_simp
  show ?thesis
    using pid_in_cgroup_iff[OF tr', of 7 "Some [41, 42]" 42]
    by (simp add: node seven cgroup_at_def pid_ok_def)
qed

end
