(* ===== verification/Mounting.thy ===== *)
theory Mounting
  imports Sys
begin

text \<open>
  mount.c: ruri_mkdirs, the loop over /proc/filesystems of mount_device, losetup, the
  sources with a file system prefix, the flag prefixes of parse_mount_flags, and
  ruri_trymount, which mounts a directory, device, image or file.
\<close>

unbundle bit_operations_syntax

section \<open>Flags of mount(2)\<close>

definition ms_rdonly :: mount_flags where "ms_rdonly = 1"
definition ms_nosuid :: mount_flags where "ms_nosuid = 2"
definition ms_nodev :: mount_flags where "ms_nodev = 4"
definition ms_noexec :: mount_flags where "ms_noexec = 8"
definition ms_remount :: mount_flags where "ms_remount = 32"
definition ms_bind :: mount_flags where "ms_bind = 4096"
definition ms_rec :: mount_flags where "ms_rec = 16384"
definition ms_private :: mount_flags where "ms_private = 0x40000"
definition ms_relatime :: mount_flags where "ms_relatime = 0x200000"
definition mnt_force :: mount_flags where "mnt_force = 1"
definition mnt_detach :: mount_flags where "mnt_detach = 2"

text \<open>The prefixes in the order of the comparisons of parse_mount_flags.\<close>

definition flag_table :: "(string \<times> mount_flags) list" where
  "flag_table =
    [(''RDONLY:'', ms_rdonly), (''NOSUID:'', ms_nosuid), (''NODEV:'', ms_nodev), (''NOEXEC:'', ms_noexec),
     (''NODIRATIME:'', 0x800), (''NOATIME:'', 0x400), (''SYNCHRONOUS:'', 0x10), (''DIRSYNC:'', 0x80),
     (''MANDLOCK:'', 0x40), (''RELATIME:'', ms_relatime), (''SLAVE:'', 0x80000), (''SHARED:'', 0x100000),
     (''PRIVATE:'', ms_private), (''UNBINDABLE:'', 0x20000), (''SILENT:'', 0x8000),
     (''POSIXACL:'', 0x10000), (''LAZYTIME:'', 0x2000000)]"

lemma flag_table_nonempty: "(p, v) \<in> set flag_table \<Longrightarrow> p \<noteq> []"
  by (auto simp: flag_table_def)

function parse_mount_flags :: "string \<Rightarrow> mount_flags \<Rightarrow> string \<times> mount_flags" where
  "parse_mount_flags source flags =
     (case find_prefix flag_table source of
        None \<Rightarrow> (source, flags)
      | Some (f, rest) \<Rightarrow> parse_mount_flags rest (flags OR f))"
  by pat_completeness auto
termination
  by (relation "measure (\<lambda>(s, f). length s)")
     (auto dest!: find_prefix_Some flag_table_nonempty simp: neq_Nil_conv)

declare parse_mount_flags.simps [simp del]

section \<open>Directories\<close>

definition path_max_dir :: nat where "path_max_dir = 4096"

text \<open>The loop over the characters: \<open>done\<close> is the text before position i, which
  the inner loop copies to a buffer of PATH_MAX + 1 characters.\<close>

fun mkdirs_loop :: "world \<Rightarrow> int \<Rightarrow> string \<Rightarrow> string \<Rightarrow> int \<Rightarrow> (int \<times> bool) prog" where
  "mkdirs_loop w mode done_part [] r = ret (r, False)"
| "mkdirs_loop w mode done_part (c # cs) r =
     (if done_part \<noteq> [] \<and> c = CHR ''/'' then
        (if length done_part > path_max_dir then die (Undefined ''store past the end of buf'')
         else seq (call w (Mkdir done_part mode))
           (\<lambda>r'. if r' \<noteq> 0 \<and> r' \<noteq> - eexist then ret (r', True)
                 else mkdirs_loop w mode (done_part @ [c]) cs r'))
      else mkdirs_loop w mode (done_part @ [c]) cs r)"

definition ruri_mkdirs :: "world \<Rightarrow> path \<Rightarrow> int \<Rightarrow> int prog" where
  "ruri_mkdirs w dir mode =
     (if dir = [] then die (Undefined ''dir[-1] of an empty path'')
      else seq (mkdirs_loop w mode [] dir 0)
        (\<lambda>(r, failed). if failed then ret r
           else if last dir \<noteq> CHR ''/'' then
             seq (call w (Mkdir dir mode)) (\<lambda>r'. ret (if r' = - eexist then 0 else r'))
           else ret (if r = - eexist then 0 else r)))"

definition mode_rw :: int where "mode_rw = 438"

definition mk_mountpoint_dir :: "world \<Rightarrow> path \<Rightarrow> int prog" where
  "mk_mountpoint_dir w target =
     seq (run w (Remove target))
      (\<lambda>_. seq (ask (\<lambda>tr. w_realpath w tr target))
        (\<lambda>test. case test of
           None \<Rightarrow> seq (ruri_mkdirs w target mode_rw) (\<lambda>r. ret (if r \<noteq> 0 then -1 else 0))
         | Some _ \<Rightarrow> ret 0))"

definition touch_mountpoint_file :: "world \<Rightarrow> path \<Rightarrow> int prog" where
  "touch_mountpoint_file w target =
     seq (ruri_mkdirs w target mode_rw)
      (\<lambda>_. seq (run w (Rmdir target))
        (\<lambda>_. seq (call w (Open target))
          (\<lambda>fd. if fd < 0 then seq (call w (Create target)) (\<lambda>fd'. ret (if fd' < 0 then -1 else 0))
                else ret 0)))"

section \<open>Devices\<close>

text \<open>The state of the scan over /proc/filesystems: the two buffers, which of them
  is written, at which position, and whether the line is marked nodev.\<close>

record fs_scan =
  fs_type :: string
  fs_label :: string
  to_type :: bool
  fs_pos :: nat
  fs_nodev :: bool

definition fs_start :: fs_scan where
  "fs_start = \<lparr>fs_type = [], fs_label = [], to_type = False, fs_pos = 0, fs_nodev = False\<rparr>"

definition put_at :: "nat \<Rightarrow> char \<Rightarrow> string \<Rightarrow> string" where
  "put_at i c s = take i s @ [c]"

fun fs_loop :: "world \<Rightarrow> string \<Rightarrow> path \<Rightarrow> mount_flags \<Rightarrow> fs_scan \<Rightarrow> int \<Rightarrow> string \<Rightarrow> int prog" where
  "fs_loop w source target flags st r [] = ret r"
| "fs_loop w source target flags st r (c # cs) =
     (if c = tab then
        fs_loop w source target flags
          (st\<lparr>fs_nodev := (if fs_label st = ''nodev'' then True else fs_nodev st), to_type := True,
              fs_pos := 0, fs_label := []\<rparr>) r cs
      else if c = newline then
        (if \<not> fs_nodev st then
           seq (call w (Mount source target (Some (fs_type st)) flags None))
             (\<lambda>r'. if r' = 0
                   then call w (Mount source target (Some (fs_type st)) (flags OR ms_remount) None)
                   else fs_loop w source target flags
                     (st\<lparr>fs_type := [], to_type := False, fs_pos := 0, fs_nodev := False\<rparr>) r' cs)
         else fs_loop w source target flags (st\<lparr>to_type := False, fs_pos := 0, fs_nodev := False\<rparr>) r cs)
      else if fs_pos st + 1 \<ge> 4096 then die (Undefined ''store past the end of type or label'')
      else fs_loop w source target flags
        (if to_type st then st\<lparr>fs_type := put_at (fs_pos st) c (fs_type st), fs_pos := fs_pos st + 1\<rparr>
         else st\<lparr>fs_label := put_at (fs_pos st) c (fs_label st), fs_pos := fs_pos st + 1\<rparr>) r cs)"

definition proc_filesystems :: path where "proc_filesystems = ''/proc/filesystems''"

definition mount_device :: "world \<Rightarrow> string \<Rightarrow> path \<Rightarrow> mount_flags \<Rightarrow> int prog" where
  "mount_device w source target flags =
     seq (ask (\<lambda>tr. w_text w tr proc_filesystems))
      (\<lambda>text. case text of
         None \<Rightarrow> ret (-1)
       | Some s \<Rightarrow> fs_loop w source target flags fs_start 0 (takeWhile (\<lambda>c. c \<noteq> nul) (take 4096 s)))"

text \<open>losetup: the loop device that backs the image, None on any failure.\<close>

definition loop_number :: "string \<Rightarrow> int \<Rightarrow> path" where
  "loop_number dir n = dir @ show_int (if n < 0 then -1 else n)"

definition losetup_image :: "world \<Rightarrow> path \<Rightarrow> path \<Rightarrow> path option prog" where
  "losetup_image w img loopfile =
     seq (call w (Open img))
      (\<lambda>imgfd. if imgfd < 0 then ret None
        else seq (call w (Ioctl_loop_set loopfile img))
          (\<lambda>r. ret (if r < 0 then None else Some loopfile)))"

definition losetup_device :: "world \<Rightarrow> path \<Rightarrow> path option prog" where
  "losetup_device w img =
     seq (call w Ioctl_loop_free)
      (\<lambda>devnr. seq (call w (Open (loop_number ''/dev/loop'' devnr)))
        (\<lambda>loopfd. if loopfd \<ge> 0 then losetup_image w img (loop_number ''/dev/loop'' devnr)
          else seq (call w (Open (loop_number ''/dev/block/loop'' devnr)))
            (\<lambda>blockfd. if blockfd < 0 then ret None
              else losetup_image w img (loop_number ''/dev/block/loop'' devnr))))"

definition losetup :: "world \<Rightarrow> path \<Rightarrow> path option prog" where
  "losetup w img =
     seq (call w (Open ''/dev/loop-control''))
      (\<lambda>ctl. if ctl \<ge> 0 then losetup_device w img
        else seq (call w (Open ''/dev/block/loop-control''))
          (\<lambda>ctl'. if ctl' < 0 then ret None else losetup_device w img))"

section \<open>Sources with a prefix\<close>

definition mount_twice :: "world \<Rightarrow> string \<Rightarrow> path \<Rightarrow> string option \<Rightarrow> mount_flags \<Rightarrow> string option \<Rightarrow> int prog" where
  "mount_twice w source target fstype flags dat =
     seq (call w (Mount source target fstype flags dat))
      (\<lambda>r. seq (run w (Mount source target fstype (flags OR ms_remount) dat)) (\<lambda>_. ret r))"

definition mount_as_filesystem :: "world \<Rightarrow> path \<Rightarrow> path \<Rightarrow> string \<Rightarrow> mount_flags \<Rightarrow> int prog" where
  "mount_as_filesystem w source target fstype flags =
     seq (ask (\<lambda>tr. w_lstat w tr source))
      (\<lambda>kind. case kind of
         None \<Rightarrow> seq (warn_unless w False ''Error: Source does not exist.'') (\<lambda>_. ret (-1))
       | Some k \<Rightarrow>
           if k \<noteq> Block_dev then
             seq (losetup w source)
               (\<lambda>loopfile. case loopfile of
                  None \<Rightarrow> ret (-1)
                | Some l \<Rightarrow> mount_twice w l target (Some fstype) flags None)
           else mount_twice w source target (Some fstype) flags None)"

definition fs_table :: "(string \<times> string) list" where
  "fs_table =
    [(''EXT4:'', ''ext4''), (''FAT32:'', ''vfat''), (''NTFS:'', ''ntfs''), (''XFS:'', ''xfs''),
     (''BTRFS:'', ''btrfs''), (''EXFAT:'', ''exfat''), (''F2FS:'', ''f2fs''), (''EROFS:'', ''erofs'')]"

definition at_mountpoint :: "world \<Rightarrow> path \<Rightarrow> int prog \<Rightarrow> int prog" where
  "at_mountpoint w target p = seq (mk_mountpoint_dir w target) (\<lambda>r. if r \<noteq> 0 then ret (-1) else p)"

definition mount_other_type :: "world \<Rightarrow> string \<Rightarrow> path \<Rightarrow> mount_flags \<Rightarrow> int prog" where
  "mount_other_type w source target flags =
     (if is_prefix ''OVERLAY:'' source then
        at_mountpoint w target
          (call w (Mount ''overlay'' target (Some ''overlay'') flags (Some (drop 8 source))))
      else if is_prefix ''TMPFS:'' source then
        at_mountpoint w target
          (mount_twice w ''tmpfs'' target (Some ''tmpfs'') flags (Some (drop 6 source)))
      else (case find_prefix fs_table source of
          Some (fstype, rest) \<Rightarrow> at_mountpoint w target (mount_as_filesystem w rest target fstype flags)
        | None \<Rightarrow> ret (-1)))"

section \<open>ruri_trymount\<close>

definition bind_mount :: "world \<Rightarrow> path \<Rightarrow> path \<Rightarrow> mount_flags \<Rightarrow> int prog" where
  "bind_mount w source target flags =
     seq (run w (Mount source target None (flags OR ms_bind) None))
      (\<lambda>_. call w (Mount source target None (flags OR ms_bind OR ms_remount) None))"

definition at_mountpoint_file :: "world \<Rightarrow> path \<Rightarrow> int prog \<Rightarrow> int prog" where
  "at_mountpoint_file w target p =
     seq (touch_mountpoint_file w target) (\<lambda>r. if r \<noteq> 0 then ret (-1) else p)"

definition mount_kind :: "world \<Rightarrow> file_kind \<Rightarrow> path \<Rightarrow> path \<Rightarrow> mount_flags \<Rightarrow> int prog" where
  "mount_kind w kind source target flags =
     (if kind = Dir_file then at_mountpoint w target (bind_mount w source target flags)
      else if kind = Block_dev then at_mountpoint w target (mount_device w source target flags)
      else if kind = Regular then at_mountpoint w target
        (seq (losetup w source)
          (\<lambda>loopfile. case loopfile of
             None \<Rightarrow> ret (-1)
           | Some l \<Rightarrow> seq (mount_device w l target flags)
               (\<lambda>r. if r \<noteq> 0 then at_mountpoint_file w target (bind_mount w source target flags)
                    else ret r)))
      else if kind = Char_dev \<or> kind = Fifo \<or> kind = Socket
        then at_mountpoint_file w target (bind_mount w source target flags)
      else ret (-1))"

definition ruri_trymount :: "world \<Rightarrow> string \<Rightarrow> path \<Rightarrow> mount_flags \<Rightarrow> int prog" where
  "ruri_trymount w source target flags =
     seq (run w (Umount target (mnt_detach OR mnt_force)))
      (\<lambda>_. case parse_mount_flags source flags of
         (src, flags') \<Rightarrow>
           seq (ask (\<lambda>tr. w_lstat w tr src))
             (\<lambda>kind. case kind of
                None \<Rightarrow> mount_other_type w src target flags'
              | Some k \<Rightarrow> mount_kind w k src target flags'))"

section \<open>Lemmas\<close>

subsection \<open>Flag prefixes\<close>

lemma table_prefixes:
  "list_all (\<lambda>(p, v). \<forall>rest. find_prefix flag_table (p @ rest) = Some (v, rest)) flag_table"
  by (simp add: flag_table_def)

lemma find_prefix_table: "(p, v) \<in> set flag_table \<Longrightarrow> find_prefix flag_table (p @ rest) = Some (v, rest)"
  using table_prefixes by (auto simp: list_all_iff)

lemma parse_mount_flags_table:
  "set fs \<subseteq> set flag_table \<Longrightarrow> find_prefix flag_table src = None \<Longrightarrow>
   parse_mount_flags (concat (map fst fs) @ src) flags = (src, foldl (OR) flags (map snd fs))"
proof (induction fs arbitrary: flags)
  case Nil
  then show ?case by (simp add: parse_mount_flags.simps[of src])
next
  case (Cons x fs)
  have "find_prefix flag_table (concat (map fst (x # fs)) @ src) = Some (snd x, concat (map fst fs) @ src)"
    using Cons.prems by (cases x) (simp add: find_prefix_table)
  then have "parse_mount_flags (concat (map fst (x # fs)) @ src) flags
      = parse_mount_flags (concat (map fst fs) @ src) (flags OR snd x)"
    by (subst parse_mount_flags.simps) simp
  then show ?case using Cons by simp
qed

lemma parse_mount_flags_split:
  "parse_mount_flags s flags = (src, flags') \<Longrightarrow> find_prefix flag_table src = None \<and>
   (\<exists>fs. set fs \<subseteq> set flag_table \<and> s = concat (map fst fs) @ src \<and> flags' = foldl (OR) flags (map snd fs))"
proof (induction s flags arbitrary: src flags' rule: parse_mount_flags.induct)
  case (1 s flags)
  show ?case
  proof (cases "find_prefix flag_table s")
    case None
    then show ?thesis using "1.prems"
      by (auto simp: parse_mount_flags.simps[of s] intro!: exI[of _ "[]"])
  next
    case (Some fr)
    obtain f rest where fr: "fr = (f, rest)" by (cases fr)
    obtain p where p: "(p, f) \<in> set flag_table" "s = p @ rest" using find_prefix_Some Some fr by metis
    have "parse_mount_flags rest (flags OR f) = (src, flags')"
      using "1.prems" Some fr by (simp add: parse_mount_flags.simps[of s])
    then obtain fs where "find_prefix flag_table src = None" "set fs \<subseteq> set flag_table"
      "rest = concat (map fst fs) @ src" "flags' = foldl (OR) (flags OR f) (map snd fs)"
      using "1.IH"[OF Some fr[symmetric]] fr by blast
    then show ?thesis using p by (intro conjI exI[of _ "(p, f) # fs"]) auto
  qed
qed

subsection \<open>Successful mounts\<close>

definition mounted :: "world \<Rightarrow> sys_call list \<Rightarrow> sys_call list \<Rightarrow> path \<Rightarrow> mount_flags \<Rightarrow> bool" where
  "mounted w tr tr' target flags =
     (\<exists>pre src ty fl dat post. tr' = pre @ Mount src target ty fl dat # post \<and> length tr \<le> length pre \<and>
        w_ret w pre (Mount src target ty fl dat) = 0 \<and> flags AND fl = flags)"

lemma mountedI:
  "tr' = pre @ Mount src target ty fl dat # post \<Longrightarrow> length tr \<le> length pre \<Longrightarrow>
   w_ret w pre (Mount src target ty fl dat) = 0 \<Longrightarrow> flags AND fl = flags \<Longrightarrow> mounted w tr tr' target flags"
  unfolding mounted_def by blast

lemma mounted_later:
  assumes "mounted w tr1 tr2 target flags" "length tr \<le> length tr1"
  shows "mounted w tr tr2 target flags"
proof -
  obtain pre src ty fl dat post where "tr2 = pre @ Mount src target ty fl dat # post"
    "length tr1 \<le> length pre" "w_ret w pre (Mount src target ty fl dat) = 0" "flags AND fl = flags"
    using assms(1) unfolding mounted_def by blast
  then show ?thesis by (intro mountedI[of tr2 pre]) (use assms(2) in auto)
qed

lemma only_length: "only P p \<Longrightarrow> p tr = (r, tr') \<Longrightarrow> length tr \<le> length tr'"
  using onlyD by fastforce

lemma flags_kept: "f AND (f OR g) = (f :: mount_flags)" "f AND (f OR g OR h) = (f :: mount_flags)"
  by (auto simp: bit_eq_iff bit_simps)

lemma bind_mounted:
  assumes "bind_mount w source target flags tr = (Inr 0, tr')"
  shows "mounted w tr tr' target flags"
proof -
  let ?a = "Mount source target None (flags OR ms_bind) None"
  let ?b = "Mount source target None (flags OR ms_bind OR ms_remount) None"
  have "w_ret w (tr @ [?a]) ?b = 0" "tr' = (tr @ [?a]) @ ?b # []"
    using assms by (simp_all add: bind_mount_def)
  then show ?thesis by (intro mountedI[of tr' "tr @ [?a]"]) (auto simp: flags_kept)
qed

lemma twice_mounted:
  assumes "mount_twice w source target ty flags dat tr = (Inr 0, tr')"
  shows "mounted w tr tr' target flags"
proof -
  have "w_ret w tr (Mount source target ty flags dat) = 0"
    "tr' = tr @ Mount source target ty flags dat # [Mount source target ty (flags OR ms_remount) dat]"
    using assms by (simp_all add: mount_twice_def)
  then show ?thesis by (intro mountedI[of tr' tr]) auto
qed

lemma fs_loop_mounted:
  assumes "fs_loop w source target flags st r cs tr = (Inr 0, tr')"
  shows "mounted w tr tr' target flags \<or> (r = 0 \<and> tr' = tr)"
  using assms
proof (induction cs arbitrary: st r tr)
  case (Cons c cs)
  show ?case
  proof (cases "c = newline \<and> \<not> fs_nodev st")
    case False
    then show ?thesis using Cons by (auto split: if_splits)
  next
    case True
    let ?m = "Mount source target (Some (fs_type st)) flags None"
    let ?m2 = "Mount source target (Some (fs_type st)) (flags OR ms_remount) None"
    show ?thesis
    proof (cases "w_ret w tr ?m = 0")
      case True
      then have "tr' = tr @ ?m # [?m2]" using Cons.prems \<open>c = newline \<and> _\<close> by simp
      then show ?thesis using True by (intro disjI1 mountedI[of tr' tr]) auto
    next
      case False
      then have "fs_loop w source target flags
          (st\<lparr>fs_type := [], to_type := False, fs_pos := 0, fs_nodev := False\<rparr>) (w_ret w tr ?m) cs (tr @ [?m])
        = (Inr 0, tr')" using Cons.prems True by simp
      from Cons.IH[OF this] False show ?thesis
        using mounted_later[of w "tr @ [?m]" tr' target flags tr] by auto
    qed
  qed
qed simp

lemma device_mounted:
  assumes "mount_device w source target flags tr = (Inr 0, tr')"
  shows "mounted w tr tr' target flags \<or> tr' = tr"
  using assms by (auto simp: mount_device_def split: option.splits dest: fs_loop_mounted)

subsection \<open>What the parts call\<close>

text \<open>Mounting makes calls of the file system only.\<close>

context file_policy
begin

lemma mkdirs_loop_only: "only allowed (mkdirs_loop w mode d cs r)"
  by (induction w mode d cs r rule: mkdirs_loop.induct) (auto intro!: only_intros simp del: prog_simps)

lemma mkdirs_only: "only allowed (ruri_mkdirs w dir mode)"
  unfolding ruri_mkdirs_def by (auto intro!: only_intros mkdirs_loop_only split: prod.splits)

lemma mountpoint_only: "only allowed (mk_mountpoint_dir w target)" "only allowed (touch_mountpoint_file w target)"
  unfolding mk_mountpoint_dir_def touch_mountpoint_file_def by (intro only_intros mkdirs_only; simp)+

lemma losetup_only: "only allowed (losetup w img)"
  unfolding losetup_def losetup_device_def losetup_image_def by (intro only_intros; simp)

end

context call_policy
begin

lemma fs_loop_only: "only allowed (fs_loop w source target flags st r cs)"
  by (induction cs arbitrary: st r) (auto intro!: only_intros)

lemma mounts_only: "only allowed (mount_device w source target flags)"
  "only allowed (mount_twice w source target ty flags dat)" "only allowed (bind_mount w source target flags)"
  "only allowed (mount_as_filesystem w source target fstype flags)"
  unfolding mount_device_def mount_twice_def bind_mount_def mount_as_filesystem_def
  by (intro only_intros fs_loop_only losetup_only; simp)+

lemma trymount_only: "only allowed (ruri_trymount w source target flags)"
proof -
  have at: "only allowed (at_mountpoint w target p)" "only allowed (at_mountpoint_file w target p)"
    if "only allowed p" for p
    unfolding at_mountpoint_def at_mountpoint_file_def by (intro only_intros mountpoint_only that; simp)+
  have "only allowed (mount_other_type w src target flags')" for src flags'
    unfolding mount_other_type_def
    by (auto intro!: only_intros at mounts_only split: option.splits)
  moreover have "only allowed (mount_kind w k src target flags')" for k src flags'
    unfolding mount_kind_def by (auto intro!: only_intros at mounts_only losetup_only)
  ultimately show ?thesis unfolding ruri_trymount_def
    by (auto intro!: only_intros split: prod.splits)
qed

end

text \<open>The policy of everything before the command, and that of the code which mounts nothing.\<close>

interpretation prep: call_policy setup_call
  by unfold_locales (simp_all add: setup_call_def)

interpretation unmounted: file_policy "\<lambda>c. \<not> is_mount c"
  by unfold_locales simp_all

lemma at_mountpoint_Inr:
  "at_mountpoint w target p tr = (Inr 0, tr') \<Longrightarrow> \<exists>tr1. length tr \<le> length tr1 \<and> p tr1 = (Inr 0, tr')"
  "at_mountpoint_file w target p tr = (Inr 0, tr') \<Longrightarrow> \<exists>tr1. length tr \<le> length tr1 \<and> p tr1 = (Inr 0, tr')"
  using only_length[OF prep.mountpoint_only(1)] only_length[OF prep.mountpoint_only(2)]
  by (fastforce simp: at_mountpoint_def at_mountpoint_file_def seq_Inr split: if_splits)+

subsection \<open>Levels of a path\<close>

definition dir_levels :: "path \<Rightarrow> path list" where
  "dir_levels dir =
     map (\<lambda>i. take i dir) (filter (\<lambda>i. dir ! i = CHR ''/'') [1..<length dir])
     @ (if last dir \<noteq> CHR ''/'' then [dir] else [])"

fun mkdir_each :: "world \<Rightarrow> int \<Rightarrow> path list \<Rightarrow> int prog" where
  "mkdir_each w mode [] = ret 0"
| "mkdir_each w mode (p # ps) =
     seq (call w (Mkdir p mode)) (\<lambda>r. if r \<noteq> 0 \<and> r \<noteq> - eexist then ret r else mkdir_each w mode ps)"

fun parents_from :: "path \<Rightarrow> path \<Rightarrow> path list" where
  "parents_from d [] = []"
| "parents_from d (c # cs) = (if d \<noteq> [] \<and> c = CHR ''/'' then [d] else []) @ parents_from (d @ [c]) cs"

lemma parents_from_take:
  "parents_from d cs =
     map (\<lambda>i. take i (d @ cs))
       (filter (\<lambda>i. 0 < i \<and> (d @ cs) ! i = CHR ''/'') [length d..<length (d @ cs)])"
proof (induction d cs rule: parents_from.induct)
  case (2 d c cs)
  have "[length d..<length (d @ c # cs)] = length d # [length (d @ [c])..<length ((d @ [c]) @ cs)]"
    using upt_conv_Cons[of "length d" "length (d @ c # cs)"] by simp
  then show ?case using "2.IH" by (auto simp: nth_append)
qed simp

lemma dir_levels_parents:
  assumes "dir \<noteq> []"
  shows "dir_levels dir = parents_from [] dir @ (if last dir \<noteq> CHR ''/'' then [dir] else [])"
proof -
  have "[0..<length dir] = 0 # [1..<length dir]" using assms by (simp add: upt_conv_Cons)
  moreover have "filter (\<lambda>i. 0 < i \<and> dir ! i = CHR ''/'') [1..<length dir]
      = filter (\<lambda>i. dir ! i = CHR ''/'') [1..<length dir]"
    by (rule filter_cong) auto
  ultimately show ?thesis unfolding parents_from_take dir_levels_def by simp
qed

lemma mkdirs_loop_levels:
  assumes "length (d @ cs) \<le> path_max_dir" "r = 0 \<or> r = - eexist"
  shows "seq (mkdirs_loop w mode d cs r)
      (\<lambda>(r, failed). if failed then ret r
         else if b then seq (call w (Mkdir dir mode)) (\<lambda>r'. ret (if r' = - eexist then 0 else r'))
         else ret (if r = - eexist then 0 else r))
    = mkdir_each w mode (parents_from d cs @ (if b then [dir] else []))"
  using assms
proof (induction d cs arbitrary: r rule: parents_from.induct)
  case (1 d)
  then show ?case by (auto simp: fun_eq_iff seq_def)
next
  case (2 d c cs)
  let ?K = "\<lambda>(r, failed). if failed then ret r
      else if b then seq (call w (Mkdir dir mode)) (\<lambda>r'. ret (if r' = - eexist then 0 else r'))
      else ret (if r = - eexist then 0 else r)"
  let ?tail = "if b then [dir] else []"
  show ?case
  proof (cases "d \<noteq> [] \<and> c = CHR ''/''")
    case False
    then show ?thesis using 2 by auto
  next
    case True
    have next_level: "seq (if r' \<noteq> 0 \<and> r' \<noteq> - eexist then ret (r', True) else mkdirs_loop w mode (d @ [c]) cs r') ?K
        = (if r' \<noteq> 0 \<and> r' \<noteq> - eexist then ret r' else mkdir_each w mode (parents_from (d @ [c]) cs @ ?tail))" for r'
      using 2 True by (auto simp del: prog_simps)
    have "seq (mkdirs_loop w mode d (c # cs) r) ?K = seq (call w (Mkdir d mode))
        (\<lambda>r'. seq (if r' \<noteq> 0 \<and> r' \<noteq> - eexist then ret (r', True) else mkdirs_loop w mode (d @ [c]) cs r') ?K)"
      unfolding conjunct2[OF True] using 2(2) conjunct1[OF True] by (simp add: seq_assoc del: prog_simps seq_run cong: if_cong)
    also have "\<dots> = mkdir_each w mode (parents_from d (c # cs) @ ?tail)"
      unfolding next_level unfolding conjunct2[OF True] using conjunct1[OF True] by (simp del: prog_simps seq_run cong: if_cong)
    finally show ?thesis .
  qed
qed

text \<open>ruri_mkdirs creates, in order, every directory above the path - one for each
  slash after the first character - and then the path itself unless it ends in a slash;
  an existing directory is no error, any other error ends it and is returned.  (Up to
  PATH_MAX characters, the size of its buffer.)\<close>

theorem mkdirs_makes_each_level:
  assumes "dir \<noteq> []" "length dir \<le> path_max_dir"
  shows "ruri_mkdirs w dir mode = mkdir_each w mode (dir_levels dir)"
  using mkdirs_loop_levels[of "[]" dir 0 w mode "last dir \<noteq> CHR ''/''" dir] assms
  by (simp add: ruri_mkdirs_def dir_levels_parents)

subsection \<open>The types of /proc/filesystems\<close>

text \<open>A line of the file: a type, marked nodev or not.\<close>

definition fs_line :: "bool \<times> string \<Rightarrow> string" where
  "fs_line e = (if fst e then ''nodev'' else []) @ [tab] @ snd e @ [newline]"

definition plain_type :: "string \<Rightarrow> bool" where
  "plain_type t = (t \<noteq> [] \<and> list_all (\<lambda>c. c \<noteq> tab \<and> c \<noteq> newline \<and> c \<noteq> nul) t)"

fun try_types :: "world \<Rightarrow> string \<Rightarrow> path \<Rightarrow> mount_flags \<Rightarrow> int \<Rightarrow> string list \<Rightarrow> int prog" where
  "try_types w source target flags r [] = ret r"
| "try_types w source target flags r (t # ts) =
     seq (call w (Mount source target (Some t) flags None))
       (\<lambda>r'. if r' = 0 then call w (Mount source target (Some t) (flags OR ms_remount) None)
             else try_types w source target flags r' ts)"

definition line_start :: "fs_scan \<Rightarrow> bool" where
  "line_start st = (fs_label st = [] \<and> \<not> to_type st \<and> fs_pos st = 0 \<and> \<not> fs_nodev st)"

lemma fs_loop_type:
  assumes "list_all (\<lambda>c. c \<noteq> tab \<and> c \<noteq> newline \<and> c \<noteq> nul) t" "t \<noteq> []" "to_type st"
    "fs_pos st \<le> length (fs_type st)" "fs_pos st + length t < 4096"
  shows "fs_loop w source target flags st r (t @ cs)
     = fs_loop w source target flags
         (st\<lparr>fs_type := take (fs_pos st) (fs_type st) @ t, fs_pos := fs_pos st + length t\<rparr>) r cs"
  using assms
proof (induction t arbitrary: st)
  case (Cons c t)
  let ?st = "st\<lparr>fs_type := put_at (fs_pos st) c (fs_type st), fs_pos := fs_pos st + 1\<rparr>"
  have step: "fs_loop w source target flags st r ((c # t) @ cs) = fs_loop w source target flags ?st r (t @ cs)"
    using Cons.prems by auto
  show ?case
  proof (cases "t = []")
    case True
    then show ?thesis using step by (simp add: put_at_def)
  next
    case False
    have "fs_pos ?st \<le> length (fs_type ?st)" using Cons.prems by (simp add: put_at_def)
    then have "fs_loop w source target flags ?st r (t @ cs) = fs_loop w source target flags
      (?st\<lparr>fs_type := take (fs_pos ?st) (fs_type ?st) @ t, fs_pos := fs_pos ?st + length t\<rparr>) r cs"
      using Cons.prems False by (intro Cons.IH) auto
    then show ?thesis using step Cons.prems by (simp add: put_at_def)
  qed
qed simp

lemma fs_loop_label:
  assumes "list_all (\<lambda>c. c \<noteq> tab \<and> c \<noteq> newline \<and> c \<noteq> nul) t" "t \<noteq> []" "\<not> to_type st"
    "fs_pos st \<le> length (fs_label st)" "fs_pos st + length t < 4096"
  shows "fs_loop w source target flags st r (t @ cs)
     = fs_loop w source target flags
         (st\<lparr>fs_label := take (fs_pos st) (fs_label st) @ t, fs_pos := fs_pos st + length t\<rparr>) r cs"
  using assms
proof (induction t arbitrary: st)
  case (Cons c t)
  let ?st = "st\<lparr>fs_label := put_at (fs_pos st) c (fs_label st), fs_pos := fs_pos st + 1\<rparr>"
  have step: "fs_loop w source target flags st r ((c # t) @ cs) = fs_loop w source target flags ?st r (t @ cs)"
    using Cons.prems by auto
  show ?case
  proof (cases "t = []")
    case True
    then show ?thesis using step by (simp add: put_at_def)
  next
    case False
    have "fs_pos ?st \<le> length (fs_label ?st)" using Cons.prems by (simp add: put_at_def)
    then have "fs_loop w source target flags ?st r (t @ cs) = fs_loop w source target flags
      (?st\<lparr>fs_label := take (fs_pos ?st) (fs_label ?st) @ t, fs_pos := fs_pos ?st + length t\<rparr>) r cs"
      using Cons.prems False by (intro Cons.IH) auto
    then show ?thesis using step Cons.prems by (simp add: put_at_def)
  qed
qed simp

lemma fs_loop_nodev:
  assumes "line_start st"
  shows "fs_loop w source target flags st r (''nodev'' @ cs)
     = fs_loop w source target flags (st\<lparr>fs_label := ''nodev'', fs_pos := 5\<rparr>) r cs"
  using assms fs_loop_label[of "''nodev''" st w source target flags r cs] by (simp add: line_start_def eval_nat_numeral del: fs_loop.simps)

lemma fs_loop_tab:
  "fs_loop w source target flags st r (tab # cs) = fs_loop w source target flags
     (st\<lparr>fs_nodev := (fs_label st = ''nodev'' \<or> fs_nodev st), to_type := True, fs_pos := 0, fs_label := []\<rparr>) r cs"
  by (cases "fs_label st = ''nodev''") auto

lemma fs_loop_line:
  assumes "line_start st" "plain_type (snd e)" "length (snd e) < 4096"
  obtains st' where "line_start st'"
    "fs_loop w source target flags st r (fs_line e @ cs) =
       (if fst e then fs_loop w source target flags st' r cs
        else seq (call w (Mount source target (Some (snd e)) flags None))
          (\<lambda>r'. if r' = 0 then call w (Mount source target (Some (snd e)) (flags OR ms_remount) None)
            else fs_loop w source target flags st' r' cs))"
proof -
  let ?st1 = "st\<lparr>fs_nodev := fst e, to_type := True, fs_pos := 0, fs_label := []\<rparr>"
  let ?st2 = "?st1\<lparr>fs_type := snd e, fs_pos := length (snd e)\<rparr>"
  have "fs_loop w source target flags st r (fs_line e @ cs)
      = fs_loop w source target flags ?st1 r (snd e @ newline # cs)"
  proof (cases "fst e")
    case True
    have "fs_loop w source target flags st r (''nodev'' @ tab # snd e @ newline # cs)
        = fs_loop w source target flags (st\<lparr>fs_label := ''nodev'', fs_pos := 5\<rparr>) r (tab # snd e @ newline # cs)"
      by (rule fs_loop_nodev[OF assms(1)])
    also have "\<dots> = fs_loop w source target flags ?st1 r (snd e @ newline # cs)"
      using True by (simp only: fs_loop_tab) simp
    finally show ?thesis using True by (simp add: fs_line_def del: fs_loop.simps)
  next
    case False
    then show ?thesis using assms(1) by (simp add: fs_line_def fs_loop_tab line_start_def del: fs_loop.simps)
  qed
  also have "\<dots> = fs_loop w source target flags ?st2 r (newline # cs)"
    using fs_loop_type[of "snd e" ?st1 w source target flags r "newline # cs"] assms
    by (simp add: plain_type_def)
  finally have eq: "fs_loop w source target flags st r (fs_line e @ cs)
      = fs_loop w source target flags ?st2 r (newline # cs)" .
  show ?thesis
    by (rule that[of "(if fst e then ?st2 else ?st2\<lparr>fs_type := []\<rparr>)\<lparr>to_type := False, fs_pos := 0, fs_nodev := False\<rparr>"])
      (simp_all add: line_start_def eq del: prog_simps seq_run cong: if_cong)
qed

lemma fs_loop_lines:
  assumes "line_start st" "list_all (\<lambda>e. plain_type (snd e)) es" "length (concat (map fs_line es)) \<le> 4096"
  shows "fs_loop w source target flags st r (concat (map fs_line es))
    = try_types w source target flags r (map snd (filter (\<lambda>e. \<not> fst e) es))"
  using assms
proof (induction es arbitrary: st r)
  case (Cons e es)
  have len: "length (snd e) < 4096" and plain: "plain_type (snd e)"
    using Cons.prems by (auto simp: fs_line_def)
  obtain st' where st': "line_start st'"
    "fs_loop w source target flags st r (fs_line e @ concat (map fs_line es)) =
       (if fst e then fs_loop w source target flags st' r (concat (map fs_line es))
        else seq (call w (Mount source target (Some (snd e)) flags None))
          (\<lambda>r'. if r' = 0 then call w (Mount source target (Some (snd e)) (flags OR ms_remount) None)
            else fs_loop w source target flags st' r' (concat (map fs_line es))))"
    by (rule fs_loop_line[OF Cons.prems(1) plain len])
  have "fs_loop w source target flags st' r (concat (map fs_line es))
      = try_types w source target flags r (map snd (filter (\<lambda>e. \<not> fst e) es))" for r
    using Cons.prems st'(1) by (intro Cons.IH) auto
  then show ?case using st'(2) by (simp del: prog_simps seq_run fs_loop.simps cong: if_cong)
qed simp

lemma mount_device_types:
  assumes "w_text w tr proc_filesystems = Some (concat (map fs_line es))"
    "list_all (\<lambda>e. plain_type (snd e)) es" "length (concat (map fs_line es)) \<le> 4095"
  shows "mount_device w source target flags tr
    = try_types w source target flags 0 (map snd (filter (\<lambda>e. \<not> fst e) es)) tr"
proof -
  have "list_all (\<lambda>c. c \<noteq> nul) (concat (map fs_line es))"
    using assms(2) by (auto simp: fs_line_def plain_type_def list_all_iff split: if_splits)
  then have tw: "takeWhile (\<lambda>c. c \<noteq> nul) (concat (map fs_line es)) = concat (map fs_line es)"
    by (auto simp: takeWhile_eq_all_conv list_all_iff)
  have "fs_loop w source target flags fs_start 0 (concat (map fs_line es))
      = try_types w source target flags 0 (map snd (filter (\<lambda>e. \<not> fst e) es))"
    using assms(2,3) by (intro fs_loop_lines) (simp_all add: line_start_def fs_start_def)
  then show ?thesis
    using assms(1,3) by (simp add: mount_device_def tw del: fs_loop.simps)
qed

text \<open>C28: For a /proc/filesystems of up to 4095 characters, mount_device tries the types
  that are not marked nodev (not, as doc/mount.md has it, those that are) in the order of the
  file, stops at the first one the kernel
  accepts and returns what the remount returns, otherwise what the last attempt returned.\<close>

theorem device_tries_types_in_order:
  assumes "w_text w tr proc_filesystems = Some (concat (map fs_line es))"
    "list_all (\<lambda>e. plain_type (snd e)) es" "length (concat (map fs_line es)) \<le> 4095"
  shows "mount_device w source target flags tr
    = try_types w source target flags 0 (map snd (filter (\<lambda>e. \<not> fst e) es)) tr"
  by (rule mount_device_types[OF assms])

subsection \<open>Success of ruri_trymount\<close>

lemma unmounted_before:
  "at_mountpoint w target p tr = (Inr 0, tr') \<Longrightarrow>
     \<exists>cs. list_all (\<lambda>c. \<not> is_mount c) cs \<and> p (tr @ cs) = (Inr 0, tr')"
  "at_mountpoint_file w target p tr = (Inr 0, tr') \<Longrightarrow>
     \<exists>cs. list_all (\<lambda>c. \<not> is_mount c) cs \<and> p (tr @ cs) = (Inr 0, tr')"
  using onlyD[OF unmounted.mountpoint_only(1)] onlyD[OF unmounted.mountpoint_only(2)]
  by (fastforce simp: at_mountpoint_def at_mountpoint_file_def seq_Inr split: if_splits)+

definition mounts_or_skips :: "world \<Rightarrow> sys_call list \<Rightarrow> sys_call list \<Rightarrow> path \<Rightarrow> mount_flags \<Rightarrow> bool" where
  "mounts_or_skips w tr tr' target flags =
     (mounted w tr tr' target flags \<or> (\<exists>cs. tr' = tr @ cs \<and> list_all (\<lambda>c. \<not> is_mount c) cs))"

lemma mounts_or_skips_later:
  "mounts_or_skips w (tr @ cs) tr' target flags \<Longrightarrow> list_all (\<lambda>c. \<not> is_mount c) cs \<Longrightarrow>
   mounts_or_skips w tr tr' target flags"
  using mounted_later[of w "tr @ cs" tr' target flags tr] by (auto simp: mounts_or_skips_def)

lemma at_mountpoint_mounted:
  assumes "\<And>tr. p tr = (Inr 0, tr') \<Longrightarrow> mounted w tr tr' target flags"
  shows "at_mountpoint w target p tr = (Inr 0, tr') \<Longrightarrow> mounted w tr tr' target flags"
    "at_mountpoint_file w target p tr = (Inr 0, tr') \<Longrightarrow> mounted w tr tr' target flags"
  using unmounted_before[of w target p tr tr'] assms mounted_later[of w _ tr' target flags tr] by fastforce+

lemma other_type_mounted:
  assumes "mount_other_type w src target fl tr = (Inr 0, tr')"
  shows "mounted w tr tr' target fl"
proof -
  have overlay: "mounted w tr1 tr' target fl"
    if "call w (Mount ''overlay'' target ty fl dat) tr1 = (Inr 0, tr')" for ty dat tr1
    using that by (intro mountedI[of tr' tr1 _ _ _ _ _ "[]"]) auto
  have fs: "mounted w tr1 tr' target fl"
    if "mount_as_filesystem w rest target ty fl tr1 = (Inr 0, tr')" for rest ty tr1
  proof -
    have "\<exists>cs s. mount_twice w s target (Some ty) fl None (tr1 @ cs) = (Inr 0, tr')"
      using that onlyD[OF unmounted.losetup_only]
      by (fastforce simp: mount_as_filesystem_def seq_Inr split: option.splits if_splits intro: exI[of _ "[]"])
    then show ?thesis using twice_mounted mounted_later[of w _ tr' target fl tr1] by fastforce
  qed
  from assms show ?thesis unfolding mount_other_type_def
    by (auto split: if_splits option.splits intro: at_mountpoint_mounted(1) twice_mounted overlay fs)
qed

lemma kind_mounted:
  assumes "mount_kind w k src target fl tr = (Inr 0, tr')" "k \<notin> {Block_dev, Regular}"
  shows "mounted w tr tr' target fl"
  using assms unfolding mount_kind_def
  by (auto split: if_splits intro: at_mountpoint_mounted bind_mounted)

lemma block_mounted:
  assumes "mount_kind w k src target fl tr = (Inr 0, tr')" "k \<in> {Block_dev, Regular}"
  shows "mounts_or_skips w tr tr' target fl"
proof -
  have dev: "mounts_or_skips w tr1 tr' target fl" if "mount_device w s target fl tr1 = (Inr 0, tr')" for s tr1
    using device_mounted[OF that] by (auto simp: mounts_or_skips_def)
  have bind: "mounted w tr1 tr' target fl"
    if "at_mountpoint_file w target (bind_mount w src target fl) tr1 = (Inr 0, tr')" for tr1
    using that by (auto intro: at_mountpoint_mounted bind_mounted)
  show ?thesis
  proof (cases "k = Block_dev")
    case True
    then show ?thesis using assms(1) dev unmounted_before(1) mounts_or_skips_later
      by (fastforce simp: mount_kind_def)
  next
    case False
    then obtain cs where cs: "list_all (\<lambda>c. \<not> is_mount c) cs"
      "seq (losetup w src) (\<lambda>loopfile. case loopfile of None \<Rightarrow> ret (-1)
         | Some l \<Rightarrow> seq (mount_device w l target fl)
             (\<lambda>r. if r \<noteq> 0 then at_mountpoint_file w target (bind_mount w src target fl) else ret r)) (tr @ cs)
       = (Inr 0, tr')"
      using assms unmounted_before(1) by (fastforce simp: mount_kind_def)
    then obtain l cs2 where l: "list_all (\<lambda>c. \<not> is_mount c) cs2"
      "seq (mount_device w l target fl)
         (\<lambda>r. if r \<noteq> 0 then at_mountpoint_file w target (bind_mount w src target fl) else ret r) ((tr @ cs) @ cs2)
       = (Inr 0, tr')"
      using onlyD[OF unmounted.losetup_only] by (fastforce simp: seq_Inr[of "losetup w src"] split: option.splits)
    then obtain r tr2 where r: "mount_device w l target fl ((tr @ cs) @ cs2) = (Inr r, tr2)"
      "(if r \<noteq> 0 then at_mountpoint_file w target (bind_mount w src target fl) else ret r) tr2 = (Inr 0, tr')"
      by (auto simp: seq_Inr)
    have "mounts_or_skips w ((tr @ cs) @ cs2) tr' target fl"
    proof (cases "r = 0")
      case True
      then show ?thesis using r dev by auto
    next
      case False
      have "length ((tr @ cs) @ cs2) \<le> length tr2"
        using r(1) only_length[OF prep.mounts_only(1)] by blast
      moreover have "mounted w tr2 tr' target fl" using bind r(2) False by simp
      ultimately show ?thesis using mounted_later unfolding mounts_or_skips_def by blast
    qed
    then show ?thesis using mounts_or_skips_later cs(1) l(1) by blast
  qed
qed

text \<open>C27: When ruri_trymount reports success, a mount of the target with at least the
  requested flags - those of the caller and those written before the source - has
  succeeded; only for a block device or a regular file it may also be that no mount was
  attempted at all.\<close>

theorem trymount_success_means_mounted:
  assumes "ruri_trymount w source target flags tr = (Inr 0, tr')"
    and "parse_mount_flags source flags = (src, fl)"
  shows "mounted w tr tr' target fl \<or>
    w_lstat w (tr @ [Umount target (mnt_detach OR mnt_force)]) src \<in> {Some Block_dev, Some Regular} \<and>
    (\<exists>cs. tr' = tr @ cs \<and> list_all (\<lambda>c. \<not> is_mount c) cs)"
proof -
  let ?tr = "tr @ [Umount target (mnt_detach OR mnt_force)]"
  have un: "list_all (\<lambda>c. \<not> is_mount c) [Umount target (mnt_detach OR mnt_force)]" by simp
  show ?thesis
  proof (cases "w_lstat w ?tr src")
    case None
    then have "mount_other_type w src target fl ?tr = (Inr 0, tr')"
      using assms by (simp add: ruri_trymount_def)
    then show ?thesis using other_type_mounted mounted_later[of w ?tr tr' target fl tr] by simp
  next
    case (Some k)
    then have k: "mount_kind w k src target fl ?tr = (Inr 0, tr')"
      using assms by (simp add: ruri_trymount_def)
    show ?thesis
    proof (cases "k \<in> {Block_dev, Regular}")
      case True
      then show ?thesis using Some block_mounted[OF k True] mounts_or_skips_later[OF _ un]
        unfolding mounts_or_skips_def by blast
    next
      case False
      then show ?thesis using kind_mounted[OF k] mounted_later[of w ?tr tr' target fl tr] by simp
    qed
  qed
qed

definition sample_disk :: world where
  "sample_disk =
     \<lparr>w_ret = \<lambda>_ _. 0, w_lstat = \<lambda>_ p. if p = ''/dev/sda1'' then Some Block_dev
        else if p = ''/data'' then Some Dir_file else None,
      w_realpath = \<lambda>_ p. Some p, w_access = \<lambda>_ _. False, w_cgroup2 = \<lambda>_. False, w_text = \<lambda>_ _. Some (fs_line (True, ''tmpfs'')),
      w_readlink = \<lambda>_ _. None, w_is_dir = \<lambda>_ _. True,
      w_is_regular = \<lambda>_ _. True, w_is_proc = \<lambda>_ _. False, w_proc_dirs = \<lambda>_. Some [], w_mounts = \<lambda>_. Some [],
      w_syscall_known = \<lambda>_. True, w_kernel = Version 6 1 0, w_arch = Arch_x86_64,
      w_force_panic = False, w_pid = 7\<rparr>"

lemma sample_disk_simps [simp]:
  "w_ret sample_disk tr c = 0" "w_realpath sample_disk tr p = Some p"
  "w_text sample_disk tr p = Some (fs_line (True, ''tmpfs''))"
  "w_lstat sample_disk tr p = (if p = ''/dev/sda1'' then Some Block_dev
     else if p = ''/data'' then Some Dir_file else None)"
  by (simp_all add: sample_disk_def)

lemma trymount_success_means_mounted_witness:
  "mounted sample_disk [] (snd (ruri_trymount sample_disk ''RDONLY:NODEV:/data'' ''/mnt/data'' 0 []))
     ''/mnt/data'' (ms_rdonly OR ms_nodev)"
proof -
  have flags: "parse_mount_flags ''RDONLY:NODEV:/data'' 0 = (''/data'', ms_rdonly OR ms_nodev)"
    using parse_mount_flags_table[of "[(''RDONLY:'', ms_rdonly), (''NODEV:'', ms_nodev)]" "''/data''" 0]
    by (simp add: flag_table_def)
  obtain tr' where tr': "ruri_trymount sample_disk ''RDONLY:NODEV:/data'' ''/mnt/data'' 0 [] = (Inr 0, tr')"
    by (simp add: ruri_trymount_def flags mount_kind_def at_mountpoint_def mk_mountpoint_dir_def bind_mount_def seq_assoc)
  show ?thesis using trymount_success_means_mounted[OF tr' flags] tr' by simp
qed

text \<open>A source is its flag prefixes, in any order and number, followed by a path
  without one; parse_mount_flags returns that path and adds the flag of every prefix.\<close>

theorem mount_flags_accumulate:
  "parse_mount_flags s flags = (src, flags') \<longleftrightarrow>
     find_prefix flag_table src = None \<and>
     (\<exists>fs. set fs \<subseteq> set flag_table \<and> s = concat (map fst fs) @ src \<and> flags' = foldl (OR) flags (map snd fs))"
  using parse_mount_flags_split parse_mount_flags_table by blast

text \<open>When every type of /proc/filesystems is marked nodev, mounting a block device at
  an existing place reports success although no mount was attempted.\<close>

theorem no_type_to_try_is_success:
  assumes "parse_mount_flags source flags = (src, fl)"
    and "w_lstat w (tr @ [Umount target (mnt_detach OR mnt_force)]) src = Some Block_dev"
    and "w_realpath w (tr @ [Umount target (mnt_detach OR mnt_force), Remove target]) target \<noteq> None"
    and "w_text w (tr @ [Umount target (mnt_detach OR mnt_force), Remove target]) proc_filesystems
           = Some (concat (map fs_line es))"
    and "list_all (\<lambda>e. plain_type (snd e) \<and> fst e) es" "length (concat (map fs_line es)) \<le> 4095"
  shows "ruri_trymount w source target flags tr
    = (Inr 0, tr @ [Umount target (mnt_detach OR mnt_force), Remove target])"
proof -
  have "mount_device w src target fl (tr @ [Umount target (mnt_detach OR mnt_force), Remove target])
      = (Inr 0, tr @ [Umount target (mnt_detach OR mnt_force), Remove target])"
    using assms(5,6) mount_device_types[OF assms(4)] by (simp add: list_all_iff filter_empty_conv)
  then show ?thesis using assms(1-3)
    by (auto simp: ruri_trymount_def mount_kind_def at_mountpoint_def mk_mountpoint_dir_def seq_assoc)
qed

lemma no_type_to_try_is_success_witness:
  "ruri_trymount sample_disk ''/dev/sda1'' ''/mnt/sda1'' 0 []
     = (Inr 0, [Umount ''/mnt/sda1'' (mnt_detach OR mnt_force), Remove ''/mnt/sda1''])"
  using no_type_to_try_is_success[of "''/dev/sda1''" 0 "''/dev/sda1''" 0 sample_disk "[]" "''/mnt/sda1''" "[(True, ''tmpfs'')]"]
    parse_mount_flags_table[of "[]" "''/dev/sda1''" 0]
  by (simp add: flag_table_def plain_type_def fs_line_def)

lemma device_tries_types_in_order_witness:
  "mount_device (sample_disk\<lparr>w_text := \<lambda>_ _. Some (concat (map fs_line [(True, ''tmpfs''), (False, ''ext4'')]))\<rparr>)
     ''/dev/sda1'' ''/mnt'' 0 []
   = (Inr 0, [Mount ''/dev/sda1'' ''/mnt'' (Some ''ext4'') 0 None,
              Mount ''/dev/sda1'' ''/mnt'' (Some ''ext4'') ms_remount None])"
  by (subst device_tries_types_in_order[of _ _ "[(True, ''tmpfs''), (False, ''ext4'')]"])
    (simp_all add: plain_type_def fs_line_def)

lemma mkdirs_makes_each_level_witness:
  "ruri_mkdirs sample_disk ''/a/b'' mode_rw [] = (Inr 0, [Mkdir ''/a'' mode_rw, Mkdir ''/a/b'' mode_rw])"
  by (subst mkdirs_makes_each_level) (simp_all add: dir_levels_def path_max_dir_def eval_nat_numeral upt_rec)

end
