(* ===== verification/Umount.thy ===== *)
theory Umount
  imports Cgroup Mounting Rurienv
begin

text \<open>
  umount.c, and of ps.c the selection and killing of the processes of a container.
  /proc/mounts and the directories of /proc are questions to the world, read once by each
  function that walks them; waiting is not modelled.
\<close>

section \<open>Processes of a container\<close>

definition is_container_process :: "world \<Rightarrow> int \<Rightarrow> path option \<Rightarrow> int \<Rightarrow> bool prog" where
  "is_container_process w pid dir cid =
     (case dir of
        None \<Rightarrow> ret False
      | Some d \<Rightarrow>
          seq (ruri_pid_in_cgroup w pid cid)
            (\<lambda>in_cgroup. if in_cgroup then ret True
              else ask (\<lambda>tr. case w_realpath w tr (''/proc/'' @ show_int pid @ ''/root'') of
                  None \<Rightarrow> d = []
                | Some buf \<Rightarrow> buf \<noteq> ''/'' \<and> buf = d)))"

text \<open>The array filled from the directory: without any process directory it keeps the
  zeros of memset.\<close>

definition proc_pids :: "string list \<Rightarrow> int list" where
  "proc_pids dirs = (let pids = filter (\<lambda>p. p > 0) (map atoi dirs)
     in if pids = [] then replicate (length dirs) 0 else pids)"

definition sigkill :: int where "sigkill = 9"

definition kill_if_inside :: "world \<Rightarrow> ruri_container \<Rightarrow> int \<Rightarrow> unit prog" where
  "kill_if_inside w c pid =
     seq (is_container_process w pid (container_dir c) (container_id c))
       (\<lambda>inside. if inside then run w (Kill pid sigkill) else ret ())"

definition ruri_kill_container :: "world \<Rightarrow> ruri_container \<Rightarrow> unit prog" where
  "ruri_kill_container w c =
     seq (if ns_pid c > 0 then seq (ruri_try_cgroup_kill w c) (\<lambda>_. ret ()) else ret ())
      (\<lambda>_. seq (ask (w_proc_dirs w))
        (\<lambda>dirs. case dirs of
           None \<Rightarrow> die (Fatal ''Failed to open /proc QwQ'')
         | Some ds \<Rightarrow> for_each (kill_if_inside w c) (proc_pids ds)))"

section \<open>Mount points\<close>

text \<open>The loop of umount_subdir: the comparison of strlen(dir) characters, then the
  character after them.  The branch for a trailing slash tests dir[strlen(dir)], which is
  the terminator, and never runs.\<close>

definition below_dir :: "path \<Rightarrow> path \<Rightarrow> bool" where
  "below_dir dir mnt = (is_prefix dir mnt \<and> (ch_at mnt (length dir) = CHR ''/'' \<or> ch_at mnt (length dir) = nul))"

definition umount_entry :: "world \<Rightarrow> path \<Rightarrow> path \<times> string \<Rightarrow> unit prog" where
  "umount_entry w dir me =
     (if below_dir dir (fst me)
      then run w (Umount (fst me) (if is_prefix ''fuse'' (snd me) then mnt_detach else mnt_detach OR mnt_force))
      else ret ())"

definition umount_subdir :: "world \<Rightarrow> path \<Rightarrow> unit prog" where
  "umount_subdir w dir =
     seq (ask (w_mounts w))
      (\<lambda>mounts. case mounts of None \<Rightarrow> ret () | Some es \<Rightarrow> for_each (umount_entry w dir) es)"

text \<open>The second entries of the pairs of an array of mount points.\<close>

fun mount_targets :: "string list \<Rightarrow> string list" where
  "mount_targets (src # target # rest) = target # mount_targets rest"
| "mount_targets ms = []"

definition umount_extra :: "world \<Rightarrow> path \<Rightarrow> string \<Rightarrow> unit prog" where
  "umount_extra w dir target =
     (let p = dir @ target in
      if length p \<ge> path_max then die (Fatal ''QwQ? Why we are here?'')
      else run_all w (concat (replicate 10 [Umount p mnt_detach, Umount p 0]) @ [Remove p]))"

definition umount_runtime :: "path \<Rightarrow> sys_call list" where
  "umount_runtime dir =
     [Umount (dir @ ''/sys'') (mnt_detach OR mnt_force), Umount (dir @ ''/dev'') (mnt_detach OR mnt_force),
      Umount (dir @ ''/proc'') (mnt_detach OR mnt_force), Umount dir mnt_detach]"

definition umount_infofile :: "world \<Rightarrow> path \<Rightarrow> unit prog" where
  "umount_infofile w infofile =
     seq (run w (Umount infofile (mnt_detach OR mnt_force)))
      (\<lambda>_. seq (call w (Open infofile))
        (\<lambda>fd. if fd \<ge> 0 then run_all w [Chattr_immutable infofile False, Remove infofile] else ret ()))"

definition umount_all :: "world \<Rightarrow> path \<Rightarrow> ruri_container \<Rightarrow> unit prog" where
  "umount_all w dir c =
     seq (for_each (umount_extra w dir) (mount_targets (extra_mountpoint c)))
      (\<lambda>_. seq (for_each (umount_extra w dir) (mount_targets (extra_ro_mountpoint c)))
        (\<lambda>_. seq (run_all w (concat (replicate 9 (umount_runtime dir))))
          (\<lambda>_. seq (ruri_kill_container w (c\<lparr>container_dir := Some dir\<rparr>))
            (\<lambda>_. seq (if ns_pid c > 0 then run w (Kill (ns_pid c) sigkill) else ret ())
              (\<lambda>_. umount_subdir w dir)))))"

definition ruri_umount_container :: "world \<Rightarrow> rurienv_env \<Rightarrow> path option \<Rightarrow> unit prog" where
  "ruri_umount_container w env dir =
     (case dir of
        None \<Rightarrow> die (Fatal ''Error: container directory does not exist QwQ'')
      | Some d \<Rightarrow>
          if d = ''/'' then die (Fatal ''Error: / is not allowed to use as a container directory QwQ'')
          else seq (ask (\<lambda>tr. w_realpath w tr d))
            (\<lambda>test. case test of
               None \<Rightarrow> die (Fatal ''Error: container directory does not exist QwQ'')
             | Some _ \<Rightarrow> seq (lift_result (ruri_read_info env None d))
                 (\<lambda>(c, ops). if length (d @ ''/.rurienv'') \<ge> path_max
                   then die (Fatal ''Error: container directory path is too long QwQ'')
                   else seq (umount_infofile w (d @ ''/.rurienv''))
                     (\<lambda>_. if length (d @ ''/proc'') \<ge> path_max
                       then die (Fatal ''Error: container directory path is too long QwQ'')
                       else umount_all w d c))))"

section \<open>Lemmas\<close>

lemma below_dir_iff:
  "nul \<notin> set mnt \<Longrightarrow> below_dir dir mnt \<longleftrightarrow> mnt = dir \<or> (\<exists>rest. mnt = dir @ ''/'' @ rest)"
  by (auto simp: below_dir_def is_prefix_iff ch_at_def nth_append neq_Nil_conv split: if_splits)

definition umount_call :: "path \<times> string \<Rightarrow> sys_call" where
  "umount_call e = Umount (fst e) (if is_prefix ''fuse'' (snd e) then mnt_detach else mnt_detach OR mnt_force)"

lemma umount_entries:
  "for_each (umount_entry w dir) es tr = (Inr (), tr @ map umount_call (filter (\<lambda>e. below_dir dir (fst e)) es))"
  by (induction es arbitrary: tr) (auto simp: umount_entry_def umount_call_def seq_def)

text \<open>C35: The last step of unmounting takes from /proc/mounts exactly the container
  directory and what lies below it, in the order of the file, forcing all but fuse; a
  directory that only shares the beginning of its name is left alone.\<close>

theorem umount_subdir_exact:
  assumes "w_mounts w tr = Some es" "\<forall>e \<in> set es. nul \<notin> set (fst e)"
  shows "umount_subdir w dir tr = (Inr (), tr @ map umount_call
    (filter (\<lambda>e. fst e = dir \<or> (\<exists>rest. fst e = dir @ ''/'' @ rest)) es))"
proof -
  have "filter (\<lambda>e. below_dir dir (fst e)) es = filter (\<lambda>e. fst e = dir \<or> (\<exists>rest. fst e = dir @ ''/'' @ rest)) es"
    using assms(2) by (intro filter_cong) (auto simp: below_dir_iff)
  then show ?thesis using assms(1) by (simp add: umount_subdir_def umount_entries)
qed

text \<open>A container that is unmounted and one with a longer name.\<close>

definition sample_mounts :: world where
  "sample_mounts = sample_disk\<lparr>w_mounts := \<lambda>_. Some [(''/c/dev'', ''tmpfs''), (''/c2/dev'', ''tmpfs''), (''/c'', ''fuse.x'')]\<rparr>"

lemma umount_subdir_exact_witness:
  "umount_subdir sample_mounts ''/c'' [] =
     (Inr (), [Umount ''/c/dev'' (mnt_detach OR mnt_force), Umount ''/c'' mnt_detach])"
  using umount_subdir_exact[of sample_mounts "[]" "[(''/c/dev'', ''tmpfs''), (''/c2/dev'', ''tmpfs''), (''/c'', ''fuse.x'')]" "''/c''"]
  by (simp add: sample_mounts_def umount_call_def)

subsection \<open>What is killed\<close>

text \<open>A signal is only sent to a process that was found inside the container.\<close>

definition found_inside :: "world \<Rightarrow> ruri_container \<Rightarrow> int \<Rightarrow> bool" where
  "found_inside w c pid =
     (\<exists>tr tr'. is_container_process w pid (container_dir c) (container_id c) tr = (Inr True, tr'))"

definition kill_allowed :: "world \<Rightarrow> ruri_container \<Rightarrow> sys_call \<Rightarrow> bool" where
  "kill_allowed w c a = (case a of Kill pid s \<Rightarrow> s = sigkill \<and> found_inside w c pid | _ \<Rightarrow> True)"

interpretation kills: call_policy "kill_allowed w c" for w c
  by unfold_locales (simp_all add: kill_allowed_def)

lemma cgroup_only:
  assumes "\<And>p. allowed (Open p)" "\<And>p v. allowed (Write_to p v)" "\<And>p m. allowed (Mkdir p m)" "\<And>p. allowed (Rmdir p)"
  shows "only allowed (ruri_detect_cgroup_env w)" "only allowed (ruri_pid_in_cgroup w pid cid)"
    "only allowed (ruri_try_cgroup_kill w c)"
proof -
  note wr = open_and_write_only[OF assms(1,2)]
  have block: "only allowed (detect_block w f get upd s node env)" if "only allowed s" for f get upd s node env
    unfolding detect_block_def by (intro only_intros that)
  have unified: "only allowed (unified_setup w l)" for l
    unfolding unified_setup_def by (intro only_intros wr assms)
  have v2: "only allowed (v2_block w l upd env)" for l upd env
    unfolding v2_block_def by (intro only_intros wr)
  show detect: "only allowed (ruri_detect_cgroup_env w)"
    unfolding ruri_detect_cgroup_env_def detect_cgroup_v2_def detect_cgroup_unified_def
      detect_cgroup_v1_fallback_def v1_block_def
    by (intro only_intros wr block unified v2 assms)
  show "only allowed (ruri_pid_in_cgroup w pid cid)"
    unfolding ruri_pid_in_cgroup_def by (intro only_intros detect)
  show "only allowed (ruri_try_cgroup_kill w c)"
    unfolding ruri_try_cgroup_kill_def by (intro only_intros wr assms)
qed

lemma is_container_process_only: "only (kill_allowed w c) (is_container_process w pid dir cid)"
  unfolding is_container_process_def by (intro only_intros cgroup_only) (simp_all add: kill_allowed_def)

lemma kill_if_inside_only: "only (kill_allowed w c) (kill_if_inside w c pid)"
  unfolding only_def
proof
  fix tr
  obtain r tr1 where p: "is_container_process w pid (container_dir c) (container_id c) tr = (r, tr1)" by fastforce
  then obtain cs where cs: "tr1 = tr @ cs" "list_all (kill_allowed w c) cs"
    using onlyD[OF is_container_process_only] by blast
  have "kill_allowed w c (Kill pid sigkill)" if "r = Inr True"
    using p that unfolding kill_allowed_def found_inside_def by auto
  then show "\<exists>cs. snd (kill_if_inside w c pid tr) = tr @ cs \<and> list_all (kill_allowed w c) cs"
    using p cs by (cases r) (auto simp: kill_if_inside_def seq_def)
qed

text \<open>C36: ruri_kill_container sends no signal but SIGKILL, and only to a process that
  /proc/pid/root or the cgroup of the container shows to be inside it.\<close>

theorem kills_only_container_processes:
  "only (kill_allowed w c) (ruri_kill_container w c)"
  unfolding ruri_kill_container_def
  by (intro only_intros kill_if_inside_only cgroup_only) (simp_all add: kill_allowed_def)

end
