(* ===== verification/Passwd.thy ===== *)
theory Passwd
  imports Prelude
begin

text \<open>
  The parsers of passwd.c for /etc/passwd, /etc/group, /etc/subuid and
  /etc/subgid.

  A pointer into the file is the suffix of its text; uid_t and gid_t are 32 bit
  words, so a number too large for them wraps as in C.  A file is what open, fstat
  and read yield: None when it cannot be opened, otherwise its bytes (char is
  signed, as on x86).  The scanning loops of the lookup functions share
  \<open>scan_lines\<close>; the locale \<open>line_db\<close> states what a line format must
  promise for a scan to be a search in the list of entries, and it is interpreted
  on the parsers of /etc/passwd and of /etc/group.
\<close>

type_synonym uid = "32 word"

record ruri_id_map =
  idm_uid :: uid
  uid_lower :: uid
  uid_count :: uid
  idm_gid :: uid
  gid_lower :: uid
  gid_count :: uid

section \<open>Fields of one line\<close>

definition login_name_max :: nat where "login_name_max = 256"

text \<open>The test every parser makes before it uses a colon: none is left, or the
  first one stands after the first newline (a missing newline counts as address
  zero, so then the colon is never before it).\<close>

definition colon_missing :: "string \<Rightarrow> bool" where
  "colon_missing p =
     (case strchr_ix colon p of
        None \<Rightarrow> True
      | Some c \<Rightarrow> (case strchr_ix newline p of None \<Rightarrow> True | Some n \<Rightarrow> c > n))"

definition after_colon :: "string \<Rightarrow> string" where
  "after_colon p = (case strchr colon p of None \<Rightarrow> [] | Some q \<Rightarrow> tl q)"

fun username_loop :: "nat \<Rightarrow> string \<Rightarrow> string" where
  "username_loop 0 p = []"
| "username_loop (Suc n) [] = []"
| "username_loop (Suc n) (c # p) = (if c = colon then [] else c # username_loop n p)"

definition line_get_username :: "string \<Rightarrow> string" where
  "line_get_username p = (if colon_missing p then [] else username_loop (login_name_max * 2) p)"

definition char_int :: "char \<Rightarrow> int" where
  "char_int c = (let n = int (of_char c) in if n \<ge> 128 then n - 256 else n)"

text \<open>The digit loop: it reads up to the stop character and tells whether it met
  it before the end of the text.\<close>

fun scan_num :: "char \<Rightarrow> uid \<Rightarrow> string \<Rightarrow> bool \<times> uid" where
  "scan_num stop ret [] = (False, ret)"
| "scan_num stop ret (c # p) =
     (if c = stop then (True, ret)
      else scan_num stop (ret * 10 + of_int (char_int c - 48)) p)"

fun skip_colons :: "nat \<Rightarrow> string \<Rightarrow> string option" where
  "skip_colons 0 p = Some p"
| "skip_colons (Suc n) p =
     (if colon_missing p then None else skip_colons n (after_colon p))"

definition line_get_num_field :: "nat \<Rightarrow> string \<Rightarrow> uid" where
  "line_get_num_field skip p =
     (case skip_colons skip p of None \<Rightarrow> 0
      | Some q \<Rightarrow>
          if q = [] then 0
          else if colon_missing q then 0
          else (case scan_num colon 0 q of (True, ret) \<Rightarrow> ret | (False, _) \<Rightarrow> 0))"

definition line_get_uid :: "string \<Rightarrow> uid" where
  "line_get_uid p = line_get_num_field 2 p"

definition line_get_gid :: "string \<Rightarrow> uid" where
  "line_get_gid p = line_get_num_field 3 p"

definition line_get_uid_lower :: "string \<Rightarrow> uid" where
  "line_get_uid_lower p =
     (if colon_missing p then 0
      else let q = after_colon p in
        if q = [] then 0
        else if colon_missing q then 0
        else snd (scan_num colon 0 q))"

definition line_get_uid_count :: "string \<Rightarrow> uid" where
  "line_get_uid_count p =
     (if colon_missing p then 0
      else let q = after_colon p in
        if q = [] then 0
        else if colon_missing q then 0
        else let r = after_colon q in
          if r = [] then 0
          else if newline \<notin> set r then 0
          else snd (scan_num newline 0 r))"

definition line_get_gid_lower :: "string \<Rightarrow> uid" where
  "line_get_gid_lower p =
     (if colon_missing p then 0
      else let q = after_colon p in
        if q = [] then 0
        else if colon_missing q then 0
        else snd (scan_num colon 0 q))"

definition line_get_gid_count :: "string \<Rightarrow> uid" where
  "line_get_gid_count p =
     (if colon_missing p then 0
      else let q = after_colon p in
        if q = [] then 0
        else if colon_missing q then 0
        else let r = after_colon q in
          if r = [] then 0
          else if newline \<notin> set r then 0
          else snd (scan_num newline 0 r))"

text \<open>Lines of /etc/group: None stands for RURI_PWD_ERRNO_INTERNAL set (and the
  placeholder 1145 returned).\<close>

fun group_skip :: "nat \<Rightarrow> string \<Rightarrow> string option" where
  "group_skip 0 p = Some p"
| "group_skip (Suc n) p =
     (if colon_missing p then None
      else let q = after_colon p in if q = [] then None else group_skip n q)"

fun group_gid_loop :: "uid \<Rightarrow> string \<Rightarrow> uid option" where
  "group_gid_loop ret [] = None"
| "group_gid_loop ret (c # p) =
     (if c = colon then Some ret
      else if \<not> is_digit c then None
      else group_gid_loop (ret * 10 + of_int (char_int c - 48)) p)"

definition line_get_group_gid :: "string \<Rightarrow> uid option" where
  "line_get_group_gid p =
     (case group_skip 2 p of None \<Rightarrow> None | Some q \<Rightarrow> group_gid_loop 0 q)"

text \<open>strtok with the delimiter comma: the non-empty pieces.\<close>

fun strtok_comma :: "string \<Rightarrow> string \<Rightarrow> string list" where
  "strtok_comma acc [] = (if acc = [] then [] else [rev acc])"
| "strtok_comma acc (c # cs) =
     (if c = CHR '','' then (if acc = [] then [] else [rev acc]) @ strtok_comma [] cs
      else strtok_comma (c # acc) cs)"

definition groups_line_have_user :: "string \<Rightarrow> string \<Rightarrow> bool" where
  "groups_line_have_user p username =
     (case group_skip 3 p of None \<Rightarrow> False
      | Some q \<Rightarrow>
          if ch_at q 0 = nul \<or> ch_at q 0 = newline then False
          else username \<in> set (strtok_comma [] (takeWhile (\<lambda>c. c \<noteq> newline) q)))"

section \<open>Whole files\<close>

type_synonym dbfile = "string option"

text \<open>Reading a file whole: Inr None when it cannot be opened or holds a NUL.\<close>

definition read_db :: "string \<Rightarrow> dbfile \<Rightarrow> string option result" where
  "read_db msg f =
     (case f of None \<Rightarrow> Inr None
      | Some buf \<Rightarrow>
          if length buf \<ge> 65536 then Inl (Fatal msg)
          else if nul \<in> set buf then Inr None
          else Inr (Some buf))"

function scan_lines :: "(string \<Rightarrow> 'a option) \<Rightarrow> string \<Rightarrow> 'a option" where
  "scan_lines f p =
     (case f p of Some r \<Rightarrow> Some r
      | None \<Rightarrow>
          (case strchr newline p of None \<Rightarrow> None
           | Some q \<Rightarrow> if tl q = [] then None else scan_lines f (tl q)))"
  by auto
termination by (relation "measure (\<lambda>(_, p). length p)") (auto dest: strchr_shorter)

declare scan_lines.simps [simp del]

definition get_username :: "dbfile \<Rightarrow> uid \<Rightarrow> string option result" where
  "get_username passwd u =
     res_bind (read_db ''The /etc/passwd file is too large, please check it.'' passwd)
       (\<lambda>r. Inr (case r of None \<Rightarrow> None
          | Some buf \<Rightarrow> scan_lines
              (\<lambda>p. if line_get_uid p = u then Some (line_get_username p) else None) buf))"

definition ruri_user_exist :: "dbfile \<Rightarrow> string \<Rightarrow> bool result" where
  "ruri_user_exist passwd username =
     res_bind (read_db ''The /etc/passwd file is too large, please check it.'' passwd)
       (\<lambda>r. Inr (case r of None \<Rightarrow> False
          | Some buf \<Rightarrow> scan_lines
              (\<lambda>p. if line_get_username p = username then Some () else None) buf \<noteq> None))"

text \<open>The lookups by name return the number and RURI_PWD_ERRNO.\<close>

definition ruri_get_user_uid :: "dbfile \<Rightarrow> string \<Rightarrow> (uid \<times> nat) result" where
  "ruri_get_user_uid passwd username =
     res_bind (read_db ''The /etc/passwd file is too large, please check it.'' passwd)
       (\<lambda>r. Inr (case r of None \<Rightarrow> (1145, 1)
          | Some buf \<Rightarrow>
              (case scan_lines
                 (\<lambda>p. if line_get_username p = username then Some (line_get_uid p) else None) buf of
                 Some u \<Rightarrow> (u, 0) | None \<Rightarrow> (1145, 1))))"

definition ruri_get_user_gid :: "dbfile \<Rightarrow> string \<Rightarrow> (uid \<times> nat) result" where
  "ruri_get_user_gid passwd username =
     res_bind (read_db ''The /etc/passwd file is too large, please check it.'' passwd)
       (\<lambda>r. Inr (case r of None \<Rightarrow> (1145, 1)
          | Some buf \<Rightarrow>
              (case scan_lines
                 (\<lambda>p. if line_get_username p = username then Some (line_get_gid p) else None) buf of
                 Some g \<Rightarrow> (g, 0) | None \<Rightarrow> (1145, 1))))"

text \<open>get_uid_map and get_gid_map step buf from line to line and finally free it.
  The result is the pair (lower, count) and whether buf still is the pointer that
  malloc returned: freeing any other is undefined behaviour.  A NULL buf (no
  further newline) is harmless to free.\<close>

function find_map_line :: "string \<Rightarrow> string \<Rightarrow> bool \<Rightarrow> (string option \<times> bool)" where
  "find_map_line pat buf moved =
     (case strstr_ix buf pat of None \<Rightarrow> (None, moved)
      | Some i \<Rightarrow>
          if i = 0 \<or> ch_at buf (i - 1) = newline then (Some (drop i buf), moved)
          else (case strchr newline buf of None \<Rightarrow> (None, False)
                | Some q \<Rightarrow> find_map_line pat (tl q) True))"
  by auto
termination by (relation "measure (\<lambda>(_, buf, _). length buf)") (auto dest: strchr_shorter)

declare find_map_line.simps [simp del]

definition free_interior :: fault where
  "free_interior = Undefined ''free of a pointer into the middle of a block''"

definition get_uid_map :: "dbfile \<Rightarrow> string \<Rightarrow> ruri_id_map \<Rightarrow> ruri_id_map result" where
  "get_uid_map subuid user m =
     (let m0 = m\<lparr>uid_lower := 0, uid_count := 0\<rparr> in
      res_bind (read_db ''The /etc/subuid file is too large, please check it.'' subuid)
        (\<lambda>r. case r of None \<Rightarrow> Inr m0
           | Some buf \<Rightarrow>
               (case find_map_line (user @ [colon]) buf False of
                  (_, True) \<Rightarrow> Inl free_interior
                | (Some line, False) \<Rightarrow>
                    Inr (m\<lparr>uid_lower := line_get_uid_lower line, uid_count := line_get_uid_count line\<rparr>)
                | (None, False) \<Rightarrow> Inr m0)))"

definition get_gid_map :: "dbfile \<Rightarrow> string \<Rightarrow> ruri_id_map \<Rightarrow> ruri_id_map result" where
  "get_gid_map subgid user m =
     (let m0 = m\<lparr>gid_lower := 0, gid_count := 0\<rparr> in
      res_bind (read_db ''The /etc/subgid file is too large, please check it.'' subgid)
        (\<lambda>r. case r of None \<Rightarrow> Inr m0
           | Some buf \<Rightarrow>
               (case find_map_line (user @ [colon]) buf False of
                  (_, True) \<Rightarrow> Inl free_interior
                | (Some line, False) \<Rightarrow>
                    Inr (m\<lparr>gid_lower := line_get_gid_lower line, gid_count := line_get_gid_count line\<rparr>)
                | (None, False) \<Rightarrow> Inr m0)))"

record etc_files =
  etc_passwd :: dbfile
  etc_group :: dbfile
  etc_subuid :: dbfile
  etc_subgid :: dbfile

definition ruri_get_idmap :: "etc_files \<Rightarrow> uid \<Rightarrow> uid \<Rightarrow> ruri_id_map result" where
  "ruri_get_idmap etc u g =
     res_bind (get_username (etc_passwd etc) u)
       (\<lambda>r. case r of
          None \<Rightarrow> Inr \<lparr>idm_uid = u, uid_lower = 0, uid_count = 0, idm_gid = g, gid_lower = 0, gid_count = 0\<rparr>
        | Some username \<Rightarrow>
            res_bind (get_uid_map (etc_subuid etc) username
              \<lparr>idm_uid = u, uid_lower = 0, uid_count = 0, idm_gid = g, gid_lower = 0, gid_count = 0\<rparr>)
              (get_gid_map (etc_subgid etc) username))"

text \<open>ruri_get_groups fills \<open>groups\<close> and returns the count; the list returned
  here is the filled prefix (empty for a return of 0).  A line that does not parse
  is a warning, which force_panic turns into an error.\<close>

definition ngroups_max :: nat where "ngroups_max = 65536"

function groups_loop :: "bool \<Rightarrow> string \<Rightarrow> uid list \<Rightarrow> string \<Rightarrow> uid list result" where
  "groups_loop force_panic username groups p =
     (case line_get_group_gid p of
        None \<Rightarrow> if force_panic then Inl (Fatal ''Force panic is enabled, exiting now.'') else Inr []
      | Some tmpgid \<Rightarrow>
          (let groups' = (if groups_line_have_user p username then groups @ [tmpgid] else groups) in
           if length groups' \<ge> ngroups_max - 1 then Inr groups'
           else (case strchr newline p of None \<Rightarrow> Inr groups'
                 | Some q \<Rightarrow> if tl q = [] then Inr groups'
                            else groups_loop force_panic username groups' (tl q))))"
  by auto
termination by (relation "measure (\<lambda>(_, _, _, p). length p)") (auto dest: strchr_shorter)

declare groups_loop.simps [simp del]

definition ruri_get_groups :: "bool \<Rightarrow> etc_files \<Rightarrow> uid \<Rightarrow> uid list result" where
  "ruri_get_groups force_panic etc u =
     res_bind (get_username (etc_passwd etc) u)
       (\<lambda>r. case r of None \<Rightarrow> Inr []
        | Some username \<Rightarrow>
            res_bind (ruri_get_user_gid (etc_passwd etc) username)
              (\<lambda>(user_gid, err).
                 if err \<noteq> 0 then
                   (if force_panic then Inl (Fatal ''Force panic is enabled, exiting now.'') else Inr [])
                 else
                   res_bind (read_db ''The /etc/group file is too large, please check it.'' (etc_group etc))
                     (\<lambda>g. case g of None \<Rightarrow> Inr [user_gid]
                        | Some buf \<Rightarrow> groups_loop force_panic username [user_gid] buf)))"

section \<open>Entries and the lines they are written as\<close>

record passwd_entry =
  pw_name :: string
  pw_passwd :: string
  pw_uid :: uid
  pw_gid :: uid
  pw_rest :: string

definition no_sep :: "string \<Rightarrow> bool" where
  "no_sep s = (colon \<notin> set s \<and> newline \<notin> set s \<and> nul \<notin> set s)"

definition passwd_ok :: "passwd_entry \<Rightarrow> bool" where
  "passwd_ok e = (no_sep (pw_name e) \<and> length (pw_name e) < login_name_max * 2 \<and>
     no_sep (pw_passwd e) \<and> newline \<notin> set (pw_rest e) \<and> nul \<notin> set (pw_rest e))"

definition show_uid :: "uid \<Rightarrow> string" where
  "show_uid u = show_nat (unat u)"

definition passwd_line :: "passwd_entry \<Rightarrow> string" where
  "passwd_line e = pw_name e @ colon # pw_passwd e @ colon # show_uid (pw_uid e) @ colon #
     show_uid (pw_gid e) @ colon # pw_rest e"

definition file_of :: "('e \<Rightarrow> string) \<Rightarrow> 'e list \<Rightarrow> string" where
  "file_of line es = concat (map (\<lambda>e. line e @ [newline]) es)"

lemma file_of_Cons: "file_of line (e # es) = line e @ newline # file_of line es"
  by (simp add: file_of_def)

lemma colon_missing_append [cstr_simps]:
  assumes "colon \<notin> set s" "newline \<notin> set s" "newline \<in> set t"
  shows "\<not> colon_missing (s @ colon # t)" "after_colon (s @ colon # t) = t"
proof -
  obtain n where "strchr_ix newline t = Some n"
    using assms(3) by (cases "strchr_ix newline t") (auto simp: strchr_ix_None_iff)
  then have "strchr_ix newline (s @ colon # t) = Some (length s + Suc n)"
    using assms(2) by (simp add: strchr_ix_append2)
  then show "\<not> colon_missing (s @ colon # t)"
    using assms(1) by (simp add: colon_missing_def strchr_ix_append)
  show "after_colon (s @ colon # t) = t"
    using assms(1) by (simp add: after_colon_def strchr_append)
qed

lemma username_loop_append:
  "colon \<notin> set s \<Longrightarrow> length s < n \<Longrightarrow> username_loop n (s @ colon # t) = s"
proof (induction s arbitrary: n)
  case Nil
  then show ?case by (cases n) auto
next
  case (Cons a s)
  then show ?case by (cases n) auto
qed

lemma digit_word:
  "is_digit c \<Longrightarrow> (of_int (char_int c - 48) :: uid) = of_nat (digit_val c)"
  by (auto simp: is_digit_def char_int_def digit_val_def Let_def of_nat_diff)

lemma scan_num_digits:
  assumes "\<forall>c \<in> set s. is_digit c" "\<not> is_digit stop"
  shows "scan_num stop (of_nat a) (s @ stop # t) = (True, of_nat (digits_val a s))"
  using assms
proof (induction s arbitrary: a)
  case (Cons c s)
  have "(of_nat a * 10 + of_int (char_int c - 48) :: uid) = of_nat (a * 10 + digit_val c)"
    using Cons.prems digit_word[of c] by simp
  with Cons.IH[of "a * 10 + digit_val c"] Cons.prems show ?case by auto
qed simp

lemma group_gid_loop_digits:
  assumes "\<forall>c \<in> set s. is_digit c"
  shows "group_gid_loop (of_nat a) (s @ colon # t) = Some (of_nat (digits_val a s))"
  using assms
proof (induction s arbitrary: a)
  case (Cons c s)
  have "(of_nat a * 10 + of_int (char_int c - 48) :: uid) = of_nat (a * 10 + digit_val c)"
    using Cons.prems digit_word[of c] by simp
  with Cons.IH[of "a * 10 + digit_val c"] Cons.prems show ?case using is_digit_not[of c] by auto
qed simp

lemma colon_newline_not_digit [simp]: "\<not> is_digit colon" "\<not> is_digit newline" "\<not> is_digit nul"
  by (simp_all add: is_digit_def)

lemma show_uid_sep [simp]: "colon \<notin> set (show_uid u)" "newline \<notin> set (show_uid u)"
  "nul \<notin> set (show_uid u)"
  using show_nat_digits is_digit_not unfolding show_uid_def by blast+

lemma scan_num_show_uid:
  "\<not> is_digit stop \<Longrightarrow> scan_num stop 0 (show_uid u @ stop # t) = (True, u)"
  using scan_num_digits[of "show_nat (unat u)" stop 0 t] show_nat_digits
  by (auto simp: show_uid_def)

lemma group_gid_show_uid: "group_gid_loop 0 (show_uid u @ colon # t) = Some u"
  using group_gid_loop_digits[of "show_nat (unat u)" 0 t] show_nat_digits
  by (auto simp: show_uid_def)

lemma line_get_username_passwd:
  "passwd_ok e \<Longrightarrow> line_get_username (passwd_line e @ newline # t) = pw_name e"
  by (simp add: line_get_username_def passwd_line_def passwd_ok_def no_sep_def cstr_simps
      username_loop_append)

lemma line_get_uid_passwd: "passwd_ok e \<Longrightarrow> line_get_uid (passwd_line e @ newline # t) = pw_uid e"
  by (simp add: line_get_uid_def line_get_num_field_def numeral_2_eq_2 passwd_line_def passwd_ok_def
      no_sep_def cstr_simps scan_num_show_uid)

lemma line_get_gid_passwd: "passwd_ok e \<Longrightarrow> line_get_gid (passwd_line e @ newline # t) = pw_gid e"
  by (simp add: line_get_gid_def line_get_num_field_def numeral_3_eq_3 passwd_line_def passwd_ok_def
      no_sep_def cstr_simps scan_num_show_uid)

section \<open>The contract of a line format\<close>

locale line_db =
  fixes key :: "string \<Rightarrow> 'k"
    and val :: "string \<Rightarrow> 'v"
    and line :: "'e \<Rightarrow> string"
    and ekey :: "'e \<Rightarrow> 'k"
    and evalue :: "'e \<Rightarrow> 'v"
    and ok :: "'e \<Rightarrow> bool"
  assumes key_line: "ok e \<Longrightarrow> key (line e @ newline # t) = ekey e"
    and val_line: "ok e \<Longrightarrow> val (line e @ newline # t) = evalue e"
    and line_no_newline: "ok e \<Longrightarrow> newline \<notin> set (line e)"
begin

lemma scan_is_find:
  assumes "es \<noteq> []" "\<forall>e \<in> set es. ok e"
  shows "scan_lines (\<lambda>p. if key p = k then Some (val p) else None) (file_of line es)
    = map_option evalue (find (\<lambda>e. ekey e = k) es)"
  using assms
proof (induction es)
  case (Cons e es)
  have e: "ok e" using Cons.prems by simp
  note l = key_line[OF e] val_line[OF e] line_no_newline[OF e]
  show ?case
  proof (cases "es = []")
    case True
    then show ?thesis using l
      by (subst scan_lines.simps) (simp add: file_of_Cons cstr_simps file_of_def[of _ "[]"])
  next
    case False
    then have "file_of line es \<noteq> []" by (cases es) (simp_all add: file_of_Cons)
    then show ?thesis using l Cons.IH[OF False] Cons.prems(2)
      by (subst scan_lines.simps) (simp add: file_of_Cons cstr_simps)
  qed
qed simp

end

lemma passwd_line_no_newline: "passwd_ok e \<Longrightarrow> newline \<notin> set (passwd_line e)"
  by (auto simp: passwd_line_def passwd_ok_def no_sep_def)

interpretation uid_by_name: line_db line_get_username line_get_uid passwd_line pw_name pw_uid passwd_ok
  by unfold_locales (auto simp: line_get_username_passwd line_get_uid_passwd passwd_line_no_newline)

interpretation gid_by_name: line_db line_get_username line_get_gid passwd_line pw_name pw_gid passwd_ok
  by unfold_locales (auto simp: line_get_username_passwd line_get_gid_passwd passwd_line_no_newline)

interpretation name_by_uid: line_db line_get_uid line_get_username passwd_line pw_uid pw_name passwd_ok
  by unfold_locales (auto simp: line_get_username_passwd line_get_uid_passwd passwd_line_no_newline)

interpretation user_known: line_db line_get_username "\<lambda>_. ()" passwd_line pw_name "\<lambda>_. ()" passwd_ok
  by unfold_locales (auto simp: line_get_username_passwd passwd_line_no_newline)

lemma nul_not_in_file_of: "\<forall>e \<in> set es. nul \<notin> set (line e) \<Longrightarrow> nul \<notin> set (file_of line es)"
  by (induction es) (auto simp: file_of_def)

lemma nul_passwd_file: "\<forall>e \<in> set es. passwd_ok e \<Longrightarrow> nul \<notin> set (file_of passwd_line es)"
  by (rule nul_not_in_file_of) (auto simp: passwd_line_def passwd_ok_def no_sep_def)

lemma read_db_ok: "nul \<notin> set buf \<Longrightarrow> length buf < 65536 \<Longrightarrow> read_db msg (Some buf) = Inr (Some buf)"
  by (simp add: read_db_def)

lemma get_username_file:
  assumes "es \<noteq> []" "\<forall>e \<in> set es. passwd_ok e" "length (file_of passwd_line es) < 65536"
  shows "get_username (Some (file_of passwd_line es)) u = Inr (map_option pw_name (find (\<lambda>e. pw_uid e = u) es))"
  using name_by_uid.scan_is_find[OF assms(1,2)] read_db_ok[OF nul_passwd_file[OF assms(2)] assms(3)]
  by (simp add: get_username_def)

lemma get_user_gid_file:
  assumes "es \<noteq> []" "\<forall>e \<in> set es. passwd_ok e" "length (file_of passwd_line es) < 65536"
  shows "ruri_get_user_gid (Some (file_of passwd_line es)) n = Inr (case find (\<lambda>e. pw_name e = n) es of
      Some e \<Rightarrow> (pw_gid e, 0) | None \<Rightarrow> (1145, 1))"
  using gid_by_name.scan_is_find[OF assms(1,2)] read_db_ok[OF nul_passwd_file[OF assms(2)] assms(3)]
  by (auto simp: ruri_get_user_gid_def split: option.splits)

lemma get_user_uid_file:
  assumes "es \<noteq> []" "\<forall>e \<in> set es. passwd_ok e" "length (file_of passwd_line es) < 65536"
  shows "ruri_get_user_uid (Some (file_of passwd_line es)) n = Inr (case find (\<lambda>e. pw_name e = n) es of
      Some e \<Rightarrow> (pw_uid e, 0) | None \<Rightarrow> (1145, 1))"
  using uid_by_name.scan_is_find[OF assms(1,2)] read_db_ok[OF nul_passwd_file[OF assms(2)] assms(3)]
  by (auto simp: ruri_get_user_uid_def split: option.splits)

lemma user_exist_file:
  assumes "es \<noteq> []" "\<forall>e \<in> set es. passwd_ok e" "length (file_of passwd_line es) < 65536"
  shows "ruri_user_exist (Some (file_of passwd_line es)) n = Inr (n \<in> pw_name ` set es)"
  using user_known.scan_is_find[OF assms(1,2)] read_db_ok[OF nul_passwd_file[OF assms(2)] assms(3)]
  by (auto simp: ruri_user_exist_def find_None_iff)

section \<open>Entries of /etc/subuid and /etc/subgid\<close>

record subid_entry =
  si_name :: string
  si_lower :: uid
  si_count :: uid

definition subid_ok :: "subid_entry \<Rightarrow> bool" where
  "subid_ok e = no_sep (si_name e)"

definition subid_line :: "subid_entry \<Rightarrow> string" where
  "subid_line e = si_name e @ colon # show_uid (si_lower e) @ colon # show_uid (si_count e)"

lemma show_nat_ne [simp]: "show_uid u \<noteq> []"
  by (simp add: show_uid_def)

lemma subid_line_fields:
  assumes "subid_ok e"
  shows "line_get_uid_lower (subid_line e @ newline # t) = si_lower e"
    and "line_get_uid_count (subid_line e @ newline # t) = si_count e"
    and "line_get_gid_lower (subid_line e @ newline # t) = si_lower e"
    and "line_get_gid_count (subid_line e @ newline # t) = si_count e"
  using assms
  by (simp_all add: line_get_uid_lower_def line_get_uid_count_def line_get_gid_lower_def
      line_get_gid_count_def subid_line_def subid_ok_def no_sep_def cstr_simps scan_num_show_uid Let_def)

lemma is_prefix_newline:
  "newline \<notin> set pat \<Longrightarrow> is_prefix pat (s @ newline # t) = is_prefix pat s"
proof (induction pat s rule: is_prefix.induct)
  case (2 x xs)
  then show ?case by auto
qed auto

lemma strstr_ix_line:
  assumes "newline \<notin> set pat" "pat \<noteq> []"
  shows "strstr_ix (l @ newline # t) pat = (case strstr_ix l pat of Some i \<Rightarrow> Some i
    | None \<Rightarrow> map_option (\<lambda>i. Suc (length l + i)) (strstr_ix t pat))"
proof (induction l)
  case Nil
  then show ?case using assms by (cases pat) (auto simp: map_option_case)
next
  case (Cons a l)
  then show ?case
    using is_prefix_newline[OF assms(1), of "a # l" t]
    by (auto simp: option.map_comp comp_def split: option.splits)
qed

lemma strstr_ix_skip:
  assumes "newline \<notin> set pat" "pat \<noteq> []" "\<forall>e \<in> set es. strstr_ix (line e) pat = None"
  shows "strstr_ix (file_of line es @ t) pat = map_option (\<lambda>i. length (file_of line es) + i) (strstr_ix t pat)"
  using assms(3)
proof (induction es)
  case Nil
  then show ?case by (simp add: file_of_def option.map_ident)
next
  case (Cons e es)
  then show ?case using assms(1,2)
    by (simp add: file_of_Cons strstr_ix_line option.map_comp comp_def add.assoc)
qed

lemma strstr_ix_head: "strstr_ix (pat @ t) pat = Some 0"
  by (cases pat; cases t) auto

lemma strstr_ix_Some_less: "strstr_ix s pat = Some i \<Longrightarrow> is_prefix pat (drop i s)"
  by (induction s arbitrary: i) (auto split: if_splits)

lemma strstr_ix_upper: "\<exists>i. strstr_ix (s @ pat @ t) pat = Some i \<and> i \<le> length s"
proof (induction s)
  case Nil
  then show ?case by (simp add: strstr_ix_head)
qed auto

lemma find_map_line_found:
  assumes "newline \<notin> set user" "\<forall>e \<in> set pre. strstr_ix (line e) (user @ [colon]) = None"
  shows "find_map_line (user @ [colon]) (file_of line pre @ user @ colon # t) b
    = (Some (user @ colon # t), b)"
proof -
  have "strstr_ix (file_of line pre @ user @ colon # t) (user @ [colon]) = Some (length (file_of line pre))"
    using strstr_ix_skip[of "user @ [colon]" pre line "user @ colon # t"] assms
      strstr_ix_head[of "user @ [colon]" t] by simp
  moreover have "file_of line pre \<noteq> [] \<Longrightarrow> last (file_of line pre) = newline"
    by (induction pre) (auto simp: file_of_def)
  then have "length (file_of line pre) = 0 \<or>
      ch_at (file_of line pre @ user @ colon # t) (length (file_of line pre) - 1) = newline"
    by (cases "file_of line pre = []") (simp_all add: ch_at_def nth_append last_conv_nth)
  ultimately show ?thesis by (subst find_map_line.simps) auto
qed

lemma find_map_line_moved:
  assumes "\<forall>e \<in> set es. newline \<notin> set (line e)"
  shows "snd (find_map_line pat (file_of line es) True)"
  using assms
proof (induction es)
  case Nil
  then show ?case by (subst find_map_line.simps) (auto simp: file_of_def ch_at_def split: option.splits)
next
  case (Cons e es)
  then have "snd (find_map_line pat (file_of line es) True)" by simp
  moreover have "strchr newline (file_of line (e # es)) = Some (newline # file_of line es)"
    using Cons.prems by (simp add: file_of_Cons cstr_simps)
  ultimately show ?case by (subst find_map_line.simps) (auto split: option.splits)
qed

lemma nul_subid_file: "\<forall>e \<in> set es. subid_ok e \<Longrightarrow> nul \<notin> set (file_of subid_line es)"
  by (rule nul_not_in_file_of) (auto simp: subid_line_def subid_ok_def no_sep_def)

lemma subid_line_no_newline: "subid_ok e \<Longrightarrow> newline \<notin> set (subid_line e)"
  by (auto simp: subid_line_def subid_ok_def no_sep_def)

lemma subid_found:
  assumes "\<forall>e \<in> set (pre @ s # post). subid_ok e" "si_name s = user"
    "\<forall>e \<in> set pre. strstr_ix (subid_line e) (user @ [colon]) = None"
  shows "find_map_line (user @ [colon]) (file_of subid_line (pre @ s # post)) False
    = (Some (subid_line s @ newline # file_of subid_line post), False)"
proof -
  have "newline \<notin> set user" using assms(1,2) by (auto simp: subid_ok_def no_sep_def)
  moreover have "file_of subid_line (pre @ s # post) = file_of subid_line pre @ user @ colon #
     (show_uid (si_lower s) @ colon # show_uid (si_count s) @ newline # file_of subid_line post)"
    using assms(2) by (simp add: file_of_def subid_line_def)
  ultimately show ?thesis
    using find_map_line_found[of user pre subid_line _ False] assms(2,3)
    by (simp add: subid_line_def)
qed

lemma get_map_found:
  assumes "\<forall>e \<in> set (pre @ s # post). subid_ok e" "si_name s = user"
    "\<forall>e \<in> set pre. strstr_ix (subid_line e) (user @ [colon]) = None"
    "length (file_of subid_line (pre @ s # post)) < 65536"
  shows "get_uid_map (Some (file_of subid_line (pre @ s # post))) user m
      = Inr (m\<lparr>uid_lower := si_lower s, uid_count := si_count s\<rparr>)"
    and "get_gid_map (Some (file_of subid_line (pre @ s # post))) user m
      = Inr (m\<lparr>gid_lower := si_lower s, gid_count := si_count s\<rparr>)"
proof -
  have "subid_ok s" using assms(1) by simp
  note f = subid_line_fields[OF this] subid_found[OF assms(1-3)]
    read_db_ok[OF nul_subid_file[OF assms(1)] assms(4)]
  show "get_uid_map (Some (file_of subid_line (pre @ s # post))) user m
      = Inr (m\<lparr>uid_lower := si_lower s, uid_count := si_count s\<rparr>)"
    by (simp add: get_uid_map_def f Let_def)
  show "get_gid_map (Some (file_of subid_line (pre @ s # post))) user m
      = Inr (m\<lparr>gid_lower := si_lower s, gid_count := si_count s\<rparr>)"
    by (simp add: get_gid_map_def f Let_def)
qed

section \<open>Entries of /etc/group\<close>

record group_entry =
  gr_name :: string
  gr_passwd :: string
  gr_gid :: uid
  gr_members :: "string list"

fun join_comma :: "string list \<Rightarrow> string" where
  "join_comma [] = []"
| "join_comma [m] = m"
| "join_comma (m # ms) = m @ CHR '','' # join_comma ms"

definition member_ok :: "string \<Rightarrow> bool" where
  "member_ok m = (m \<noteq> [] \<and> CHR '','' \<notin> set m \<and> newline \<notin> set m \<and> nul \<notin> set m)"

definition group_ok :: "group_entry \<Rightarrow> bool" where
  "group_ok g = (no_sep (gr_name g) \<and> no_sep (gr_passwd g) \<and> (\<forall>m \<in> set (gr_members g). member_ok m))"

definition group_line :: "group_entry \<Rightarrow> string" where
  "group_line g = gr_name g @ colon # gr_passwd g @ colon # show_uid (gr_gid g) @ colon #
     join_comma (gr_members g)"

lemma strtok_token:
  "CHR '','' \<notin> set m \<Longrightarrow> strtok_comma acc (m @ CHR '','' # t)
     = (if acc = [] \<and> m = [] then [] else [rev acc @ m]) @ strtok_comma [] t"
  by (induction m arbitrary: acc) auto

lemma strtok_last:
  "CHR '','' \<notin> set m \<Longrightarrow> strtok_comma acc m = (if acc = [] \<and> m = [] then [] else [rev acc @ m])"
  by (induction m arbitrary: acc) auto

lemma strtok_join: "\<forall>m \<in> set ms. member_ok m \<Longrightarrow> strtok_comma [] (join_comma ms) = ms"
  by (induction ms rule: join_comma.induct)
     (auto simp: strtok_token strtok_last member_ok_def)

lemma join_comma_chars:
  "\<forall>m \<in> set ms. member_ok m \<Longrightarrow> newline \<notin> set (join_comma ms) \<and> nul \<notin> set (join_comma ms)"
  by (induction ms rule: join_comma.induct) (auto simp: member_ok_def)

lemma join_comma_Nil: "\<forall>m \<in> set ms. member_ok m \<Longrightarrow> join_comma ms = [] \<longleftrightarrow> ms = []"
  by (induction ms rule: join_comma.induct) (auto simp: member_ok_def)

lemma group_skip_line:
  assumes "group_ok g"
  shows "group_skip 2 (group_line g @ newline # t)
      = Some (show_uid (gr_gid g) @ colon # join_comma (gr_members g) @ newline # t)"
    and "group_skip 3 (group_line g @ newline # t) = Some (join_comma (gr_members g) @ newline # t)"
  using assms by (simp_all add: numeral_2_eq_2 numeral_3_eq_3 group_line_def group_ok_def no_sep_def
      cstr_simps Let_def)

lemma group_line_parses:
  assumes "group_ok g"
  shows "line_get_group_gid (group_line g @ newline # t) = Some (gr_gid g)"
    and "groups_line_have_user (group_line g @ newline # t) u = (u \<in> set (gr_members g))"
proof -
  show "line_get_group_gid (group_line g @ newline # t) = Some (gr_gid g)"
    using assms by (simp add: line_get_group_gid_def group_skip_line group_gid_show_uid)
  have ms: "\<forall>m \<in> set (gr_members g). member_ok m" using assms by (simp add: group_ok_def)
  have "takeWhile (\<lambda>c. c \<noteq> newline) (join_comma (gr_members g) @ newline # t) = join_comma (gr_members g)"
    using join_comma_chars[OF ms] by (simp add: cstr_simps)
  moreover have "gr_members g \<noteq> [] \<Longrightarrow> ch_at (join_comma (gr_members g) @ newline # t) 0 \<noteq> nul \<and>
      ch_at (join_comma (gr_members g) @ newline # t) 0 \<noteq> newline"
    using join_comma_chars[OF ms] join_comma_Nil[OF ms]
    by (cases "join_comma (gr_members g)") (auto simp: cstr_simps)
  ultimately show "groups_line_have_user (group_line g @ newline # t) u = (u \<in> set (gr_members g))"
    using assms strtok_join[OF ms]
    by (cases "gr_members g = []")
       (auto simp: groups_line_have_user_def group_skip_line cstr_simps)
qed

lemma group_line_no_newline: "group_ok g \<Longrightarrow> newline \<notin> set (group_line g)"
  using join_comma_chars[of "gr_members g"]
  by (auto simp: group_line_def group_ok_def no_sep_def)

lemma groups_loop_file:
  assumes "gs \<noteq> []" "\<forall>g \<in> set gs. group_ok g" "length acc + length gs < ngroups_max - 1"
  shows "groups_loop fp u acc (file_of group_line gs)
    = Inr (acc @ map gr_gid (filter (\<lambda>g. u \<in> set (gr_members g)) gs))"
  using assms
proof (induction gs arbitrary: acc)
  case (Cons g gs)
  have g: "group_ok g" using Cons.prems by simp
  note l = group_line_parses[OF g] group_line_no_newline[OF g]
  show ?case
  proof (cases "gs = []")
    case True
    then show ?thesis using l Cons.prems(3)
      by (subst groups_loop.simps)
         (simp add: file_of_Cons cstr_simps Let_def file_of_def[of _ "[]"])
  next
    case False
    then have "file_of group_line gs \<noteq> []" by (cases gs) (simp_all add: file_of_Cons)
    then show ?thesis using l Cons.IH[OF False] Cons.prems(2,3)
      by (subst groups_loop.simps) (simp add: file_of_Cons cstr_simps Let_def)
  qed
qed simp

section \<open>Properties\<close>

text \<open>C12: on an /etc/passwd made of well-formed entries (and below the size
  limit), the text scans of ruri_get_user_uid, ruri_get_user_gid and
  ruri_user_exist are searches in the list of entries: the first entry with the
  name decides, and a name that has none is reported by the error flag and 1145.\<close>

theorem passwd_lookup_is_search:
  assumes "es \<noteq> []" "\<forall>e \<in> set es. passwd_ok e" "length (file_of passwd_line es) < 65536"
  shows "ruri_get_user_uid (Some (file_of passwd_line es)) n
      = Inr (case find (\<lambda>e. pw_name e = n) es of Some e \<Rightarrow> (pw_uid e, 0) | None \<Rightarrow> (1145, 1))
    \<and> ruri_get_user_gid (Some (file_of passwd_line es)) n
      = Inr (case find (\<lambda>e. pw_name e = n) es of Some e \<Rightarrow> (pw_gid e, 0) | None \<Rightarrow> (1145, 1))
    \<and> ruri_user_exist (Some (file_of passwd_line es)) n = Inr (n \<in> pw_name ` set es)"
  using assms by (simp add: get_user_uid_file get_user_gid_file user_exist_file)

definition sample_passwd :: "passwd_entry list" where
  "sample_passwd =
     [\<lparr>pw_name = ''root'', pw_passwd = ''x'', pw_uid = 0, pw_gid = 0, pw_rest = ''root:/root:/bin/sh''\<rparr>,
      \<lparr>pw_name = ''moe'', pw_passwd = ''x'', pw_uid = 1000, pw_gid = 100, pw_rest = '':/home/moe:/bin/sh''\<rparr>]"

lemma sample_passwd_facts:
  "sample_passwd \<noteq> []" "\<forall>e \<in> set sample_passwd. passwd_ok e"
  "length (file_of passwd_line sample_passwd) < 65536"
  by (simp_all add: sample_passwd_def passwd_ok_def no_sep_def login_name_max_def file_of_def
      passwd_line_def show_uid_def show_nat.simps)

theorem passwd_lookup_is_search_witness:
  "ruri_get_user_uid (Some (file_of passwd_line sample_passwd)) ''moe'' = Inr (1000, 0)
   \<and> ruri_user_exist (Some (file_of passwd_line sample_passwd)) ''nobody'' = Inr False"
  using passwd_lookup_is_search[OF sample_passwd_facts, of "''moe''"]
    passwd_lookup_is_search[OF sample_passwd_facts, of "''nobody''"]
  by (simp add: sample_passwd_def)

text \<open>C13: ruri_get_idmap returns the ranges of the user's own lines: when the uid
  is in /etc/passwd, the user has a line in /etc/subuid and in /etc/subgid, and no
  earlier line of either mentions the name followed by a colon, the mapping is the
  numbers of those lines.\<close>

theorem idmap_of_user_lines:
  assumes passwd: "es \<noteq> []" "\<forall>e \<in> set es. passwd_ok e" "length (file_of passwd_line es) < 65536"
    and user: "find (\<lambda>e. pw_uid e = u) es = Some e"
    and sub: "\<forall>e \<in> set (pre @ s # post). subid_ok e" "si_name s = pw_name e"
      "\<forall>x \<in> set pre. strstr_ix (subid_line x) (pw_name e @ [colon]) = None"
      "length (file_of subid_line (pre @ s # post)) < 65536"
    and subg: "\<forall>e \<in> set (preg @ sg # postg). subid_ok e" "si_name sg = pw_name e"
      "\<forall>x \<in> set preg. strstr_ix (subid_line x) (pw_name e @ [colon]) = None"
      "length (file_of subid_line (preg @ sg # postg)) < 65536"
  shows "ruri_get_idmap \<lparr>etc_passwd = Some (file_of passwd_line es), etc_group = grp,
      etc_subuid = Some (file_of subid_line (pre @ s # post)),
      etc_subgid = Some (file_of subid_line (preg @ sg # postg))\<rparr> u g
    = Inr \<lparr>idm_uid = u, uid_lower = si_lower s, uid_count = si_count s,
           idm_gid = g, gid_lower = si_lower sg, gid_count = si_count sg\<rparr>"
  using get_username_file[OF passwd, of u] user get_map_found(1)[OF sub] get_map_found(2)[OF subg]
  by (simp add: ruri_get_idmap_def)

definition sample_subids :: "subid_entry list" where
  "sample_subids = [\<lparr>si_name = ''moe'', si_lower = 100000, si_count = 65536\<rparr>]"

theorem idmap_of_user_lines_witness:
  "ruri_get_idmap \<lparr>etc_passwd = Some (file_of passwd_line sample_passwd), etc_group = None,
      etc_subuid = Some (file_of subid_line ([] @ hd sample_subids # [])),
      etc_subgid = Some (file_of subid_line ([] @ hd sample_subids # []))\<rparr> 1000 7
    = Inr \<lparr>idm_uid = 1000, uid_lower = 100000, uid_count = 65536,
           idm_gid = 7, gid_lower = 100000, gid_count = 65536\<rparr>"
  using idmap_of_user_lines[OF sample_passwd_facts, of 1000 "sample_passwd ! 1"
      "[]" "hd sample_subids" "[]" "[]" "hd sample_subids" "[]" None 7]
  by (simp add: sample_passwd_def sample_subids_def subid_ok_def no_sep_def file_of_def
      subid_line_def show_uid_def show_nat.simps)

text \<open>when a line before the user's own one belongs to a user whose name ends
  in that name, get_uid_map and get_gid_map free a pointer into the middle of their
  buffer, whatever the rest of the file holds.\<close>

theorem subid_suffix_name_bad_free:
  assumes "\<forall>e \<in> set (s # es). subid_ok e" "si_name s = p # ps @ user"
    and "colon \<notin> set user"
    and "length (file_of subid_line (s # es)) < 65536"
  shows "get_uid_map (Some (file_of subid_line (s # es))) user m = Inl free_interior
    \<and> get_gid_map (Some (file_of subid_line (s # es))) user m = Inl free_interior"
proof -
  define buf where "buf = file_of subid_line (s # es)"
  have bufeq: "buf = (p # ps) @ user @ colon # show_uid (si_lower s) @ colon # show_uid (si_count s)
      @ newline # file_of subid_line es"
    using assms(2) by (simp add: buf_def file_of_Cons subid_line_def)
  have nc: "colon \<notin> set (p # ps @ user)" "newline \<notin> set (p # ps @ user)"
    using assms(1,2) by (auto simp: subid_ok_def no_sep_def)
  obtain i where i: "strstr_ix buf (user @ [colon]) = Some i"
    and le: "i \<le> length (p # ps)" by (metis bufeq append.assoc append_Cons append_Nil
      strstr_ix_upper[of "p # ps" "user @ [colon]" "show_uid (si_lower s) @ colon # show_uid (si_count s)
      @ newline # file_of subid_line es"])
  have "i \<noteq> 0"
  proof
    assume "i = 0"
    then have "is_prefix (user @ [colon]) buf" using strstr_ix_Some_less[OF i] by simp
    then obtain t where "buf = user @ colon # t" by (auto simp: is_prefix_iff)
    then have "strchr_ix colon buf = Some (length user)" using assms(3) by (simp add: strchr_ix_append)
    moreover have "strchr_ix colon buf = Some (length (p # ps @ user))"
      using nc strchr_ix_append[of colon "p # ps @ user"] bufeq by simp
    ultimately show False by simp
  qed
  moreover have "ch_at buf (i - 1) \<noteq> newline"
  proof -
    have "i - 1 < length (p # ps @ user)" using le by simp
    then have "ch_at buf (i - 1) = (p # ps @ user) ! (i - 1)"
      using bufeq nth_append[of "p # ps @ user" _ "i - 1"] by (simp add: ch_at_def)
    then show ?thesis using nc(2) \<open>i - 1 < length (p # ps @ user)\<close> by (metis nth_mem)
  qed
  moreover have "strchr newline buf = Some (newline # file_of subid_line es)"
    using subid_line_no_newline[of s] assms(1) by (simp add: buf_def file_of_Cons cstr_simps)
  moreover have "snd (find_map_line (user @ [colon]) (file_of subid_line es) True)"
    using find_map_line_moved[of es subid_line] assms(1) subid_line_no_newline by auto
  ultimately have "snd (find_map_line (user @ [colon]) buf False)"
    using i by (subst find_map_line.simps) simp
  moreover have "read_db msg (Some buf) = Inr (Some buf)" for msg
    unfolding buf_def by (rule read_db_ok[OF nul_subid_file[OF assms(1)] assms(4)])
  ultimately show ?thesis unfolding buf_def[symmetric]
    by (cases "find_map_line (user @ [colon]) buf False") (auto simp: get_uid_map_def get_gid_map_def Let_def
        split: option.splits bool.splits)
qed

theorem subid_suffix_name_bad_free_witness:
  "get_uid_map (Some (file_of subid_line
      [\<lparr>si_name = ''xmoe'', si_lower = 1, si_count = 2\<rparr>, \<lparr>si_name = ''moe'', si_lower = 3, si_count = 4\<rparr>]))
      ''moe'' \<lparr>idm_uid = 0, uid_lower = 0, uid_count = 0, idm_gid = 0, gid_lower = 0, gid_count = 0\<rparr> = Inl free_interior"
proof -
  have len: "length (file_of subid_line
      [\<lparr>si_name = ''xmoe'', si_lower = 1, si_count = 2\<rparr>, \<lparr>si_name = ''moe'', si_lower = 3, si_count = 4\<rparr>]) < 65536"
    by (simp add: file_of_def subid_line_def show_uid_def show_nat.simps)
  then show ?thesis
    using subid_suffix_name_bad_free[of "\<lparr>si_name = ''xmoe'', si_lower = 1, si_count = 2\<rparr>"
        "[\<lparr>si_name = ''moe'', si_lower = 3, si_count = 4\<rparr>]" "CHR ''x''" "[]" "''moe''" "\<lparr>idm_uid = 0, uid_lower = 0, uid_count = 0, idm_gid = 0, gid_lower = 0, gid_count = 0\<rparr>"]
    by (simp add: subid_ok_def no_sep_def)
qed

text \<open>C14: ruri_get_groups returns the user's primary group followed by exactly the
  groups of /etc/group that list the user, in the order of the file, when both
  files are made of well-formed entries and the result fits the caller's array.\<close>

theorem groups_of_user:
  assumes passwd: "es \<noteq> []" "\<forall>e \<in> set es. passwd_ok e" "length (file_of passwd_line es) < 65536"
    and user: "find (\<lambda>e. pw_uid e = u) es = Some e" "find (\<lambda>x. pw_name x = pw_name e) es = Some e'"
    and grp: "gs \<noteq> []" "\<forall>g \<in> set gs. group_ok g" "length (file_of group_line gs) < 65536"
    and room: "length gs + 1 < ngroups_max - 1"
  shows "ruri_get_groups fp \<lparr>etc_passwd = Some (file_of passwd_line es),
      etc_group = Some (file_of group_line gs), etc_subuid = su, etc_subgid = sg\<rparr> u
    = Inr (pw_gid e' # map gr_gid (filter (\<lambda>g. pw_name e \<in> set (gr_members g)) gs))"
proof -
  have "nul \<notin> set (file_of group_line gs)"
    by (rule nul_not_in_file_of)
       (use grp(2) join_comma_chars in \<open>auto simp: group_line_def group_ok_def no_sep_def\<close>)
  then have "read_db msg (Some (file_of group_line gs)) = Inr (Some (file_of group_line gs))" for msg
    using read_db_ok grp(3) by blast
  then show ?thesis
    using get_username_file[OF passwd, of u] get_user_gid_file[OF passwd, of "pw_name e"] user
      groups_loop_file[OF grp(1,2), of "[pw_gid e']" fp "pw_name e"] room
    by (simp add: ruri_get_groups_def)
qed

definition sample_groups :: "group_entry list" where
  "sample_groups =
     [\<lparr>gr_name = ''root'', gr_passwd = ''x'', gr_gid = 0, gr_members = []\<rparr>,
      \<lparr>gr_name = ''wheel'', gr_passwd = ''x'', gr_gid = 10, gr_members = [''moe'', ''ruri'']\<rparr>]"

theorem groups_of_user_witness:
  "ruri_get_groups False \<lparr>etc_passwd = Some (file_of passwd_line sample_passwd),
      etc_group = Some (file_of group_line sample_groups), etc_subuid = None, etc_subgid = None\<rparr> 1000
    = Inr [100, 10]"
proof -
  have g: "sample_groups \<noteq> []" "\<forall>g \<in> set sample_groups. group_ok g"
    "length (file_of group_line sample_groups) < 65536" "length sample_groups + 1 < ngroups_max - 1"
    by (simp_all add: sample_groups_def group_ok_def no_sep_def member_ok_def file_of_def
        group_line_def show_uid_def show_nat.simps ngroups_max_def)
  have u: "find (\<lambda>e. pw_uid e = 1000) sample_passwd = Some (sample_passwd ! 1)"
    "find (\<lambda>x. pw_name x = pw_name (sample_passwd ! 1)) sample_passwd = Some (sample_passwd ! 1)"
    by (simp_all add: sample_passwd_def)
  show ?thesis
    using groups_of_user[OF sample_passwd_facts u g, of False None None]
    by (simp add: sample_passwd_def sample_groups_def)
qed

end
