(* ===== verification/Watchdog.thy ===== *)
theory Watchdog
  imports Umount Passwd
begin

text \<open>
  watchdog.c and, of ps.c, ruri_stat: the status a process of ruri sends to the daemon
  that keeps the pid file, the daemon itself, the timeout watchdog, the init process of
  a container, and the reader of the pid file.

  The daemon is a state machine: its state is \<open>daemon\<close>, what read(2) on the
  socket returns are the \<open>event\<close>s, and \<open>daemon_step\<close> is one turn of
  its loop.  A turn that ends the loop releases the lock of the file; unmounting and the exit
  follow as steps of their own, \<open>daemon_wind_up\<close>.  \<open>daemon_loop\<close> runs it on the events
  in the order they arrive.
  The watchdog reads the clock and tests the process it watches once per turn; these
  observations are a list.  Waiting and signal dispositions are not modelled.

  The record \<open>host\<close> collects everything the programs of the following
  theories are given besides the container: the world, the environment of the functions
  for .rurienv, the files of /etc inside and outside the container, libcap's names and
  its test for supported capabilities, the architecture ruri was compiled for, whether
  the socket to the daemon is there, the effective ids, rand(), and the statuses waitpid
  reports to the init process of a container.
\<close>

section \<open>The host\<close>

record host =
  h_world :: world
  h_info :: rurienv_env
  h_etc :: etc_files
  h_host_etc :: etc_files
  h_cap_name :: "int \<Rightarrow> string option"
  h_cap_supported :: "int \<Rightarrow> bool"
  h_arch :: string
  h_pid_fd :: bool
  h_euid :: uid
  h_egid :: uid
  h_rand :: "int \<Rightarrow> nat \<Rightarrow> nat"
  h_statuses :: "sys_call list \<Rightarrow> int list"

section \<open>Messages to the daemon\<close>

datatype pid_req = Req_init | Req_pid | Req_panic_exec | Req_panic_internal | Req_panic_timeout
  | Req_exited | Req_signaled | Req_unknown

fun pid_message :: "pid_req \<Rightarrow> int \<Rightarrow> string option" where
  "pid_message Req_init arg = None"
| "pid_message Req_pid arg = Some (line_of (show_int arg))"
| "pid_message Req_panic_exec arg = Some (line_of ''RURI_PANIC_EXE'')"
| "pid_message Req_panic_internal arg = Some (line_of ''RURI_PANIC_INTERNAL'')"
| "pid_message Req_panic_timeout arg = Some (line_of ''RURI_PANIC_TIMEOUT'')"
| "pid_message Req_exited arg = Some (line_of (''RURI_EXITED_'' @ show_int arg))"
| "pid_message Req_signaled arg = Some (line_of (''RURI_SIGNALED_'' @ show_int arg))"
| "pid_message Req_unknown arg = Some (line_of ''RURI_EXIT_UNKNOWN'')"

definition ruri_pid_file_write :: "host \<Rightarrow> pid_req \<Rightarrow> int \<Rightarrow> unit prog" where
  "ruri_pid_file_write h req arg =
     (if \<not> h_pid_fd h then ret ()
      else case pid_message req arg of None \<Rightarrow> ret () | Some m \<Rightarrow> run (h_world h) (Send_status m))"

section \<open>The daemon of the pid file\<close>

text \<open>The places where the loop is left: a panic message, a timeout message, the end of the
  file, an error of read(2).\<close>

datatype leaving = Panicked | Timed_out | Hung_up | Failed

record daemon =
  d_file :: string
  d_locked :: bool
  d_leaving :: "leaving option"
  d_umounted :: bool
  d_exit :: "int option"

datatype event = Received string | Closed | Interrupted | Broken

definition status_char :: "char \<Rightarrow> bool" where
  "status_char ch = (let n = (of_char ch :: nat) in
     (48 \<le> n \<and> n \<le> 57) \<or> (97 \<le> n \<and> n \<le> 122) \<or> (65 \<le> n \<and> n \<le> 90) \<or> ch = CHR ''_'' \<or> ch = newline)"

text \<open>Without a pid file the daemon writes to /dev/null, which stays empty.\<close>

definition store_status :: "ruri_container \<Rightarrow> string \<Rightarrow> daemon \<Rightarrow> daemon" where
  "store_status c s d = (if pid_file c = None then d else d\<lparr>d_file := s\<rparr>)"

text \<open>The lock is released first; then comes the unmounting, if it is wanted there, then the
  exit.\<close>

definition leave_loop :: "leaving \<Rightarrow> daemon \<Rightarrow> daemon" where
  "leave_loop l d = d\<lparr>d_locked := False, d_leaving := Some l\<rparr>"

fun unmounts :: "ruri_container \<Rightarrow> leaving \<Rightarrow> bool" where
  "unmounts c Panicked = (auto_umount c \<or> auto_umount_on_panic c)"
| "unmounts c Timed_out = False"
| "unmounts c Hung_up = auto_umount c"
| "unmounts c Failed = auto_umount c"

fun leaving_code :: "leaving \<Rightarrow> int" where
  "leaving_code Hung_up = 0"
| "leaving_code l = 1"

inductive daemon_wind_up :: "ruri_container \<Rightarrow> daemon \<Rightarrow> daemon \<Rightarrow> bool" for c where
  unmount: "d_leaving d = Some l \<Longrightarrow> d_exit d = None \<Longrightarrow> unmounts c l \<Longrightarrow> \<not> d_umounted d \<Longrightarrow>
    daemon_wind_up c d (d\<lparr>d_umounted := True\<rparr>)"
| exit: "d_leaving d = Some l \<Longrightarrow> d_exit d = None \<Longrightarrow> d_umounted d = unmounts c l \<Longrightarrow>
    daemon_wind_up c d (d\<lparr>d_exit := Some (leaving_code l)\<rparr>)"

inductive_cases daemon_wind_upE: "daemon_wind_up c d d'"

definition is_final :: "string \<Rightarrow> bool" where
  "is_final s = (is_prefix ''RURI_EXIT'' s \<or> is_prefix ''RURI_SIGNALED'' s \<or> is_prefix ''RURI_PANIC'' s)"

definition complete_status :: "ruri_container \<Rightarrow> daemon \<Rightarrow> daemon" where
  "complete_status c d =
     (if is_final (take 255 (d_file d)) then d else store_status c (line_of ''RURI_EXIT_UNKNOWN'') d)"

text \<open>A message of the socket is at most 255 characters of the packet.\<close>

definition handle_message :: "ruri_container \<Rightarrow> string \<Rightarrow> daemon \<Rightarrow> daemon" where
  "handle_message c packet d =
     (let msg = take 255 packet in
      if \<not> list_all status_char msg then d
      else let d' = store_status c msg d in
        if is_prefix ''RURI_PANIC_'' msg then
          leave_loop (if is_prefix ''RURI_PANIC_TIMEOUT'' msg then Timed_out else Panicked) d'
        else d')"

definition runs :: "daemon \<Rightarrow> bool" where
  "runs d = (d_leaving d = None \<and> d_exit d = None)"

text \<open>A turn of the loop.  An empty packet reads as the end of the file.\<close>

inductive daemon_step :: "ruri_container \<Rightarrow> daemon \<Rightarrow> event \<Rightarrow> daemon \<Rightarrow> bool" for c where
  message: "runs d \<Longrightarrow> packet \<noteq> [] \<Longrightarrow> daemon_step c d (Received packet) (handle_message c packet d)"
| empty: "runs d \<Longrightarrow> daemon_step c d (Received []) (leave_loop Hung_up (complete_status c d))"
| closed: "runs d \<Longrightarrow> daemon_step c d Closed (leave_loop Hung_up (complete_status c d))"
| interrupted: "runs d \<Longrightarrow> daemon_step c d Interrupted d"
| broken: "runs d \<Longrightarrow> daemon_step c d Broken (leave_loop Failed (complete_status c d))"

inductive_simps daemon_step_simps: "daemon_step c d ev d'"
inductive_cases daemon_stepE: "daemon_step c d ev d'"

inductive daemon_run :: "ruri_container \<Rightarrow> daemon \<Rightarrow> event list \<Rightarrow> daemon \<Rightarrow> bool" for c where
  start: "daemon_run c d [] d"
| turn: "daemon_run c d evs d' \<Longrightarrow> daemon_step c d' ev d'' \<Longrightarrow> daemon_run c d (evs @ [ev]) d''"
| wind: "daemon_run c d evs d' \<Longrightarrow> daemon_wind_up c d' d'' \<Longrightarrow> daemon_run c d evs d''"

definition handle_event :: "ruri_container \<Rightarrow> event \<Rightarrow> daemon \<Rightarrow> daemon" where
  "handle_event c ev d =
     (case ev of
        Received packet \<Rightarrow> if packet = [] then leave_loop Hung_up (complete_status c d)
          else handle_message c packet d
      | Closed \<Rightarrow> leave_loop Hung_up (complete_status c d)
      | Interrupted \<Rightarrow> d
      | Broken \<Rightarrow> leave_loop Failed (complete_status c d))"

definition wound_up :: "ruri_container \<Rightarrow> daemon \<Rightarrow> daemon" where
  "wound_up c d =
     (case d_leaving d of None \<Rightarrow> d
      | Some l \<Rightarrow> d\<lparr>d_umounted := unmounts c l, d_exit := Some (leaving_code l)\<rparr>)"

fun daemon_loop :: "ruri_container \<Rightarrow> event list \<Rightarrow> daemon \<Rightarrow> daemon" where
  "daemon_loop c [] d = wound_up c d"
| "daemon_loop c (ev # evs) d = (if \<not> runs d then wound_up c d else daemon_loop c evs (handle_event c ev d))"

text \<open>The part of ruri_setup_pid_file_daemon before the loop: a pid file that does not
  open, or that another daemon has locked, ends the daemon.  The file is truncated before the
  lock is tried, so the status another daemon keeps there is lost in the second case.\<close>

definition daemon_start :: "ruri_container \<Rightarrow> bool \<Rightarrow> bool \<Rightarrow> string \<Rightarrow> int \<Rightarrow> daemon" where
  "daemon_start c opened locks old now =
     (let d = \<lparr>d_file = (if pid_file c \<noteq> None \<and> \<not> opened then old else []), d_locked = False,
        d_leaving = None, d_umounted = False, d_exit = None\<rparr> in
      if \<not> opened \<or> (pid_file c \<noteq> None \<and> \<not> locks) then d\<lparr>d_exit := Some 1\<rparr>
      else store_status c (line_of (''RURI_INIT_'' @ show_int now)) (d\<lparr>d_locked := pid_file c \<noteq> None\<rparr>))"

section \<open>The timeout watchdog\<close>

text \<open>The loop of ruri_setup_timeout_watchdog on its observations: is the process still
  there, and the clock in nanoseconds.  The timeout of the container is in nanoseconds.\<close>

definition sigusr1 :: int where "sigusr1 = 10"

definition watchdog_kill :: "ruri_container \<Rightarrow> int \<Rightarrow> sys_call list" where
  "watchdog_kill c pid =
     (if fork_as_init c then [Kill pid sigusr1, Kill pid sigkill] else [Kill pid sigkill])"

definition watchdog_timeout :: "host \<Rightarrow> ruri_container \<Rightarrow> int \<Rightarrow> unit prog" where
  "watchdog_timeout h c pid =
     seq (ruri_pid_file_write h Req_panic_timeout 0)
      (\<lambda>_. seq (run_all (h_world h) (watchdog_kill c pid))
        (\<lambda>_. seq (if auto_umount_on_panic c then ruri_umount_container (h_world h) (h_info h) (container_dir c)
                  else ret ())
          (\<lambda>_. die (Exited ''1''))))"

fun watchdog_loop :: "host \<Rightarrow> ruri_container \<Rightarrow> int \<Rightarrow> int \<Rightarrow> (bool \<times> int) list \<Rightarrow> unit prog" where
  "watchdog_loop h c pid start [] = ret ()"
| "watchdog_loop h c pid start ((alive, now) # obs) =
     (if \<not> alive then die (Exited ''0'')
      else if now - start \<ge> timeout c then watchdog_timeout h c pid
      else watchdog_loop h c pid start obs)"

text \<open>The watchdog kills only a living process whose time is up.\<close>

lemma watchdog_kills_late:
  "watchdog_loop h c pid start obs tr = (r, tr @ Kill p s # cs) \<Longrightarrow> \<exists>now. (True, now) \<in> set obs \<and> timeout c \<le> now - start"
proof (induction h c pid start obs rule: watchdog_loop.induct)
  case (2 h c pid start alive now obs)
  then show ?case by (auto split: if_splits)
qed simp

section \<open>The init process of a container\<close>

text \<open>Wait statuses, as the macros of sys/wait.h read them.\<close>

definition wifexited :: "int \<Rightarrow> bool" where "wifexited st = (st mod 128 = 0)"
definition wexitstatus :: "int \<Rightarrow> int" where "wexitstatus st = (st div 256) mod 256"
definition wifsignaled :: "int \<Rightarrow> bool" where "wifsignaled st = (st mod 128 \<noteq> 0 \<and> st mod 128 \<noteq> 127)"
definition wtermsig :: "int \<Rightarrow> int" where "wtermsig st = st mod 128"

fun init_exit_code :: "int \<Rightarrow> int list \<Rightarrow> int" where
  "init_exit_code code [] = code"
| "init_exit_code code (st # sts) =
     init_exit_code (if wifexited st then wexitstatus st
       else if wifsignaled st then 128 + wtermsig st else code) sts"

text \<open>The child goes on with the command; the parent waits until waitpid fails.\<close>

definition ruri_fork_as_init :: "host \<Rightarrow> unit prog" where
  "ruri_fork_as_init h =
     seq (call (h_world h) Fork)
      (\<lambda>pid. if pid < 0 then die (Fatal ''Failed to fork for init process QwQ'')
        else if pid = 0 then ret ()
        else seq (run (h_world h) Close_fds)
          (\<lambda>_. seq (ask (h_statuses h)) (\<lambda>sts. die (Exited (show_int (init_exit_code 0 sts))))))"

section \<open>Reading the pid file\<close>

datatype stat_report = Not_specified | Open_failed | Read_failed | Invalid_init_time
  | Init_timed_out int | Initializing int | Panic_exec_failed | Panic_internal | Panic_timeout | Panic_unknown
  | Invalid_exit_code | Exited_with int | Invalid_signal | Killed_by int | Exited_unknown | Invalid_pid
  | Running int | Not_running int

text \<open>A number that ends the line: strtoll and the test of *endptr.\<close>

definition number_line :: "string \<Rightarrow> int option" where
  "number_line s = (if strtol_end s \<noteq> [] \<and> strtol_end s \<noteq> s \<and> hd (strtol_end s) = newline then Some (strtol s) else None)"

definition read_pid :: "(int \<Rightarrow> bool) \<Rightarrow> string \<Rightarrow> stat_report" where
  "read_pid there buf =
     (case number_line buf of None \<Rightarrow> Invalid_pid
      | Some p \<Rightarrow> if p \<le> 0 then Invalid_pid else if there p then Running p else Not_running p)"

definition read_status :: "int \<Rightarrow> (int \<Rightarrow> bool) \<Rightarrow> string \<Rightarrow> stat_report" where
  "read_status now there buf =
     (if is_prefix ''RURI_INIT_'' buf then
        (case number_line (drop 10 buf) of None \<Rightarrow> Invalid_init_time
         | Some t \<Rightarrow> if t \<le> 0 then Invalid_init_time
            else if now - t > 3000000000 then Init_timed_out (now - t) else Initializing (now - t))
      else if is_prefix ''RURI_PANIC_'' buf then
        (if is_prefix ''EXEC'' (drop 11 buf) then Panic_exec_failed
         else if is_prefix ''INTERNAL'' (drop 11 buf) then Panic_internal
         else if is_prefix ''TIMEOUT'' (drop 11 buf) then Panic_timeout else Panic_unknown)
      else if is_prefix ''RURI_EXITED_'' buf then
        (case number_line (drop 12 buf) of None \<Rightarrow> Invalid_exit_code | Some n \<Rightarrow> Exited_with n)
      else if is_prefix ''RURI_SIGNALED_'' buf then
        (case number_line (drop 14 buf) of None \<Rightarrow> Invalid_signal | Some n \<Rightarrow> Killed_by n)
      else if is_prefix ''RURI_EXIT_UNKNOWN'' buf then Exited_unknown
      else read_pid there buf)"

text \<open>The text is what read(2) puts in the buffer, up to the first NUL.\<close>

definition stat_text :: "string \<Rightarrow> string" where "stat_text s = takeWhile (\<lambda>ch. ch \<noteq> nul) (take 255 s)"

definition ruri_stat :: "world \<Rightarrow> int \<Rightarrow> string option \<Rightarrow> sys_call list \<Rightarrow> stat_report" where
  "ruri_stat w now pidfile tr =
     (case pidfile of None \<Rightarrow> Not_specified
      | Some p \<Rightarrow> (case w_text w tr p of None \<Rightarrow> Open_failed
        | Some s \<Rightarrow> if s = [] then Read_failed
            else read_status now (\<lambda>n. w_access w tr (''/proc/'' @ show_int n @ ''/stat'')) (stat_text s)))"

fun stat_exit_code :: "stat_report \<Rightarrow> int" where
  "stat_exit_code (Initializing t) = 0"
| "stat_exit_code (Running p) = 0"
| "stat_exit_code r = 114"

section \<open>Lemmas\<close>

subsection \<open>The daemon\<close>

lemma daemon_step_iff: "daemon_step c d ev d' \<longleftrightarrow> runs d \<and> d' = handle_event c ev d"
  by (auto simp: daemon_step_simps handle_event_def split: event.splits)

lemma daemon_fields [simp]:
  "d_exit (store_status c s d) = d_exit d" "d_locked (store_status c s d) = d_locked d"
  "d_umounted (store_status c s d) = d_umounted d" "d_leaving (store_status c s d) = d_leaving d"
  "d_exit (complete_status c d) = d_exit d" "d_locked (complete_status c d) = d_locked d"
  "d_umounted (complete_status c d) = d_umounted d" "d_leaving (complete_status c d) = d_leaving d"
  "d_file (leave_loop l d) = d_file d" "d_exit (leave_loop l d) = d_exit d"
  "d_locked (leave_loop l d) = False" "d_umounted (leave_loop l d) = d_umounted d"
  "d_leaving (leave_loop l d) = Some l"
  by (simp_all add: store_status_def complete_status_def leave_loop_def)

lemma store_status_file: "d_file (store_status c s d) = (if pid_file c = None then d_file d else s)"
  by (simp add: store_status_def)

text \<open>The texts the daemon keeps.\<close>

definition status_text :: "string \<Rightarrow> bool" where
  "status_text s = (list_all status_char s \<and> length s \<le> 255)"

text \<open>The invariant.  What is in the file is a status text.  The lock of a pid file is held
  exactly while the loop goes on.  The container is unmounted, and the daemon has ended, only after
  the loop was left: on every way out but a timeout with --auto-umount, on a panic also with
  --umount-on-panic; a daemon that ended has done all of it, and its exit code is 0 only
  when the socket was closed.  A daemon that left its loop left a final status, the panic message
  if there was one.\<close>

definition daemon_ok :: "ruri_container \<Rightarrow> daemon \<Rightarrow> bool" where
  "daemon_ok c d =
     (status_text (d_file d) \<and> d_locked d = (pid_file c \<noteq> None \<and> d_leaving d = None)
      \<and> (let wanted = (auto_umount c \<and> d_leaving d \<in> {Some Panicked, Some Hung_up, Some Failed}
              \<or> auto_umount_on_panic c \<and> d_leaving d = Some Panicked) in
         (d_umounted d \<longrightarrow> wanted) \<and> (d_exit d \<noteq> None \<longrightarrow> d_leaving d \<noteq> None \<and> d_umounted d = wanted))
      \<and> (\<forall>n. d_exit d = Some n \<longrightarrow> n = (if d_leaving d = Some Hung_up then 0 else 1))
      \<and> (d_leaving d \<noteq> None \<and> pid_file c \<noteq> None \<longrightarrow> is_final (d_file d)
         \<and> (d_leaving d = Some Timed_out \<longrightarrow> is_prefix ''RURI_PANIC_TIMEOUT'' (d_file d))
         \<and> (d_leaving d = Some Panicked \<longrightarrow> is_prefix ''RURI_PANIC_'' (d_file d)
              \<and> \<not> is_prefix ''RURI_PANIC_TIMEOUT'' (d_file d))))"

lemma is_prefix_trans: "is_prefix p q \<Longrightarrow> is_prefix q s \<Longrightarrow> is_prefix p s"
  by (auto simp: is_prefix_iff)

lemma panic_final: "is_prefix ''RURI_PANIC_'' s \<Longrightarrow> is_final s"
  using is_prefix_trans[of "''RURI_PANIC''" "''RURI_PANIC_''" s] by (simp add: is_final_def)

lemma unknown_status: "status_text (line_of ''RURI_EXIT_UNKNOWN'')" "is_final (line_of ''RURI_EXIT_UNKNOWN'')"
  by code_simp+

lemma message_ok: "daemon_ok c d \<Longrightarrow> runs d \<Longrightarrow> daemon_ok c (handle_message c packet d)"
  by (auto simp: daemon_ok_def handle_message_def store_status_file status_text_def panic_final runs_def Let_def)

lemma completed_ok:
  "daemon_ok c d \<Longrightarrow> runs d \<Longrightarrow> l \<in> {Hung_up, Failed} \<Longrightarrow> daemon_ok c (leave_loop l (complete_status c d))"
  using unknown_status by (auto simp: daemon_ok_def complete_status_def store_status_file status_text_def runs_def Let_def)

lemma event_ok: "daemon_ok c d \<Longrightarrow> runs d \<Longrightarrow> daemon_ok c (handle_event c ev d)"
  by (auto simp: handle_event_def message_ok completed_ok split: event.split)

lemma wind_up_ok: "daemon_wind_up c d d' \<Longrightarrow> daemon_ok c d \<Longrightarrow> daemon_ok c d'"
  by (elim daemon_wind_upE; rename_tac l; case_tac l) (auto simp: daemon_ok_def Let_def)

lemma show_nat_status: "list_all status_char (show_nat n)"
  using show_nat_digits[of _ n] by (auto simp: list_all_iff status_char_def is_digit_def Let_def)

lemma start_ok:
  assumes "0 \<le> now" "now < 2 ^ 63"
  shows "daemon_ok c (daemon_start c True True old now)" "runs (daemon_start c True True old now)"
proof -
  have "length (show_int now) \<le> 20" using assms show_nat_length[of "nat now" 20] by (simp add: show_int_def)
  moreover have "list_all status_char (line_of (''RURI_INIT_'' @ show_int now))"
    using assms show_nat_status[of "nat now"] by (simp add: line_of_def show_int_def status_char_def)
  ultimately have "status_text (line_of (''RURI_INIT_'' @ show_int now))"
    by (simp add: status_text_def line_of_def)
  then show "daemon_ok c (daemon_start c True True old now)" "runs (daemon_start c True True old now)"
    by (auto simp: daemon_ok_def daemon_start_def Let_def store_status_file status_text_def runs_def)
qed

lemma run_ok: "daemon_run c d evs d' \<Longrightarrow> daemon_ok c d \<Longrightarrow> daemon_ok c d'"
  by (induction rule: daemon_run.induct) (auto elim!: daemon_stepE intro: message_ok completed_ok wind_up_ok)

lemma ended_final: "daemon_ok c d \<Longrightarrow> d_exit d \<noteq> None \<Longrightarrow> pid_file c \<noteq> None \<Longrightarrow> is_final (d_file d)"
  unfolding daemon_ok_def Let_def by blast

text \<open>The loop is a run of steps that stops at the exit.\<close>

lemma run_front: "daemon_run c d2 evs d' \<Longrightarrow> daemon_step c d ev d2 \<Longrightarrow> daemon_run c d (ev # evs) d'"
proof (induction rule: daemon_run.induct)
  case (start d2)
  then show ?case using daemon_run.turn[OF daemon_run.start] by fastforce
next
  case (turn d2 evs d' ev' d'')
  then show ?case using daemon_run.turn[of c d "ev # evs" d' ev' d''] by simp
next
  case (wind d2 evs d' d'')
  then show ?case using daemon_run.wind by blast
qed

lemma wound_up_runs:
  assumes "d_exit d = None" "\<not> d_umounted d"
  shows "daemon_run c d [] (wound_up c d)"
proof (cases "d_leaving d")
  case None
  then show ?thesis by (simp add: wound_up_def daemon_run.start)
next
  case (Some l)
  let ?d = "d\<lparr>d_umounted := unmounts c l\<rparr>"
  have "daemon_run c d [] ?d"
  proof (cases "unmounts c l")
    case True
    then show ?thesis using daemon_run.wind[OF daemon_run.start] daemon_wind_up.unmount[of d l c] Some assms by simp
  next
    case False
    then have "?d = d" using assms by simp
    then show ?thesis by (simp add: daemon_run.start)
  qed
  moreover have "daemon_wind_up c ?d (?d\<lparr>d_exit := Some (leaving_code l)\<rparr>)"
    using Some assms by (intro daemon_wind_up.exit) simp_all
  ultimately show ?thesis using daemon_run.wind Some by (fastforce simp: wound_up_def)
qed

lemma handle_event_alive:
  "d_exit (handle_event c ev d) = d_exit d" "d_umounted (handle_event c ev d) = d_umounted d"
  by (simp_all add: handle_event_def handle_message_def Let_def split: event.split)

lemma loop_runs:
  "d_exit d = None \<Longrightarrow> \<not> d_umounted d \<Longrightarrow> \<exists>n. daemon_run c d (take n evs) (daemon_loop c evs d)"
proof (induction evs arbitrary: d)
  case Nil
  then show ?case by (simp add: wound_up_runs)
next
  case (Cons ev evs)
  show ?case
  proof (cases "runs d")
    case True
    obtain n where "daemon_run c (handle_event c ev d) (take n evs) (daemon_loop c evs (handle_event c ev d))"
      using Cons handle_event_alive[of c ev d] by metis
    then have "daemon_run c d (take (Suc n) (ev # evs)) (daemon_loop c (ev # evs) d)"
      using True run_front[of c "handle_event c ev d"] by (simp add: daemon_step_iff)
    then show ?thesis by blast
  next
    case False
    then have "daemon_run c d (take 0 (ev # evs)) (daemon_loop c (ev # evs) d)"
      using Cons.prems by (simp add: wound_up_runs)
    then show ?thesis by blast
  qed
qed

lemma closed_leaves: "ev \<in> {Closed, Broken, Received []} \<Longrightarrow> d_leaving (handle_event c ev d) \<noteq> None"
  by (auto simp: handle_event_def)

lemma loop_exits:
  "ev \<in> set evs \<Longrightarrow> ev \<in> {Closed, Broken, Received []} \<Longrightarrow> d_exit d = None \<Longrightarrow> d_exit (daemon_loop c evs d) \<noteq> None"
proof (induction evs arbitrary: d)
  case (Cons e evs)
  have left: "d_exit (daemon_loop c evs' d') \<noteq> None" if "d_leaving d' \<noteq> None" for d' evs'
    using that by (cases evs') (auto simp: wound_up_def runs_def)
  show ?case
  proof (cases "runs d")
    case True
    then show ?thesis using Cons closed_leaves[of e c d] left handle_event_alive(1)[of c e d] by auto
  next
    case False
    then show ?thesis using Cons.prems(3) left[of d "e # evs"] by (simp add: runs_def)
  qed
qed simp


text \<open>C38: Once the socket is closed or broken, the daemon has ended after finitely many
  turns, and the pid file tells how the container ended.\<close>

theorem closed_socket_ends_daemon:
  assumes "ev \<in> set evs" "ev \<in> {Closed, Broken, Received []}" "0 \<le> now" "now < 2 ^ 63"
  shows "\<exists>n d. daemon_run c (daemon_start c True True old now) (take n evs) d \<and> d_exit d \<noteq> None
    \<and> (pid_file c \<noteq> None \<longrightarrow> is_final (d_file d))"
proof -
  let ?s = "daemon_start c True True old now"
  let ?d = "daemon_loop c evs ?s"
  have s: "d_exit ?s = None" "\<not> d_umounted ?s" by (simp_all add: daemon_start_def Let_def)
  obtain n where r: "daemon_run c ?s (take n evs) ?d" using loop_runs[OF s] by blast
  have e: "d_exit ?d \<noteq> None" using loop_exits[OF assms(1,2) s(1)] .
  have "daemon_ok c ?d" using run_ok[OF r] start_ok[OF assms(3,4)] by blast
  then show ?thesis using r e ended_final by blast
qed

subsection \<open>Reading back\<close>

lemma number_line_show: "0 \<le> n \<Longrightarrow> n < 2 ^ 63 \<Longrightarrow> number_line (line_of (show_int n)) = Some n"
  using number_then[of "[newline]" "nat n"] is_digit_not[of newline]
  by (auto simp: number_line_def line_of_def show_int_def strtol_def)

lemma status_chars_plain: "list_all status_char s \<Longrightarrow> nul \<notin> set s"
  by (auto simp: list_all_iff status_char_def Let_def)

lemma stat_text_status: "status_text s \<Longrightarrow> stat_text s = s"
  by (auto simp: status_text_def stat_text_def takeWhile_eq_all_conv dest!: status_chars_plain)

text \<open>What the reader should report for a message.\<close>

fun reported :: "(int \<Rightarrow> bool) \<Rightarrow> pid_req \<Rightarrow> int \<Rightarrow> stat_report" where
  "reported there Req_pid p = (if there p then Running p else Not_running p)"
| "reported there Req_panic_exec n = Panic_unknown"
| "reported there Req_panic_internal n = Panic_internal"
| "reported there Req_panic_timeout n = Panic_timeout"
| "reported there Req_exited n = Exited_with n"
| "reported there Req_signaled n = Killed_by n"
| "reported there Req_unknown n = Exited_unknown"
| "reported there Req_init n = Invalid_pid"

fun_cases pid_messageE: "pid_message req arg = Some m"

lemma message_status:
  assumes "pid_message req arg = Some m" "0 \<le> arg" "arg < 2 ^ 63"
  shows "status_text m \<and> m \<noteq> []"
proof -
  have "length (show_nat (nat arg)) \<le> 20" using assms show_nat_length[of "nat arg" 20] by simp
  then show ?thesis
    using assms show_nat_status[of "nat arg"]
    by (elim pid_messageE) (auto simp: status_text_def line_of_def show_int_def status_char_def)
qed

lemma read_status_number: "ch \<noteq> CHR ''R'' \<Longrightarrow> read_status now there (ch # cs) = read_pid there (ch # cs)"
  by (simp add: read_status_def)

lemma read_status_message:
  assumes "pid_message req arg = Some m" "0 \<le> arg" "arg < 2 ^ 63" "req = Req_pid \<longrightarrow> 0 < arg"
  shows "read_status now there m = reported there req arg"
proof (cases "req = Req_pid")
  case True
  obtain ch cs where s: "show_int arg = ch # cs" and d: "is_digit ch"
    using assms(2) show_nat_digits[of _ "nat arg"]
    by (cases "show_nat (nat arg)") (auto simp: show_int_def)
  have "ch \<noteq> CHR ''R''" using d by (auto simp: is_digit_def)
  then have "read_status now there (ch # cs @ [newline]) = read_pid there (ch # cs @ [newline])"
    by (rule read_status_number)
  moreover have "m = ch # cs @ [newline]" using assms(1) True s by (simp add: line_of_def)
  ultimately have "read_status now there m = read_pid there (line_of (show_int arg))"
    using s by (simp add: line_of_def)
  then show ?thesis using True assms number_line_show[of arg] by (simp add: read_pid_def)
next
  case False
  have n: "number_line (line_of (show_int arg)) = Some arg" using number_line_show assms by blast
  have "m = the (pid_message req arg)" "req \<noteq> Req_init" using assms(1) by auto
  then show ?thesis using False by (cases req) (simp_all add: read_status_def line_of_def n[unfolded line_of_def])
qed

text \<open>C39: What a process reports to the daemon is what the status command tells
  afterwards: the process id, the exit code, the signal, the reason of a panic; only the
  failure to execute the command is told as an unknown reason.\<close>

theorem stat_reads_back:
  assumes "pid_message req arg = Some m" "0 \<le> arg" "arg < 2 ^ 63" "req = Req_pid \<longrightarrow> 0 < arg"
    and "pid_file c = Some f" "w_text w tr f = Some (d_file (handle_event c (Received m) d))"
  shows "ruri_stat w now (Some f) tr =
    reported (\<lambda>n. w_access w tr (''/proc/'' @ show_int n @ ''/stat'')) req arg"
proof -
  have m: "status_text m" "m \<noteq> []" using message_status assms(1-3) by blast+
  then have "d_file (handle_event c (Received m) d) = m"
    using assms(5) by (auto simp: handle_event_def handle_message_def status_text_def store_status_file Let_def)
  then show ?thesis using assms(6) m read_status_message[OF assms(1-4)]
    by (simp add: ruri_stat_def stat_text_status)
qed

section \<open>Witnesses\<close>

definition daemon_container :: ruri_container where
  "daemon_container = sample_container\<lparr>pid_file := Some ''/run/c.pid'', auto_umount := True\<rparr>"

definition exited_message :: string where "exited_message = line_of (''RURI_EXITED_'' @ show_int 3)"



lemma closed_socket_ends_daemon_witness:
  "\<exists>n d. daemon_run daemon_container (daemon_start daemon_container True True [] 5)
       (take n [Received exited_message, Closed]) d \<and> d_exit d \<noteq> None \<and> is_final (d_file d)"
  using closed_socket_ends_daemon[of Closed "[Received exited_message, Closed]" 5 daemon_container]
  by (auto simp: daemon_container_def)

lemma stat_reads_back_witness:
  "ruri_stat (sample_disk\<lparr>w_text := \<lambda>_ _. Some exited_message\<rparr>) 0 (Some ''/run/c.pid'') [] = Exited_with 3"
proof -
  have "d_file (handle_event daemon_container (Received exited_message) (daemon_start daemon_container True True [] 5))
      = exited_message"
    by code_simp
  then show ?thesis
    using stat_reads_back[of Req_exited 3 exited_message daemon_container "''/run/c.pid''"
        "sample_disk\<lparr>w_text := \<lambda>_ _. Some exited_message\<rparr>" "[]"
        "daemon_start daemon_container True True [] 5" 0]
    by (simp add: exited_message_def daemon_container_def)
qed

end
