(* ===== verification/Seccomp.thy ===== *)
theory Seccomp
  imports Rurienv Mounting
begin

text \<open>
  seccomp.c, compiled with libcap and libseccomp: the rules ruri hands to libseccomp, in
  their order.  libseccomp is not modelled: adding a rule and loading the filter are calls
  whose results the world gives, and so is which names seccomp_syscall_resolve_name knows.
  The lists are those of the two profiles; constants of the kernel headers (socket
  families, clone flags, errno numbers) are written as numbers.
\<close>

section \<open>Rules\<close>

type_synonym sec_rule = "sec_action \<times> string \<times> arg_cmp list"

definition allow :: "string \<Rightarrow> sec_rule" where "allow name = (Sec_allow, name, [])"

text \<open>ruri_is_in_caplist on the drop list of the container.\<close>

definition dropped :: "ruri_container \<Rightarrow> int \<Rightarrow> bool" where
  "dropped c n = (ruri_is_in_caplist (drop_caplist c) n = Some True)"

definition is_s390 :: "sec_arch \<Rightarrow> bool" where "is_s390 a = (a = Arch_s390 \<or> a = Arch_s390x)"

definition cap_dac_read_search :: int where "cap_dac_read_search = 2"
definition cap_net_raw :: int where "cap_net_raw = 13"
definition cap_sys_module :: int where "cap_sys_module = 16"
definition cap_sys_rawio :: int where "cap_sys_rawio = 17"
definition cap_sys_chroot :: int where "cap_sys_chroot = 18"
definition cap_sys_ptrace :: int where "cap_sys_ptrace = 19"
definition cap_sys_pacct :: int where "cap_sys_pacct = 20"
definition cap_sys_admin :: int where "cap_sys_admin = 21"
definition cap_sys_boot :: int where "cap_sys_boot = 22"
definition cap_sys_nice :: int where "cap_sys_nice = 23"
definition cap_sys_time :: int where "cap_sys_time = 25"
definition cap_sys_tty_config :: int where "cap_sys_tty_config = 26"
definition cap_audit_write :: int where "cap_audit_write = 29"
definition cap_syslog :: int where "cap_syslog = 34"
definition cap_perfmon :: int where "cap_perfmon = 38"
definition cap_bpf :: int where "cap_bpf = 39"

section \<open>The whitelist\<close>

definition whitelist_names_a :: "string list" where
  "whitelist_names_a =
    [
      ''accept'', ''accept4'', ''access'', ''adjtimex'', ''alarm'', ''bind'', ''brk'', ''cachestat'',
      ''capget'', ''capset'', ''chdir'', ''chmod'', ''chown'', ''chown32'', ''clock_adjtime'',
      ''clock_adjtime64'', ''clock_getres'', ''clock_getres_time64'', ''clock_gettime'',
      ''clock_gettime64'', ''clock_nanosleep'', ''clock_nanosleep_time64'', ''close'', ''close_range'',
      ''connect'', ''copy_file_range'', ''creat'', ''dup'', ''dup2'', ''dup3'', ''epoll_create'',
      ''epoll_create1'', ''epoll_ctl'', ''epoll_ctl_old'', ''epoll_pwait'', ''epoll_pwait2'',
      ''epoll_wait'', ''epoll_wait_old'', ''eventfd'', ''eventfd2'', ''execve'', ''execveat'',
      ''exit'', ''exit_group'', ''faccessat'', ''faccessat2'', ''fadvise64'', ''fadvise64_64'',
      ''fallocate'', ''fanotify_mark'', ''fchdir'', ''fchmod'', ''fchmodat'', ''fchmodat2'',
      ''fchown'', ''fchown32'', ''fchownat'', ''fcntl'', ''fcntl64'', ''fdatasync'', ''fgetxattr'',
      ''flistxattr'', ''flock'', ''fork'', ''fremovexattr'', ''fsetxattr'', ''fstat'', ''fstat64'',
      ''fstatat64'', ''fstatfs'', ''fstatfs64'', ''fsync'', ''ftruncate'', ''ftruncate64'']"

definition whitelist_names_b :: "string list" where
  "whitelist_names_b =
    [
      ''futex'', ''futex_requeue'', ''futex_time64'', ''futex_wait'', ''futex_waitv'', ''futex_wake'',
      ''futimesat'', ''getcpu'', ''getcwd'', ''getdents'', ''getdents64'', ''getegid'', ''getegid32'',
      ''geteuid'', ''geteuid32'', ''getgid'', ''getgid32'', ''getgroups'', ''getgroups32'',
      ''getitimer'', ''getpeername'', ''getpgid'', ''getpgrp'', ''getpid'', ''getppid'',
      ''getpriority'', ''getrandom'', ''getresgid'', ''getresgid32'', ''getresuid'', ''getresuid32'',
      ''getrlimit'', ''get_robust_list'', ''getrusage'', ''getsid'', ''getsockname'', ''getsockopt'',
      ''get_thread_area'', ''gettid'', ''gettimeofday'', ''getuid'', ''getuid32'', ''getxattr'',
      ''getxattrat'', ''inotify_add_watch'', ''inotify_init'', ''inotify_init1'', ''inotify_rm_watch'',
      ''io_cancel'', ''ioctl'', ''io_destroy'', ''io_getevents'', ''io_pgetevents'',
      ''io_pgetevents_time64'', ''ioprio_get'', ''ioprio_set'', ''io_setup'', ''io_submit'', ''ipc'',
      ''kill'', ''landlock_add_rule'', ''landlock_create_ruleset'', ''landlock_restrict_self'',
      ''lchown'', ''lchown32'', ''lgetxattr'', ''link'', ''linkat'', ''listen'', ''listmount'',
      ''listxattr'', ''listxattrat'', ''llistxattr'', ''_llseek'']"

definition whitelist_names_c :: "string list" where
  "whitelist_names_c =
    [
      ''lremovexattr'', ''lseek'', ''lsetxattr'', ''lstat'', ''lstat64'', ''madvise'',
      ''map_shadow_stack'', ''membarrier'', ''memfd_create'', ''memfd_secret'', ''mincore'', ''mkdir'',
      ''mkdirat'', ''mknod'', ''mknodat'', ''mlock'', ''mlock2'', ''mlockall'', ''mmap'', ''mmap2'',
      ''mprotect'', ''mq_getsetattr'', ''mq_notify'', ''mq_open'', ''mq_timedreceive'',
      ''mq_timedreceive_time64'', ''mq_timedsend'', ''mq_timedsend_time64'', ''mq_unlink'', ''mremap'',
      ''mseal'', ''msgctl'', ''msgget'', ''msgrcv'', ''msgsnd'', ''msync'', ''munlock'',
      ''munlockall'', ''munmap'', ''name_to_handle_at'', ''nanosleep'', ''newfstatat'', ''_newselect'',
      ''open'', ''openat'', ''openat2'', ''pause'', ''pidfd_open'', ''pidfd_send_signal'', ''pipe'',
      ''pipe2'', ''pkey_alloc'', ''pkey_free'', ''pkey_mprotect'', ''poll'', ''ppoll'',
      ''ppoll_time64'', ''prctl'', ''pread64'', ''preadv'', ''preadv2'', ''prlimit64'',
      ''process_mrelease'', ''pselect6'', ''pselect6_time64'', ''pwrite64'', ''pwritev'', ''pwritev2'',
      ''read'', ''readahead'', ''readlink'', ''readlinkat'', ''readv'', ''recv'']"

definition whitelist_names_d :: "string list" where
  "whitelist_names_d =
    [
      ''recvfrom'', ''recvmmsg'', ''recvmmsg_time64'', ''recvmsg'', ''remap_file_pages'',
      ''removexattr'', ''removexattrat'', ''rename'', ''renameat'', ''renameat2'', ''restart_syscall'',
      ''riscv_hwprobe'', ''rmdir'', ''rseq'', ''rt_sigaction'', ''rt_sigpending'', ''rt_sigprocmask'',
      ''rt_sigqueueinfo'', ''rt_sigreturn'', ''rt_sigsuspend'', ''rt_sigtimedwait'',
      ''rt_sigtimedwait_time64'', ''rt_tgsigqueueinfo'', ''sched_getaffinity'', ''sched_getattr'',
      ''sched_getparam'', ''sched_get_priority_max'', ''sched_get_priority_min'',
      ''sched_getscheduler'', ''sched_rr_get_interval'', ''sched_rr_get_interval_time64'',
      ''sched_setaffinity'', ''sched_setattr'', ''sched_setparam'', ''sched_setscheduler'',
      ''sched_yield'', ''seccomp'', ''select'', ''semctl'', ''semget'', ''semop'', ''semtimedop'',
      ''semtimedop_time64'', ''send'', ''sendfile'', ''sendfile64'', ''sendmmsg'', ''sendmsg'',
      ''sendto'', ''setfsgid'', ''setfsgid32'', ''setfsuid'', ''setfsuid32'', ''setgid'', ''setgid32'',
      ''setgroups'', ''setgroups32'', ''setitimer'', ''setpgid'', ''setpriority'', ''setregid'',
      ''setregid32'', ''setresgid'', ''setresgid32'', ''setresuid'', ''setresuid32'', ''setreuid'',
      ''setreuid32'', ''setrlimit'', ''set_robust_list'', ''setsid'', ''setsockopt'',
      ''set_thread_area'', ''set_tid_address'']"

definition whitelist_names_e :: "string list" where
  "whitelist_names_e =
    [
      ''setuid'', ''setuid32'', ''setxattr'', ''setxattrat'', ''shmat'', ''shmctl'', ''shmdt'',
      ''shmget'', ''shutdown'', ''sigaltstack'', ''signalfd'', ''signalfd4'', ''sigprocmask'',
      ''sigreturn'', ''socketcall'', ''socketpair'', ''splice'', ''stat'', ''stat64'', ''statfs'',
      ''statfs64'', ''statmount'', ''statx'', ''symlink'', ''symlinkat'', ''sync'',
      ''sync_file_range'', ''syncfs'', ''sysinfo'', ''tee'', ''tgkill'', ''time'', ''timer_create'',
      ''timer_delete'', ''timer_getoverrun'', ''timer_gettime'', ''timer_gettime64'',
      ''timer_settime'', ''timer_settime64'', ''timerfd_create'', ''timerfd_gettime'',
      ''timerfd_gettime64'', ''timerfd_settime'', ''timerfd_settime64'', ''times'', ''tkill'',
      ''truncate'', ''truncate64'', ''ugetrlimit'', ''umask'', ''uname'', ''unlink'', ''unlinkat'',
      ''uretprobe'', ''utime'', ''utimensat'', ''utimensat_time64'', ''utimes'', ''vfork'',
      ''vmsplice'', ''wait4'', ''waitid'', ''waitpid'', ''write'', ''writev'']"

definition whitelist_base :: "sec_rule list" where
  "whitelist_base = map allow (whitelist_names_a @ whitelist_names_b @ whitelist_names_c
     @ whitelist_names_d @ whitelist_names_e)"

definition kernel_version_le :: "kernel_version \<Rightarrow> int \<Rightarrow> int \<Rightarrow> int \<Rightarrow> bool" where
  "kernel_version_le k major minor patch =
     (case k of Version k_major k_minor k_patch \<Rightarrow>
        if k_major < major then True
        else if k_major = major then
          (if k_minor < minor then True else if k_minor = minor then k_patch \<le> patch else False)
        else False)"

lemma kernel_version_le_iff: "kernel_version_le k a b c \<longleftrightarrow> k \<le> Version a b c"
  by (cases k) (auto simp: kernel_version_le_def less_eq_kernel_version_def)

definition whitelist_extra :: "kernel_version \<Rightarrow> sec_rule list" where
  "whitelist_extra kv =
     (if \<not> kernel_version_le kv 4 8 0
      then [(Sec_allow, ''ptrace'', []), (Sec_allow, ''process_vm_readv'', []),
        (Sec_allow, ''process_vm_writev'', [])] else [])
     @ [(Sec_allow, ''socket'', [Arg_lt 0 38]), (Sec_allow, ''socket'', [Arg_eq 0 39]),
        (Sec_allow, ''socket'', [Arg_gt 0 40]), (Sec_allow, ''personality'', [Arg_eq 0 0]),
        (Sec_allow, ''personality'', [Arg_eq 0 8]), (Sec_allow, ''personality'', [Arg_eq 0 131072]),
        (Sec_allow, ''personality'', [Arg_eq 0 131080]),
        (Sec_allow, ''personality'', [Arg_eq 0 4294967295])]"

text \<open>A newer kernel is never allowed less.\<close>

lemma whitelist_extra_mono:
  assumes "k \<le> k'"
  shows "set (whitelist_extra k) \<subseteq> set (whitelist_extra k')"
proof (cases "k \<le> Version 4 8 0")
  case True
  then show ?thesis by (simp add: whitelist_extra_def kernel_version_le_iff)
next
  case False
  then have "\<not> k' \<le> Version 4 8 0" using order_trans[OF assms] by blast
  then show ?thesis using False by (simp add: whitelist_extra_def kernel_version_le_iff)
qed

definition arch_rules :: "sec_arch \<Rightarrow> sec_rule list" where
  "arch_rules a =
     (if a = Arch_ppc64le then map allow [''sync_file_range2'', ''swapcontext''] else [])
     @ (if a = Arch_arm \<or> a = Arch_aarch64
        then map allow [''arm_fadvise64_64'', ''arm_sync_file_range'', ''sync_file_range2'', ''breakpoint'',
        ''cacheflush'', ''set_tls''] else [])
     @ (if a = Arch_x86_64 \<or> a = Arch_x32 then map allow [''arch_prctl''] else [])
     @ (if a = Arch_x86_64 \<or> a = Arch_x86 \<or> a = Arch_x32 then map allow [''modify_ldt''] else [])
     @ (if is_s390 a then map allow [''s390_pci_mmio_read'', ''s390_pci_mmio_write'', ''s390_runtime_instr''] else [])
     @ (if a = Arch_riscv64 then map allow [''riscv_flush_icache''] else [])"

definition allow_unless :: "ruri_container \<Rightarrow> int \<Rightarrow> string list \<Rightarrow> sec_rule list" where
  "allow_unless c capability names = (if dropped c capability then [] else map allow names)"

definition admin_names :: "string list" where
  "admin_names =
      [''bpf'', ''clone'', ''clone3'', ''fanotify_init'', ''fsconfig'', ''fsmount'', ''fsopen'',
        ''fspick'', ''lookup_dcookie'', ''lsm_get_self_attr'', ''lsm_list_modules'',
        ''lsm_set_self_attr'', ''mount'', ''mount_setattr'', ''move_mount'', ''open_tree'',
        ''perf_event_open'', ''quotactl'', ''quotactl_fd'', ''setdomainname'', ''sethostname'',
        ''setns'', ''syslog'', ''umount'', ''umount2'', ''unshare'']"

definition clone_namespaces :: int where "clone_namespaces = 2114060288"

definition clone_rules :: "sec_arch \<Rightarrow> ruri_container \<Rightarrow> sec_rule list" where
  "clone_rules a c =
     (if dropped c cap_sys_admin then
        [(Sec_allow, ''clone'', [Arg_masked_eq (if is_s390 a then 1 else 0) clone_namespaces 0]),
         (Sec_errno 38, ''clone3'', [])]
      else [])"

definition capability_rules :: "sec_arch \<Rightarrow> ruri_container \<Rightarrow> sec_rule list" where
  "capability_rules a c =
     allow_unless c cap_dac_read_search [''open_by_handle_at'']
     @ allow_unless c cap_sys_admin admin_names
     @ clone_rules a c
     @ allow_unless c cap_sys_boot
        [''reboot'']
     @ allow_unless c cap_sys_chroot
        [''chroot'']
     @ allow_unless c cap_sys_module
        [''init_module'', ''delete_module'', ''finit_module'']
     @ allow_unless c cap_sys_pacct
        [''acct'']
     @ allow_unless c cap_sys_ptrace
        [''kcmp'', ''pidfd_getfd'', ''process_madvise'', ''process_vm_readv'', ''process_vm_writev'',
        ''ptrace'']
     @ allow_unless c cap_sys_rawio
        [''ioperm'', ''iopl'']
     @ allow_unless c cap_sys_time
        [''settimeofday'', ''stime'', ''clock_settime'', ''clock_settime64'']
     @ allow_unless c cap_sys_tty_config
        [''vhangup'']
     @ allow_unless c cap_sys_nice
        [''get_mempolicy'', ''mbind'', ''set_mempolicy'', ''set_mempolicy_home_node'']
     @ allow_unless c cap_syslog
        [''syslog'']
     @ allow_unless c cap_bpf
        [''bpf'']
     @ allow_unless c cap_perfmon
        [''perf_event_open'']"

definition whitelist_rules :: "kernel_version \<Rightarrow> sec_arch \<Rightarrow> ruri_container \<Rightarrow> sec_rule list" where
  "whitelist_rules kv a c =
     whitelist_base @ whitelist_extra kv @ arch_rules a @ capability_rules a c"

section \<open>The blacklist\<close>

definition not_root_user :: "ruri_container \<Rightarrow> bool" where
  "not_root_user c = (case user c of None \<Rightarrow> False | Some u \<Rightarrow> u \<noteq> ''root'' \<and> u \<noteq> ''0'')"

definition ban_with :: "ruri_container \<Rightarrow> int \<Rightarrow> sec_rule list \<Rightarrow> sec_rule list" where
  "ban_with c capability rs = (if dropped c capability \<or> not_root_user c then rs else [])"

definition socket_bans :: "ruri_container \<Rightarrow> sec_rule list" where
  "socket_bans c =
     ban_with c cap_sys_pacct [(Sec_errno 1, ''acct'', [])]
     @ [(Sec_errno 97, ''socket'', [Arg_eq 0 38]), (Sec_errno 97, ''socket'', [Arg_eq 0 21]),
        (Sec_errno 97, ''socket'', [Arg_eq 0 33]),
        (Sec_errno 97, ''socket'', [Arg_eq 0 16, Arg_eq 2 6]),
        (Sec_errno 97, ''socket'', [Arg_eq 0 3]), (Sec_errno 97, ''socket'', [Arg_eq 0 4]),
        (Sec_errno 97, ''socket'', [Arg_eq 0 5]), (Sec_errno 97, ''socket'', [Arg_eq 0 9]),
        (Sec_errno 97, ''socket'', [Arg_eq 0 12]), (Sec_errno 97, ''socket'', [Arg_eq 0 24]),
        (Sec_errno 97, ''socket'', [Arg_eq 0 26]), (Sec_errno 97, ''socket'', [Arg_eq 0 27]),
        (Sec_errno 97, ''socket'', [Arg_eq 0 28]), (Sec_errno 97, ''socket'', [Arg_eq 0 29]),
        (Sec_errno 97, ''socket'', [Arg_eq 0 30]), (Sec_errno 97, ''socket'', [Arg_eq 0 31]),
        (Sec_errno 97, ''socket'', [Arg_eq 0 41]), (Sec_errno 97, ''socket'', [Arg_eq 0 15])]
     @ ban_with c cap_net_raw
        ([(Sec_errno 97, ''socket'', [Arg_eq 0 17])]
         @ (if \<not> systemd_mode c \<and> (dropped c cap_audit_write \<or> not_root_user c)
            then [(Sec_errno 1, ''socket'', [Arg_masked_eq 1 15 3])] else [])
         @ [(Sec_errno 1, ''socket'', [Arg_masked_eq 1 15 10])])"

definition kernel_bans :: "sec_arch \<Rightarrow> ruri_container \<Rightarrow> sec_rule list" where
  "kernel_bans a c =
     (if a = Arch_x86_64 \<or> a = Arch_aarch64 \<or> a = Arch_loongarch64 \<or> a = Arch_riscv64
      then [(Sec_errno 38, ''socketcall'', [])] else [])
     @ [(Sec_errno 38, ''io_uring_register'', []), (Sec_errno 38, ''io_uring_enter'', []),
        (Sec_errno 38, ''io_uring_setup'', []), (Sec_errno 1, ''add_key'', []),
        (Sec_errno 1, ''request_key'', []), (Sec_errno 1, ''keyctl'', [])]
     @ ban_with c cap_bpf [(Sec_errno 1, ''bpf'', [])]
     @ [(Sec_errno 1, ''bpf'', []), (Sec_errno 1, ''ioctl'', [Arg_eq 1 21522]),
        (Sec_errno 1, ''ioctl'', [Arg_eq 1 21532])]"

definition clone_flags :: "int list" where
  "clone_flags = [33554432, 134217728, 1073741824, 131072, 536870912, 268435456, 67108864]"

definition admin_bans :: "sec_arch \<Rightarrow> ruri_container \<Rightarrow> sec_rule list" where
  "admin_bans a c = ban_with c cap_sys_admin
     ([(Sec_errno 1, ''lookup_dcookie'', []), (Sec_errno 1, ''mount'', []),
        (Sec_errno 1, ''umount'', []), (Sec_errno 1, ''umount2'', []), (Sec_errno 1, ''fsopen'', []),
        (Sec_errno 1, ''fsconfig'', []), (Sec_errno 1, ''fsmount'', []),
        (Sec_errno 1, ''move_mount'', []), (Sec_errno 1, ''open_tree'', []),
        (Sec_errno 1, ''mount_setattr'', []), (Sec_errno 1, ''quotactl'', []),
        (Sec_errno 1, ''swapon'', []), (Sec_errno 1, ''swapoff'', []), (Sec_errno 1, ''setns'', []),
        (Sec_errno 1, ''unshare'', [])]
      @ map (\<lambda>f. (Sec_errno 1, ''clone'', [Arg_masked_eq (if a = Arch_s390 then 1 else 0) f f])) clone_flags
      @ (if \<not> systemd_mode c then [(Sec_errno 38, ''clone3'', [])] else [])
      @ [(Sec_kill, ''vm86'', []), (Sec_kill, ''vm86old'', []), (Sec_errno 1, ''syslog'', [])])"

definition time_module_bans :: "ruri_container \<Rightarrow> sec_rule list" where
  "time_module_bans c =
     [(Sec_errno 38, ''memfd_secret'', []), (Sec_errno 1, ''clock_adjtime'', []),
        (Sec_errno 1, ''clock_settime'', []), (Sec_errno 1, ''settimeofday'', []),
        (Sec_errno 1, ''stime'', []), (Sec_kill, ''create_module'', []),
        (Sec_kill, ''delete_module'', []), (Sec_kill, ''finit_module'', []),
        (Sec_kill, ''init_module'', []), (Sec_kill, ''get_kernel_syms'', [])]
     @ ban_with c cap_sys_nice
       [(Sec_errno 1, ''get_mempolicy'', []), (Sec_errno 1, ''mbind'', []),
        (Sec_errno 1, ''set_mempolicy'', []), (Sec_errno 1, ''sched_setscheduler'', []),
        (Sec_errno 1, ''sched_setattr'', []), (Sec_errno 1, ''move_pages'', [])]
     @ [(Sec_kill, ''ioperm'', []), (Sec_kill, ''iopl'', [])]
     @ ban_with c cap_sys_ptrace
       [(Sec_errno 1, ''kcmp'', []), (Sec_errno 1, ''process_vm_readv'', []),
        (Sec_errno 1, ''process_vm_writev'', []), (Sec_errno 1, ''ptrace'', []),
        (Sec_errno 38, ''perf_event_open'', []), (Sec_errno 38, ''process_mrelease'', [])]
     @ [(Sec_kill, ''kexec_file_load'', []), (Sec_kill, ''kexec_load'', [])]"

definition other_bans :: "ruri_container \<Rightarrow> sec_rule list" where
  "other_bans c =
     (if \<not> systemd_mode c then [(Sec_kill, ''reboot'', [])] else [(Sec_errno 1, ''reboot'', [])])
     @ [(Sec_kill, ''nfsservctl'', [])]
     @ ban_with c cap_dac_read_search
       (if \<not> systemd_mode c then [(Sec_errno 1, ''open_by_handle_at'', []), (Sec_errno 1, ''name_to_handle_at'', [])] else [])
     @ [(Sec_errno 1, ''personality'', [Arg_ne 0 4294967295]), (Sec_kill, ''pivot_root'', []),
        (Sec_kill, ''query_module'', []), (Sec_kill, ''sysfs'', []), (Sec_kill, ''_sysctl'', []),
        (Sec_kill, ''uselib'', []), (Sec_errno 38, ''userfaultfd'', []), (Sec_kill, ''ustat'', [])]
     @ ban_with c cap_sys_chroot [(Sec_errno 1, ''chroot'', [])]"

definition systemd_bans :: "ruri_container \<Rightarrow> sec_rule list" where
  "systemd_bans c =
     (if systemd_mode c
      then [(Sec_errno 1, ''kexec_load'', []), (Sec_errno 1, ''open_by_handle_at'', []),
        (Sec_errno 1, ''init_module'', []), (Sec_errno 1, ''delete_module'', []),
        (Sec_errno 1, ''finit_module'', []), (Sec_errno 1, ''kexec_file_load'', []),
        (Sec_errno 1, ''reboot'', []), (Sec_errno 1, ''umount2'', [Arg_masked_eq 5 1 1]),
        (Sec_errno 1, ''keyctl'', []), (Sec_errno 1, ''add_key'', []),
        (Sec_errno 1, ''request_key'', [])]
      else [])"

definition blacklist_rules :: "sec_arch \<Rightarrow> ruri_container \<Rightarrow> sec_rule list" where
  "blacklist_rules a c =
     socket_bans c @ kernel_bans a c @ admin_bans a c @ time_module_bans c @ other_bans c @ systemd_bans c"

section \<open>Rules of the user\<close>

definition errno_map :: "(string \<times> nat) list" where
  "errno_map =
     [(''ERRNO:'', 0), (''E2BIG:'', 7), (''EACCES:'', 13), (''EADDRINUSE:'', 98),
      (''EADDRNOTAVAIL:'', 99), (''EAFNOSUPPORT:'', 97), (''EAGAIN:'', 11), (''EALREADY:'', 114),
      (''EBADE:'', 52), (''EBADF:'', 9), (''EBADFD:'', 77), (''EBADMSG:'', 74), (''EBADR:'', 53),
      (''EBADRQC:'', 56), (''EBADSLT:'', 57), (''EBUSY:'', 16), (''ECANCELED:'', 125),
      (''ECHILD:'', 10), (''ECHRNG:'', 44), (''ECOMM:'', 70), (''ECONNABORTED:'', 103),
      (''ECONNREFUSED:'', 111), (''ECONNRESET:'', 104), (''EDEADLK:'', 35), (''EDEADLOCK:'', 35),
      (''EDESTADDRREQ:'', 89), (''EDOM:'', 33), (''EDQUOT:'', 122), (''EEXIST:'', 17),
      (''EFAULT:'', 14), (''EFBIG:'', 27), (''EHOSTDOWN:'', 112), (''EHOSTUNREACH:'', 113),
      (''EHWPOISON:'', 133), (''EIDRM:'', 43), (''EILSEQ:'', 84), (''EINPROGRESS:'', 115),
      (''EINTR:'', 4), (''EINVAL:'', 22), (''EIO:'', 5), (''EISCONN:'', 106), (''EISDIR:'', 21),
      (''EISNAM:'', 120), (''EKEYEXPIRED:'', 127), (''EKEYREJECTED:'', 129), (''EKEYREVOKED:'', 128),
      (''EL2HLT:'', 51), (''EL2NSYNC:'', 45), (''EL3HLT:'', 46), (''EL3RST:'', 47), (''ELIBACC:'', 79),
      (''ELIBBAD:'', 80), (''ELIBMAX:'', 82), (''ELIBSCN:'', 81), (''ELIBEXEC:'', 83),
      (''ELNRNG:'', 48), (''ELOOP:'', 40), (''EMEDIUMTYPE:'', 124), (''EMFILE:'', 24),
      (''EMLINK:'', 31), (''EMSGSIZE:'', 90), (''EMULTIHOP:'', 72), (''ENAMETOOLONG:'', 36),
      (''ENETDOWN:'', 100), (''ENETRESET:'', 102), (''ENETUNREACH:'', 101), (''ENFILE:'', 23),
      (''ENOANO:'', 55), (''ENOBUFS:'', 105), (''ENODATA:'', 61), (''ENODEV:'', 19), (''ENOENT:'', 2),
      (''ENOEXEC:'', 8), (''ENOKEY:'', 126), (''ENOLCK:'', 37), (''ENOLINK:'', 67),
      (''ENOMEDIUM:'', 123), (''ENOMEM:'', 12), (''ENOMSG:'', 42), (''ENONET:'', 64),
      (''ENOPKG:'', 65), (''ENOPROTOOPT:'', 92), (''ENOSPC:'', 28), (''ENOSR:'', 63),
      (''ENOSTR:'', 60), (''ENOSYS:'', 38), (''ENOTBLK:'', 15), (''ENOTCONN:'', 107),
      (''ENOTDIR:'', 20), (''ENOTEMPTY:'', 39), (''ENOTRECOVERABLE:'', 131), (''ENOTSOCK:'', 88),
      (''ENOTSUP:'', 95), (''ENOTTY:'', 25), (''ENOTUNIQ:'', 76), (''ENXIO:'', 6),
      (''EOPNOTSUPP:'', 95), (''EOVERFLOW:'', 75), (''EOWNERDEAD:'', 130), (''EPERM:'', 1),
      (''EPFNOSUPPORT:'', 96), (''EPIPE:'', 32), (''EPROTO:'', 71), (''EPROTONOSUPPORT:'', 93),
      (''EPROTOTYPE:'', 91), (''ERANGE:'', 34), (''EREMCHG:'', 78), (''EREMOTE:'', 66),
      (''EREMOTEIO:'', 121), (''ERESTART:'', 85), (''ERFKILL:'', 132), (''EROFS:'', 30),
      (''ESHUTDOWN:'', 108), (''ESPIPE:'', 29), (''ESOCKTNOSUPPORT:'', 94), (''ESRCH:'', 3),
      (''ESTALE:'', 116), (''ESTRPIPE:'', 86), (''ETIME:'', 62), (''ETIMEDOUT:'', 110),
      (''ETOOMANYREFS:'', 109), (''ETXTBSY:'', 26), (''EUCLEAN:'', 117), (''EUNATCH:'', 49),
      (''EUSERS:'', 87), (''EWOULDBLOCK:'', 11), (''EXDEV:'', 18), (''EXFULL:'', 54)]"

definition resolve_failed :: "'a prog" where "resolve_failed = die (Fatal ''Failed to resolve syscall'')"

text \<open>A rule whose result is only warned about, unless it is -EEXIST.\<close>

definition add_rule :: "world \<Rightarrow> sec_rule \<Rightarrow> unit prog" where
  "add_rule w rule = (case rule of (action, name, cmps) \<Rightarrow>
     seq (call w (Seccomp_rule action name cmps))
       (\<lambda>res. warn_unless w (\<not> (res < 0 \<and> res \<noteq> - eexist)) ''seccomp rule add failed''))"

definition ruri_resolve_seccomp_errno :: "world \<Rightarrow> string \<Rightarrow> int prog" where
  "ruri_resolve_seccomp_errno w name =
     (case find_prefix errno_map name of
        None \<Rightarrow> ret (-1)
      | Some (v, rest) \<Rightarrow>
          if \<not> w_syscall_known w rest then resolve_failed
          else call w (Seccomp_rule (Sec_errno v) rest []))"

definition deny_syscall :: "world \<Rightarrow> string \<Rightarrow> unit prog" where
  "deny_syscall w name =
     (if w_syscall_known w name then add_rule w (Sec_kill, name, [])
      else seq (ruri_resolve_seccomp_errno w name)
        (\<lambda>res. if res \<noteq> 0 then resolve_failed else ret ()))"

section \<open>Setting up the filter\<close>

text \<open>By default libseccomp would set no_new_privs when it loads a filter.\<close>

definition load_filter :: "world \<Rightarrow> unit prog" where
  "load_filter w = seq (run w (Seccomp_ctl_nnp False))
     (\<lambda>_. warned w Seccomp_load ''failed to load seccomp filter'')"

definition ruri_setup_seccomp_whitelist :: "world \<Rightarrow> ruri_container \<Rightarrow> unit prog" where
  "ruri_setup_seccomp_whitelist w c =
     seq (run w (Seccomp_init (Sec_errno 1)))
      (\<lambda>_. seq (for_each (deny_syscall w) (seccomp_denied_syscall c))
        (\<lambda>_. seq (for_each (add_rule w) (whitelist_rules (w_kernel w) (w_arch w) c))
          (\<lambda>_. load_filter w)))"

definition ruri_setup_seccomp_blacklist :: "world \<Rightarrow> ruri_container \<Rightarrow> unit prog" where
  "ruri_setup_seccomp_blacklist w c =
     (if \<not> enable_default_seccomp c \<and> seccomp_denied_syscall c = [] \<and> \<not> systemd_mode c then ret ()
      else seq (run w (Seccomp_init Sec_allow))
        (\<lambda>_. seq (for_each (deny_syscall w) (seccomp_denied_syscall c))
          (\<lambda>_. seq (if \<not> enable_default_seccomp c \<and> \<not> systemd_mode c then load_filter w else ret ())
            (\<lambda>_. seq (for_each (add_rule w) (blacklist_rules (w_arch w) c))
              (\<lambda>_. load_filter w)))))"

definition ruri_setup_seccomp :: "world \<Rightarrow> ruri_container \<Rightarrow> unit prog" where
  "ruri_setup_seccomp w c =
     (if enable_seccomp_whitelist c then ruri_setup_seccomp_whitelist w c
      else ruri_setup_seccomp_blacklist w c)"

section \<open>Lemmas\<close>

subsection \<open>Gated system calls\<close>

definition whitelist_names :: "string list" where
  "whitelist_names = whitelist_names_a @ whitelist_names_b @ whitelist_names_c @ whitelist_names_d @ whitelist_names_e"

text \<open>The system calls the whitelist gives only to the holder of one capability.\<close>

definition gate_table :: "(string \<times> int) list" where
  "gate_table =
     (''open_by_handle_at'', cap_dac_read_search)
     # map (\<lambda>n. (n, cap_sys_admin))
         (filter (\<lambda>n. n \<notin> set [''bpf'', ''syslog'', ''perf_event_open'']) admin_names)
     @ [(''reboot'', cap_sys_boot), (''chroot'', cap_sys_chroot), (''init_module'', cap_sys_module),
        (''delete_module'', cap_sys_module), (''finit_module'', cap_sys_module), (''acct'', cap_sys_pacct),
        (''kcmp'', cap_sys_ptrace), (''pidfd_getfd'', cap_sys_ptrace), (''process_madvise'', cap_sys_ptrace),
        (''ioperm'', cap_sys_rawio), (''iopl'', cap_sys_rawio), (''settimeofday'', cap_sys_time),
        (''stime'', cap_sys_time), (''clock_settime'', cap_sys_time), (''clock_settime64'', cap_sys_time),
        (''vhangup'', cap_sys_tty_config), (''get_mempolicy'', cap_sys_nice), (''mbind'', cap_sys_nice),
        (''set_mempolicy'', cap_sys_nice), (''set_mempolicy_home_node'', cap_sys_nice)]"

lemma gate_table_items:
  "gate_table =
    [(''open_by_handle_at'', cap_dac_read_search), (''clone'', cap_sys_admin), (''clone3'', cap_sys_admin),
     (''fanotify_init'', cap_sys_admin), (''fsconfig'', cap_sys_admin), (''fsmount'', cap_sys_admin),
     (''fsopen'', cap_sys_admin), (''fspick'', cap_sys_admin), (''lookup_dcookie'', cap_sys_admin),
     (''lsm_get_self_attr'', cap_sys_admin), (''lsm_list_modules'', cap_sys_admin),
     (''lsm_set_self_attr'', cap_sys_admin), (''mount'', cap_sys_admin), (''mount_setattr'', cap_sys_admin),
     (''move_mount'', cap_sys_admin), (''open_tree'', cap_sys_admin), (''quotactl'', cap_sys_admin),
     (''quotactl_fd'', cap_sys_admin), (''setdomainname'', cap_sys_admin), (''sethostname'', cap_sys_admin),
     (''setns'', cap_sys_admin), (''umount'', cap_sys_admin), (''umount2'', cap_sys_admin),
     (''unshare'', cap_sys_admin), (''reboot'', cap_sys_boot), (''chroot'', cap_sys_chroot),
     (''init_module'', cap_sys_module), (''delete_module'', cap_sys_module), (''finit_module'', cap_sys_module),
     (''acct'', cap_sys_pacct), (''kcmp'', cap_sys_ptrace), (''pidfd_getfd'', cap_sys_ptrace),
     (''process_madvise'', cap_sys_ptrace), (''ioperm'', cap_sys_rawio), (''iopl'', cap_sys_rawio),
     (''settimeofday'', cap_sys_time), (''stime'', cap_sys_time), (''clock_settime'', cap_sys_time),
     (''clock_settime64'', cap_sys_time), (''vhangup'', cap_sys_tty_config), (''get_mempolicy'', cap_sys_nice),
     (''mbind'', cap_sys_nice), (''set_mempolicy'', cap_sys_nice), (''set_mempolicy_home_node'', cap_sys_nice)]"
  by (simp add: gate_table_def admin_names_def)

text \<open>Names are told apart by a number that is cheap to compute.\<close>

fun name_code :: "string \<Rightarrow> int" where
  "name_code [] = 1"
| "name_code (ch # s) = of_char ch + 7 * name_code s"

definition codes_apart :: "string list \<Rightarrow> bool" where
  "codes_apart ns = list_all (\<lambda>k. k \<notin> set (map name_code ns)) (map (name_code \<circ> fst) gate_table)"

lemma codes_apart_names: "codes_apart ns \<Longrightarrow> list_all (\<lambda>(n, cap). n \<notin> set ns) gate_table"
  by (auto simp: codes_apart_def list_all_iff)

lemma gated_not_in_a: "list_all (\<lambda>(n, cap). n \<notin> set whitelist_names_a) gate_table"
  by (rule codes_apart_names) (simp add: codes_apart_def gate_table_items whitelist_names_a_def)

lemma gated_not_in_b: "list_all (\<lambda>(n, cap). n \<notin> set whitelist_names_b) gate_table"
  by (rule codes_apart_names) (simp add: codes_apart_def gate_table_items whitelist_names_b_def)

lemma gated_not_in_c: "list_all (\<lambda>(n, cap). n \<notin> set whitelist_names_c) gate_table"
  by (rule codes_apart_names) (simp add: codes_apart_def gate_table_items whitelist_names_c_def)

lemma gated_not_in_d: "list_all (\<lambda>(n, cap). n \<notin> set whitelist_names_d) gate_table"
  by (rule codes_apart_names) (simp add: codes_apart_def gate_table_items whitelist_names_d_def)

lemma gated_not_in_e: "list_all (\<lambda>(n, cap). n \<notin> set whitelist_names_e) gate_table"
  by (rule codes_apart_names) (simp add: codes_apart_def gate_table_items whitelist_names_e_def)

lemmas gated_not_in = gated_not_in_a gated_not_in_b gated_not_in_c gated_not_in_d gated_not_in_e

lemma gated_not_whitelisted: "(n, cap) \<in> set gate_table \<Longrightarrow> n \<notin> set whitelist_names"
  using gated_not_in by (auto simp: list_all_iff whitelist_names_def)

lemma mem_allow: "(Sec_allow, n, []) \<in> set (map allow ns) \<longleftrightarrow> n \<in> set ns"
  by (auto simp: allow_def)

lemma mem_allow_unless:
  "(Sec_allow, n, []) \<in> set (allow_unless c cap ns) \<longleftrightarrow> \<not> dropped c cap \<and> n \<in> set ns"
  using mem_allow[of n ns] by (simp add: allow_unless_def)

lemma mem_clone_rules: "(Sec_allow, n, []) \<notin> set (clone_rules a c)"
  by (simp add: clone_rules_def)

lemma gated_by_capability:
  "list_all (\<lambda>(n, cap). (Sec_allow, n, []) \<in> set (capability_rules a c) \<longleftrightarrow> \<not> dropped c cap) gate_table"
  by (simp add: capability_rules_def mem_allow_unless mem_clone_rules gate_table_items admin_names_def)

lemma gated_not_extra:
  "list_all (\<lambda>(n, cap). (Sec_allow, n, []) \<notin> set (whitelist_extra kv)) gate_table"
  "list_all (\<lambda>(n, cap). (Sec_allow, n, []) \<notin> set (arch_rules a)) gate_table"
   apply (simp add: whitelist_extra_def gate_table_items)
  apply (simp add: arch_rules_def allow_def gate_table_items)
  done

lemma whitelist_gate:
  assumes "(name, cap) \<in> set gate_table"
  shows "(Sec_allow, name, []) \<in> set (whitelist_rules kv a c) \<longleftrightarrow> \<not> dropped c cap"
proof -
  have "(Sec_allow, name, []) \<notin> set whitelist_base"
    using gated_not_whitelisted[OF assms] mem_allow[of name whitelist_names]
    unfolding whitelist_base_def whitelist_names_def by blast
  moreover have each: "P name cap" if "list_all (\<lambda>(n, cap). P n cap) gate_table" for P
    using that assms by (auto simp: list_all_iff)
  ultimately show ?thesis
    using each[OF gated_not_extra(1)[of kv]] each[OF gated_not_extra(2)[of a]] each[OF gated_by_capability[of a c]]
    unfolding whitelist_rules_def by auto
qed

text \<open>C33: Whatever the kernel and the architecture, the whitelist profile allows mount,
  umount2, setns, unshare, chroot, reboot, module loading and the other calls of
  gate_table without a condition exactly when the container keeps the capability.\<close>

theorem whitelist_follows_capabilities:
  assumes "(name, cap) \<in> set gate_table"
  shows "(Sec_allow, name, []) \<in> set (whitelist_rules kv a c) \<longleftrightarrow> \<not> dropped c cap"
  by (rule whitelist_gate[OF assms])

lemma sample_drops_admin: "dropped sample_container cap_sys_admin"
  by (simp add: dropped_def ruri_is_in_caplist_def is_in_loop.simps arr_get_def sample_container_def
      cap_sys_admin_def ruri_cap_last_cap_def)

lemma whitelist_follows_capabilities_witness:
  "(Sec_allow, ''mount'', []) \<notin> set (whitelist_rules (Version 6 1 0) Arch_x86_64 sample_container)"
  using whitelist_follows_capabilities[of "''mount''" cap_sys_admin "(Version 6 1 0)" Arch_x86_64 sample_container]
    sample_drops_admin by (simp add: gate_table_items)

subsection \<open>The calls of a successful run\<close>

definition rule_call :: "sec_rule \<Rightarrow> sys_call" where
  "rule_call r = (case r of (action, name, cmps) \<Rightarrow> Seccomp_rule action name cmps)"

definition deny_calls :: "world \<Rightarrow> string \<Rightarrow> sys_call list" where
  "deny_calls w name =
     (if w_syscall_known w name then [Seccomp_rule Sec_kill name []]
      else case find_prefix errno_map name of
          None \<Rightarrow> []
        | Some (v, rest) \<Rightarrow> [Seccomp_rule (Sec_errno v) rest []])"

lemma add_rule_trace: "add_rule w r tr = (Inr (), tr') \<Longrightarrow> tr' = tr @ [rule_call r]"
  by (cases r) (auto simp: add_rule_def rule_call_def dest: warn_unless_trace)

lemma load_filter_trace: "load_filter w tr = (Inr (), tr') \<Longrightarrow> tr' = tr @ [Seccomp_ctl_nnp False, Seccomp_load]"
  by (auto simp: load_filter_def seq_Inr warned_result split: if_splits)

lemma deny_syscall_trace:
  assumes "deny_syscall w name tr = (Inr (), tr')"
  shows "tr' = tr @ deny_calls w name"
proof (cases "w_syscall_known w name")
  case True
  then show ?thesis using assms add_rule_trace[of w "(Sec_kill, name, [])" tr tr']
    by (simp add: deny_syscall_def deny_calls_def rule_call_def)
next
  case False
  then show ?thesis using assms
    by (auto simp: deny_syscall_def deny_calls_def ruri_resolve_seccomp_errno_def resolve_failed_def
        seq_Inr split: option.splits if_splits)
qed

lemma denies_trace:
  "for_each (deny_syscall w) xs tr = (Inr (), tr') \<Longrightarrow> tr' = tr @ concat (map (deny_calls w) xs)"
  by (rule for_each_trace[OF deny_syscall_trace])

lemma rules_trace: "for_each (add_rule w) rs tr = (Inr (), tr') \<Longrightarrow> tr' = tr @ map rule_call rs"
proof -
  assume r: "for_each (add_rule w) rs tr = (Inr (), tr')"
  have "tr' = tr @ concat (map (\<lambda>r. [rule_call r]) rs)"
    by (rule for_each_trace[of "add_rule w" "\<lambda>r. [rule_call r]", OF add_rule_trace r])
  also have "concat (map (\<lambda>r. [rule_call r]) rs) = map rule_call rs" by (induction rs) auto
  finally show ?thesis .
qed

text \<open>C34: A whitelist that is set up makes exactly these calls: the filter that refuses by
  default, the rules of the user, then those of the profile, then the attribute that keeps libseccomp
  from setting no_new_privs, then one load - so no rule of the profile comes before a rule of
  the user for the same system call.\<close>

theorem whitelist_user_rules_first:
  assumes "enable_seccomp_whitelist c" "ruri_setup_seccomp w c tr = (Inr (), tr')"
  shows "tr' = tr @ Seccomp_init (Sec_errno 1) # concat (map (deny_calls w) (seccomp_denied_syscall c))
    @ map rule_call (whitelist_rules (w_kernel w) (w_arch w) c) @ [Seccomp_ctl_nnp False, Seccomp_load]"
  using assms by (auto simp: ruri_setup_seccomp_def ruri_setup_seccomp_whitelist_def seq_Inr
      dest!: denies_trace rules_trace load_filter_trace)

text \<open>A container that only denies system calls of its own (no default profile, no
  systemd mode) loads its filter and then gets the whole default profile as well: the early
  branch does not return.\<close>

theorem deny_list_alone_loads_profile:
  assumes "\<not> enable_seccomp_whitelist c" "\<not> enable_default_seccomp c" "\<not> systemd_mode c"
    and "seccomp_denied_syscall c \<noteq> []" "ruri_setup_seccomp w c tr = (Inr (), tr')"
  shows "tr' = tr @ Seccomp_init Sec_allow # concat (map (deny_calls w) (seccomp_denied_syscall c))
    @ Seccomp_ctl_nnp False # Seccomp_load # map rule_call (blacklist_rules (w_arch w) c)
    @ [Seccomp_ctl_nnp False, Seccomp_load]"
  using assms by (auto simp: ruri_setup_seccomp_def ruri_setup_seccomp_blacklist_def seq_Inr
      dest!: denies_trace rules_trace load_filter_trace)

text \<open>A kernel that knows every system call written without an errno and refuses nothing.\<close>

definition sample_seccomp :: world where
  "sample_seccomp = sample_disk\<lparr>w_syscall_known := \<lambda>n. CHR '':'' \<notin> set n\<rparr>"

lemma sample_seccomp_simps [simp]:
  "w_ret sample_seccomp tr c = 0" "w_syscall_known sample_seccomp n = (CHR '':'' \<notin> set n)"
  "w_kernel sample_seccomp = Version 6 1 0" "w_arch sample_seccomp = Arch_x86_64"
  by (simp_all add: sample_seccomp_def) (simp_all add: sample_disk_def)

lemma sample_rules_return:
  "returns (\<lambda>_. True) (add_rule sample_seccomp r)" "returns (\<lambda>_. True) (load_filter sample_seccomp)"
  by (cases r) (auto simp: returns_def add_rule_def load_filter_def seq_def warned_result warn_unless_def)

definition sample_denied :: "string list" where "sample_denied = [''ptrace'', ''EPERM:chroot'']"

lemma sample_denied_calls:
  "concat (map (deny_calls sample_seccomp) sample_denied)
     = [Seccomp_rule Sec_kill ''ptrace'' [], Seccomp_rule (Sec_errno 1) ''chroot'' []]"
  "x \<in> set sample_denied \<Longrightarrow> returns (\<lambda>_. True) (deny_syscall sample_seccomp x)"
proof -
  have e: "find_prefix errno_map ''EPERM:chroot'' = Some (1, ''chroot'')" by (simp add: errno_map_def)
  show "concat (map (deny_calls sample_seccomp) sample_denied)
     = [Seccomp_rule Sec_kill ''ptrace'' [], Seccomp_rule (Sec_errno 1) ''chroot'' []]"
    using e by (simp add: deny_calls_def sample_denied_def)
  assume "x \<in> set sample_denied"
  then show "returns (\<lambda>_. True) (deny_syscall sample_seccomp x)"
    using e by (auto simp: deny_syscall_def sample_denied_def returns_def ruri_resolve_seccomp_errno_def
        add_rule_def warn_unless_def)
qed

lemma whitelist_user_rules_first_witness:
  "ruri_setup_seccomp sample_seccomp
      (sample_container\<lparr>enable_seccomp_whitelist := True, seccomp_denied_syscall := sample_denied\<rparr>) []
    = (Inr (), Seccomp_init (Sec_errno 1) # Seccomp_rule Sec_kill ''ptrace'' [] # Seccomp_rule (Sec_errno 1) ''chroot'' []
        # map rule_call (whitelist_rules (Version 6 1 0) Arch_x86_64
            (sample_container\<lparr>enable_seccomp_whitelist := True, seccomp_denied_syscall := sample_denied\<rparr>))
        @ [Seccomp_ctl_nnp False, Seccomp_load])"
proof -
  let ?c = "sample_container\<lparr>enable_seccomp_whitelist := True, seccomp_denied_syscall := sample_denied\<rparr>"
  have "returns (\<lambda>_. True) (ruri_setup_seccomp sample_seccomp ?c)"
    unfolding ruri_setup_seccomp_def ruri_setup_seccomp_whitelist_def
    by (auto intro!: returns_seq[OF returns_call(2)] returns_seq[OF for_each_returns] sample_denied_calls(2)
        sample_rules_return simp del: prog_simps seq_run)
  then obtain tr' where r: "ruri_setup_seccomp sample_seccomp ?c [] = (Inr (), tr')"
    unfolding returns_def by auto
  show ?thesis using whitelist_user_rules_first[of ?c, OF _ r] r by (simp add: sample_denied_calls(1))
qed

lemma deny_list_alone_loads_profile_witness:
  "ruri_setup_seccomp sample_seccomp (sample_container\<lparr>seccomp_denied_syscall := sample_denied\<rparr>) []
    = (Inr (), Seccomp_init Sec_allow # Seccomp_rule Sec_kill ''ptrace'' [] # Seccomp_rule (Sec_errno 1) ''chroot'' []
        # Seccomp_ctl_nnp False # Seccomp_load # map rule_call (blacklist_rules Arch_x86_64
            (sample_container\<lparr>seccomp_denied_syscall := sample_denied\<rparr>)) @ [Seccomp_ctl_nnp False, Seccomp_load])"
proof -
  let ?c = "sample_container\<lparr>seccomp_denied_syscall := sample_denied\<rparr>"
  have flags: "\<not> enable_seccomp_whitelist ?c" "\<not> enable_default_seccomp ?c" "\<not> systemd_mode ?c"
    "seccomp_denied_syscall ?c \<noteq> []" by (simp_all add: sample_container_def sample_denied_def)
  have "returns (\<lambda>_. True) (ruri_setup_seccomp sample_seccomp ?c)"
    using flags unfolding ruri_setup_seccomp_def ruri_setup_seccomp_blacklist_def
    by (auto intro!: returns_seq[OF returns_call(2)] returns_seq[OF for_each_returns] returns_seq[OF sample_rules_return(2)]
        sample_denied_calls(2) sample_rules_return simp del: prog_simps seq_run)
  then obtain tr' where r: "ruri_setup_seccomp sample_seccomp ?c [] = (Inr (), tr')"
    unfolding returns_def by auto
  show ?thesis using deny_list_alone_loads_profile[OF flags r] r by (simp add: sample_denied_calls(1))
qed

end
