(* ===== verification/ElfMagic.thy ===== *)
theory ElfMagic
  imports Prelude
begin

unbundle bit_operations_syntax

text \<open>
  elf-magic.c and include/elf-magic.h: the magic number and the mask by which binfmt_misc
  recognises the executables of an architecture, as the text that is written to its
  register file (a byte is a backslash, an x and two hex digits; a letter stands for
  itself), and the accepted names of an architecture.  The architecture ruri was compiled
  for is an argument.

  \<open>pattern_bytes\<close> are the bytes such a text stands for; \<open>exclusive\<close> says of two patterns
  that they ask for different values of a bit that both masks select.
\<close>

section \<open>Patterns\<close>

text \<open>The text of bytes given by their hex digits.\<close>

fun escaped :: "string \<Rightarrow> string" where
  "escaped (a # b # s) = [backslash, CHR ''x'', a, b] @ escaped s"
| "escaped s = []"

definition magic_table :: "(string \<times> string) list" where
  "magic_table =
    [(''aarch64'', escaped ''7f454c460201010000000000000000000200b700''),
     (''alpha'', escaped ''7f454c4602010100000000000000000002002690''),
     (''arm'', escaped ''7f454c4601010100000000000000000002002800''),
     (''armeb'', escaped ''7f454c4601020100000000000000000000020028''),
     (''cris'', escaped ''7f454c4601010100000000000000000002004c00''),
     (''hexagon'', escaped ''7f'' @ ''ELF'' @ escaped ''0101010000000000000000000200a400''),
     (''hppa'', escaped ''7f454c460102010000000000000000000002000f''),
     (''i386'', escaped ''7f454c4601010100000000000000000002000300''),
     (''loongarch64'', escaped ''7f'' @ ''ELF'' @ escaped ''02010100000000000000000002000201''),
     (''m68k'', escaped ''7f454c4601020100000000000000000000020004''),
     (''microblaze'', escaped ''7f454c460102010000000000000000000002baab''),
     (''mips'', escaped ''7f'' @ ''ELF'' @ escaped ''010201000000000000000000000200080000000100000000000000000000000000000000''),
     (''mips64'', escaped ''7f454c4602020100000000000000000000020008''),
     (''mips64el'', escaped ''7f454c4602010100000000000000000002000800''),
     (''mipsel'', escaped ''7f'' @ ''ELF'' @ escaped ''010101000000000000000000020008000100000000000000000000000000000000000000''),
     (''mipsn32'', escaped ''7f'' @ ''ELF'' @ escaped ''010201000000000000000000000200080000000100000000000000000000000000000020''),
     (''mipsn32el'', escaped ''7f'' @ ''ELF'' @ escaped ''010101000000000000000000020008000100000000000000000000000000000020000000''),
     (''ppc'', escaped ''7f454c4601020100000000000000000000020014''),
     (''ppc64'', escaped ''7f454c4602020100000000000000000000020015''),
     (''ppc64le'', escaped ''7f454c4602010100000000000000000002001500''),
     (''riscv32'', escaped ''7f454c460101010000000000000000000200f300''),
     (''riscv64'', escaped ''7f454c460201010000000000000000000200f300''),
     (''s390x'', escaped ''7f454c4602020100000000000000000000020016''),
     (''sh4'', escaped ''7f454c4601010100000000000000000002002a00''),
     (''sh4eb'', escaped ''7f454c460102010000000000000000000002002a''),
     (''sparc'', escaped ''7f454c4601020100000000000000000000020002''),
     (''sparc32plus'', escaped ''7f454c4601020100000000000000000000020012''),
     (''sparc64'', escaped ''7f454c460202010000000000000000000002002b''),
     (''x86_64'', escaped ''7f454c4602010100000000000000000002003e00''),
     (''xtensa'', escaped ''7f454c4601010100000000000000000002005e00''),
     (''xtensaeb'', escaped ''7f454c460102010000000000000000000002005e'')]"

definition mask_table :: "(string \<times> string) list" where
  "mask_table =
    [(''aarch64'', escaped ''ffffffffffffff00fffffffffffffffffeffffff''),
     (''alpha'', escaped ''ffffffffffffff00fffffffffffffffffeffffff''),
     (''arm'', escaped ''ffffffffffffff00fffffffffffffffffeffffff''),
     (''armeb'', escaped ''ffffffffffffff00fffffffffffffffffffeffff''),
     (''cris'', escaped ''ffffffffffffff00fffffffffffffffffeffffff''),
     (''hexagon'', escaped ''ffffffffffffff00fffffffffffffffffeffffff''),
     (''hppa'', escaped ''ffffffffffffff00fffffffffffffffffffeffff''),
     (''i386'', escaped ''fffffffffffefefcfffffffffffffffffeffffff''),
     (''loongarch64'', escaped ''fffffffffffffffc00fffffffffffffffeffffff''),
     (''m68k'', escaped ''ffffffffffffff00fffffffffffffffffffeffff''),
     (''microblaze'', escaped ''ffffffffffffff00fffffffffffffffffffeffff''),
     (''mips'', escaped ''ffffffffffffff0000fffffffffffffffffeffffffffffff00000000000000000000000000000020''),
     (''mips64'', escaped ''ffffffffffffff0000fffffffffffffffffeffff''),
     (''mips64el'', escaped ''ffffffffffffff0000fffffffffffffffeffffff''),
     (''mipsel'', escaped ''ffffffffffffff0000fffffffffffffffeffffffffffffff00000000000000000000000020000000''),
     (''mipsn32'', escaped ''ffffffffffffff0000fffffffffffffffffeffffffffffff00000000000000000000000000000020''),
     (''mipsn32el'', escaped ''ffffffffffffff0000fffffffffffffffeffffffffffffff00000000000000000000000020000000''),
     (''ppc'', escaped ''fffffffffffffffcfffffffffffffffffffeffff''),
     (''ppc64'', escaped ''fffffffffffffffcfffffffffffffffffffeffff''),
     (''ppc64le'', escaped ''fffffffffffffffcfffffffffffffffffeffff00''),
     (''riscv32'', escaped ''ffffffffffffff00fffffffffffffffffeffffff''),
     (''riscv64'', escaped ''ffffffffffffff00fffffffffffffffffeffffff''),
     (''s390x'', escaped ''fffffffffffffffcfffffffffffffffffffeffff''),
     (''sh4'', escaped ''fffffffffffffffcfffffffffffffffffeffffff''),
     (''sh4eb'', escaped ''fffffffffffffffcfffffffffffffffffffeffff''),
     (''sparc'', escaped ''fffffffffffffffcfffffffffffffffffffeffff''),
     (''sparc32plus'', escaped ''fffffffffffffffcfffffffffffffffffffeffff''),
     (''sparc64'', escaped ''fffffffffffffffcfffffffffffffffffffeffff''),
     (''x86_64'', escaped ''fffffffffffefefcfffffffffffffffffeffffff''),
     (''xtensa'', escaped ''ffffffffffffff00fffffffffffffffffeffffff''),
     (''xtensaeb'', escaped ''ffffffffffffff00fffffffffffffffffffeffff'')]"

definition arch_names :: "(string \<times> string \<times> bool) list" where
  "arch_names =
    [(''aarch64'', ''aarch64'', True), (''arm64'', ''aarch64'', True), (''armv8'', ''aarch64'', True),
     (''alpha'', ''alpha'', False), (''arm'', ''arm'', True), (''armhf'', ''arm'', True),
     (''arm32'', ''arm'', True), (''armel'', ''arm'', True), (''armv7'', ''arm'', True),
     (''armeb'', ''armeb'', False), (''cris'', ''cris'', False), (''hexagon'', ''hexagon'', False),
     (''hppa'', ''hppa'', False), (''i386'', ''i386'', True), (''x86'', ''i386'', True),
     (''loongarch64'', ''loongarch64'', True), (''loong64'', ''loongarch64'', True),
     (''loongarch'', ''loongarch64'', True), (''m68k'', ''m68k'', False),
     (''microblaze'', ''microblaze'', False), (''mips'', ''mips'', False),
     (''mips64'', ''mips64'', False), (''mips64el'', ''mips64el'', False),
     (''mipsel'', ''mipsel'', False), (''mipsn32'', ''mipsn32'', False),
     (''mipsn32el'', ''mipsn32el'', False), (''ppc'', ''ppc'', False), (''ppc64'', ''ppc64'', False),
     (''ppc64le'', ''ppc64le'', False), (''riscv32'', ''riscv32'', False),
     (''riscv64'', ''riscv64'', False), (''s390x'', ''s390x'', False), (''sh4'', ''sh4'', False),
     (''sh4eb'', ''sh4eb'', False), (''sparc'', ''sparc'', False),
     (''sparc32plus'', ''sparc32plus'', False), (''sparc64'', ''sparc64'', False),
     (''x86_64'', ''x86_64'', True), (''amd64'', ''x86_64'', True), (''xtensa'', ''xtensa'', False),
     (''xtensaeb'', ''xtensaeb'', False)]"

text \<open>The third component says that the branch refuses the host's own architecture.\<close>

definition find_arch :: "string \<Rightarrow> (string \<times> bool) option" where
  "find_arch cross_arch = map_of arch_names cross_arch"

definition same_arch :: fault where "same_arch = Fatal ''Do not simulate the same architecture as host.''"

definition ruri_get_magic :: "string \<Rightarrow> string \<Rightarrow> (string \<times> string) option result" where
  "ruri_get_magic host_arch cross_arch =
     (if cross_arch = host_arch then Inl same_arch
      else case find_arch cross_arch of
          None \<Rightarrow> Inr None
        | Some (arch, guarded) \<Rightarrow>
            if guarded \<and> host_arch = arch then Inl same_arch
            else Inr (Some (the (map_of magic_table arch), the (map_of mask_table arch))))"

section \<open>The bytes of a pattern\<close>

definition hex_val :: "char \<Rightarrow> int" where
  "hex_val ch = (let n = (of_char ch :: int) in if n < 58 then n - 48 else n - 87)"

fun pattern_bytes :: "string \<Rightarrow> int list" where
  "pattern_bytes (x # y # a # b # s) =
     (if x = backslash \<and> y = CHR ''x'' then (16 * hex_val a + hex_val b) # pattern_bytes s
      else of_char x # pattern_bytes (y # a # b # s))"
| "pattern_bytes (x # s) = of_char x # pattern_bytes s"
| "pattern_bytes [] = []"

section \<open>Patterns exclude each other\<close>

definition exclusive_bytes :: "int list \<Rightarrow> int list \<Rightarrow> int list \<Rightarrow> int list \<Rightarrow> bool" where
  "exclusive_bytes ms ks ms' ks' =
     (\<exists>i < min (min (length ms) (length ks)) (min (length ms') (length ks')).
        ms ! i AND (ks ! i AND ks' ! i) \<noteq> ms' ! i AND (ks ! i AND ks' ! i))"

fun clash :: "int list \<Rightarrow> int list \<Rightarrow> int list \<Rightarrow> int list \<Rightarrow> bool" where
  "clash (m # ms) (k # ks) (m' # ms') (k' # ks') =
     (if m = m' then clash ms ks ms' ks'
      else if m AND (k AND k') \<noteq> m' AND (k AND k') then True else clash ms ks ms' ks')"
| "clash ms ks ms' ks' = False"

lemma clash_exclusive: "clash ms ks ms' ks' \<Longrightarrow> exclusive_bytes ms ks ms' ks'"
proof (induction ms ks ms' ks' rule: clash.induct)
  case (1 m ms k ks m' ms' k' ks')
  have "exclusive_bytes (m # ms) (k # ks) (m' # ms') (k' # ks')" if "exclusive_bytes ms ks ms' ks'"
    using that unfolding exclusive_bytes_def by fastforce
  moreover have "exclusive_bytes (m # ms) (k # ks) (m' # ms') (k' # ks')" if "m AND (k AND k') \<noteq> m' AND (k AND k')"
    unfolding exclusive_bytes_def using that by (intro exI[of _ 0]) simp
  ultimately show ?case using 1 by (auto split: if_splits)
qed simp_all

lemma exclusive_sym: "exclusive_bytes ms ks ms' ks' \<Longrightarrow> exclusive_bytes ms' ks' ms ks"
  unfolding exclusive_bytes_def by (metis and.commute min.commute)

fun all_pairs :: "('a \<Rightarrow> 'a \<Rightarrow> bool) \<Rightarrow> 'a list \<Rightarrow> bool" where
  "all_pairs f [] = True"
| "all_pairs f (x # xs) = (list_all (f x) xs \<and> all_pairs f xs)"

lemma all_pairsD:
  "all_pairs f xs \<Longrightarrow> distinct (map g xs) \<Longrightarrow> x \<in> set xs \<Longrightarrow> y \<in> set xs \<Longrightarrow> g x \<noteq> g y \<Longrightarrow> f x y \<or> f y x"
  by (induction xs) (auto simp: list_all_iff)

definition arch_pattern :: "string \<Rightarrow> string \<times> string" where
  "arch_pattern arch = (the (map_of magic_table arch), the (map_of mask_table arch))"

definition decoded :: "string \<times> string \<Rightarrow> int list \<times> int list" where
  "decoded p = (pattern_bytes (fst p), pattern_bytes (snd p))"

definition exclusive :: "string \<times> string \<Rightarrow> string \<times> string \<Rightarrow> bool" where
  "exclusive p q = exclusive_bytes (fst (decoded p)) (snd (decoded p)) (fst (decoded q)) (snd (decoded q))"

text \<open>The patterns of all architectures, by name.\<close>

definition known_patterns :: "(string \<times> int list \<times> int list) list" where
  "known_patterns = map (\<lambda>(a, m). (a, decoded (arch_pattern a))) magic_table"

lemma known_patterns_clash: "all_pairs (\<lambda>(a, m, k) (b, m', k'). clash m k m' k') known_patterns"
  by code_simp

lemma known_patterns_shape:
  "list_all (\<lambda>(a, m, k). length m = length k \<and> take 4 m = [127, 69, 76, 70]) known_patterns"
  "distinct (map fst known_patterns)"
  by code_simp+

lemma names_known: "(fst \<circ> snd) ` set arch_names \<subseteq> fst ` set magic_table"
  by (simp add: arch_names_def magic_table_def)

lemma magic_known:
  assumes "ruri_get_magic host_arch a = Inr (Some p)"
  obtains x g where "find_arch a = Some (x, g)" "(x, decoded p) \<in> set known_patterns"
proof -
  obtain x g where a: "find_arch a = Some (x, g)" and p: "p = arch_pattern x"
    using assms by (auto simp: ruri_get_magic_def arch_pattern_def split: if_splits option.splits)
  have "(a, x, g) \<in> set arch_names" using a unfolding find_arch_def by (rule map_of_SomeD)
  then have "x \<in> fst ` set magic_table" using names_known by force
  then show ?thesis using that[OF a] p by (force simp: known_patterns_def)
qed

text \<open>C37: The patterns ruri registers begin with the ELF signature and have a mask byte for
  every magic byte; and the patterns of any two different architectures, without an exception,
  differ in a bit that both masks select, so they cannot fit the same file.  Two names have
  patterns that do not exclude each other only when they name the same architecture.\<close>

theorem magic_unambiguous:
  assumes "ruri_get_magic host_arch a = Inr (Some p)" "ruri_get_magic host_arch b = Inr (Some q)"
  shows "(map_option fst (find_arch a) = map_option fst (find_arch b) \<and> p = q \<or> exclusive p q)
    \<and> length (fst (decoded p)) = length (snd (decoded p)) \<and> take 4 (fst (decoded p)) = [127, 69, 76, 70]"
proof -
  obtain x g where x: "find_arch a = Some (x, g)" "(x, decoded p) \<in> set known_patterns" using magic_known[OF assms(1)] .
  obtain y g' where y: "find_arch b = Some (y, g')" "(y, decoded q) \<in> set known_patterns" using magic_known[OF assms(2)] .
  have "exclusive p q" if "x \<noteq> y"
    using all_pairsD[OF known_patterns_clash known_patterns_shape(2) x(2) y(2)] that clash_exclusive exclusive_sym
    unfolding exclusive_def by (auto split: prod.splits)
  moreover have "p = q" if "x = y"
    using assms x(1) y(1) that by (auto simp: ruri_get_magic_def split: if_splits)
  ultimately show ?thesis using x y known_patterns_shape(1) by (auto simp: list_all_iff)
qed

lemma magic_unambiguous_witness:
  "exclusive (arch_pattern ''riscv64'') (arch_pattern ''aarch64'')"
proof -
  have r: "ruri_get_magic ''x86_64'' ''riscv64'' = Inr (Some (arch_pattern ''riscv64''))" by code_simp
  have a: "ruri_get_magic ''x86_64'' ''arm64'' = Inr (Some (arch_pattern ''aarch64''))" by code_simp
  have "map_option fst (find_arch ''riscv64'') \<noteq> map_option fst (find_arch ''arm64'')" by code_simp
  then show ?thesis using magic_unambiguous[OF r a] by blast
qed

end
