(* ===== verification/Chroot.thy ===== *)
theory Chroot
  imports Watchdog Seccomp ElfMagic Caplist
begin

text \<open>
  chroot.c: what ruri does between the namespaces of a container and its command.  Each
  static function is a program over the calls of Sys; the two entry points
  ruri_run_chroot_container and ruri_run_rootless_chroot_container compose them in the
  order of the code.  The container is returned by the functions that change it.

  remove(3) and unlink(2) are both \<open>Remove\<close>; opening a file that is created is
  \<open>Create\<close>; closing one descriptor is not a call; the loops that close
  descriptors 3 to 10 are \<open>Close_fds\<close>; the sequence fstat, sendfile of
  copy_qemu_binary is \<open>Copy_file\<close>.  A successful execvp ends the program with
  \<open>Exited\<close>.
\<close>

section \<open>Sequences of calls\<close>

text \<open>Calls with the warning the code gives when they fail, if it looks at the result.\<close>

fun steps :: "world \<Rightarrow> (sys_call \<times> string option) list \<Rightarrow> unit prog" where
  "steps w [] = ret ()"
| "steps w ((c, None) # rest) = seq (run w c) (\<lambda>_. steps w rest)"
| "steps w ((c, Some msg) # rest) = seq (warned w c msg) (\<lambda>_. steps w rest)"

definition mode_all :: int where "mode_all = 511"
definition mode_read :: int where "mode_read = 292"
definition safe_mount :: mount_flags where "safe_mount = ms_nosuid OR ms_noexec OR ms_nodev"

abbreviation plain_call :: "sys_call \<Rightarrow> sys_call \<times> string option" where "plain_call c \<equiv> (c, None)"

definition dir_of :: "ruri_container \<Rightarrow> path" where "dir_of c = the (container_dir c)"

text \<open>snprintf into a buffer of PATH_MAX characters.\<close>

definition fit_path :: "path \<Rightarrow> (path \<Rightarrow> 'a prog) \<Rightarrow> 'a prog" where
  "fit_path p f = (if length p \<ge> path_max then die (Fatal ''QwQ? Why we are here?'') else f p)"

section \<open>Checks of binaries\<close>

definition regular_file :: "world \<Rightarrow> path \<Rightarrow> bool prog" where
  "regular_file w p =
     seq (call w (Open p)) (\<lambda>fd. if fd < 0 then ret False else ask (\<lambda>tr. w_is_regular w tr p))"

definition su_biany_exist :: "world \<Rightarrow> path \<Rightarrow> bool \<Rightarrow> bool prog" where
  "su_biany_exist w dir in_container =
     (if in_container then regular_file w ''/bin/su'' else fit_path (dir @ ''/bin/su'') (regular_file w))"

definition busybox_exists :: "world \<Rightarrow> path \<Rightarrow> bool prog" where
  "busybox_exists w dir = fit_path (dir @ ''/bin/busybox'') (regular_file w)"

definition umount_and_fail :: "host \<Rightarrow> ruri_container \<Rightarrow> string \<Rightarrow> unit prog" where
  "umount_and_fail h c msg =
     seq (ruri_umount_container (h_world h) (h_info h) (container_dir c)) (\<lambda>_. die (Fatal msg))"

definition check_binary :: "host \<Rightarrow> ruri_container \<Rightarrow> unit prog" where
  "check_binary h c =
     (if cross_arch c = None then ret ()
      else case qemu_path c of
        None \<Rightarrow> umount_and_fail h c ''Error: path of QEMU is not set QwQ''
      | Some q \<Rightarrow>
          if length (dir_of c @ q) \<ge> path_max then umount_and_fail h c ''Error: QEMU binary path is too long QwQ''
          else seq (ask (\<lambda>tr. w_lstat (h_world h) tr (dir_of c @ q)))
            (\<lambda>st. if st = None then umount_and_fail h c ''Please check if path of QEMU is correct QwQ'' else ret ()))"

section \<open>Systemd\<close>

definition hex_digit :: "nat \<Rightarrow> char" where "hex_digit n = ''0123456789abcdef'' ! (n mod 16)"

definition hex_byte :: "char \<Rightarrow> string" where
  "hex_byte b = (let n = (of_char b :: nat) in [hex_digit (n div 16), hex_digit n])"

text \<open>Sixteen bytes of /dev/urandom, or else 32 digits of rand() seeded with the id.\<close>

definition machine_id :: "host \<Rightarrow> int \<Rightarrow> string prog" where
  "machine_id h cid =
     seq (call (h_world h) (Open ''/dev/urandom''))
      (\<lambda>fd. ask (\<lambda>tr. case w_text (h_world h) tr ''/dev/urandom'' of
           Some bytes \<Rightarrow> if fd \<ge> 0 \<and> length bytes \<ge> 16 then concat (map hex_byte (take 16 bytes))
             else map (\<lambda>i. hex_digit (h_rand h cid i)) [0..<32]
         | None \<Rightarrow> map (\<lambda>i. hex_digit (h_rand h cid i)) [0..<32]))"

definition create_with :: "world \<Rightarrow> path \<Rightarrow> string list \<Rightarrow> bool prog" where
  "create_with w p texts =
     seq (call w (Create p))
      (\<lambda>fd. if fd \<ge> 0 then seq (run_all w (map (Write_to p) texts)) (\<lambda>_. ret True) else ret False)"

definition generate_machine_id :: "host \<Rightarrow> int \<Rightarrow> unit prog" where
  "generate_machine_id h cid =
     seq (machine_id h cid)
      (\<lambda>mid. seq (run_all (h_world h) [Remove ''/etc/machine-id'', Remove ''/etc/machine-id''])
        (\<lambda>_. seq (create_with (h_world h) ''/etc/machine-id'' [mid, [newline]]) (\<lambda>_. ret ())))"

definition prepare_systemd_cgroup_scope :: "world \<Rightarrow> ruri_container \<Rightarrow> unit prog" where
  "prepare_systemd_cgroup_scope w c =
     (let scope_dir = ''/sys/fs/cgroup/ruri-'' @ show_int (container_id c);
          scope_procs = scope_dir @ ''/cgroup.procs'' in
      seq (call w (Mkdir scope_dir 493))
       (\<lambda>r. if r < 0 \<and> r \<noteq> - eexist then warn_unless w False ''Warning: Failed to create systemd cgroup scope''
         else seq (call w (Open scope_procs))
          (\<lambda>fd. if fd < 0 then warn_unless w False ''Warning: Failed to open cgroup.procs''
            else seq (call w (Write_to scope_procs (line_of (show_int (w_pid w)))))
             (\<lambda>n. warn_unless w (\<not> n < 0) ''Warning: Failed to move systemd pid''))))"

definition tmpfs_64k :: "string option" where "tmpfs_64k = Some ''size=65536k,mode=755''"

definition systemd_mounts :: "sys_call list" where
  "systemd_mounts =
     [Mount ''tmpfs'' ''/run'' (Some ''tmpfs'') safe_mount tmpfs_64k,
      Mkdir ''/run/lock'' mode_all,
      Mount ''tmpfs'' ''/run/lock'' (Some ''tmpfs'') safe_mount tmpfs_64k,
      Mount ''tmpfs'' ''/tmp'' (Some ''tmpfs'') safe_mount tmpfs_64k,
      Mkdir ''/run/systemd'' mode_all, Mkdir ''/run/systemd/system'' mode_all,
      Remove ''/run/systemd/container'', Remove ''/run/systemd/container'']"

definition setup_systemd_runtime :: "host \<Rightarrow> ruri_container \<Rightarrow> unit prog" where
  "setup_systemd_runtime h c =
     (let w = h_world h in
      seq (run_all w systemd_mounts)
       (\<lambda>_. seq (create_with w ''/run/systemd/container'' [''ruri''])
         (\<lambda>ok. seq (warn_unless w ok ''Failed to setup /run/systemd/container'')
           (\<lambda>_. seq (run_all w [Mkdir ''/run/log'' mode_all, Mkdir ''/run/log/journal'' mode_all])
             (\<lambda>_. seq (warned w (Mkdir ''/run/dbus'' mode_all) ''Warning: Failed to create /run/dbus'')
               (\<lambda>_. seq (ask (\<lambda>tr. w_access w tr ''/var/run''))
                 (\<lambda>there. seq (if there then ret () else run w (Symlink ''/run'' ''/var/run''))
                   (\<lambda>_. generate_machine_id h (container_id c)))))))))"

section \<open>The runtime directories of a container\<close>

definition runtime_mounts :: "ruri_container \<Rightarrow> (sys_call \<times> string option) list" where
  "runtime_mounts c =
     (let fl = (if ro_root c then safe_mount OR ms_rdonly else safe_mount) in
      [plain_call (Mkdir ''/sys'' mode_rw), plain_call (Mkdir ''/proc'' mode_rw), plain_call (Mkdir ''/dev'' mode_rw),
       (Mount ''proc'' ''/proc'' (Some ''proc'') fl None, Some ''Warning: Failed to mount procfs''),
       (Mount ''sysfs'' ''/sys'' (Some ''sysfs'') fl None, Some ''Warning: Failed to mount sysfs''),
       (Mount ''tmpfs'' ''/dev'' (Some ''tmpfs'') ms_nosuid tmpfs_64k, Some ''Warning: Failed to mount devtmpfs'')])"

definition devpts_options :: string where
  "devpts_options = ''newinstance,gid=5,mode=620,ptmxmode=666,max=1024''"

definition devshm_options :: "string \<Rightarrow> ruri_container \<Rightarrow> string" where
  "devshm_options plain c = (case memory c of None \<Rightarrow> plain | Some m \<Rightarrow> ''size='' @ m @ '',mode=1777'')"

definition dev_mounts :: "ruri_container \<Rightarrow> (sys_call \<times> string option) list" where
  "dev_mounts c =
     [(Mkdir ''/dev/pts'' mode_rw, Some ''Warning: Failed to create /dev/pts''),
      (Mount ''devpts'' ''/dev/pts'' (Some ''devpts'') (ms_nosuid OR ms_noexec) (Some devpts_options),
         Some ''Warning: Failed to mount devpts''),
      (Mkdir ''/dev/shm'' mode_rw, Some ''Warning: Failed to create /dev/shm''),
      (Mount ''tmpfs'' ''/dev/shm'' (Some ''tmpfs'') safe_mount
         (Some (devshm_options ''size=65536k,mode=1777'' c)), Some ''Warning: Failed to mount /dev/shm''),
      (Mount ''binfmt_misc'' ''/proc/sys/fs/binfmt_misc'' (Some ''binfmt_misc'') 0 None,
         Some ''Warning: Failed to mount binfmt_misc'')]"

text \<open>A character device with its permissions.\<close>

definition char_dev :: "path \<Rightarrow> int \<Rightarrow> int \<Rightarrow> int \<Rightarrow> (sys_call \<times> string option) list" where
  "char_dev p major minor mode =
     [(Mknod p major minor, Some (''Warning: Failed to create '' @ p)), plain_call (Chmod p mode)]"

definition dev_nodes :: "ruri_container \<Rightarrow> (sys_call \<times> string option) list" where
  "dev_nodes c =
     char_dev ''/dev/full'' 1 7 mode_rw @ char_dev ''/dev/null'' 1 3 mode_rw @ char_dev ''/dev/zero'' 1 5 mode_rw
     @ [(Symlink ''/dev/pts/ptmx'' ''/dev/ptmx'', Some ''Warning: Failed to create /dev/ptmx''),
        plain_call (Chown ''/dev/ptmx'' 0 5), plain_call (Chmod ''/dev/ptmx'' mode_rw)]
     @ char_dev ''/dev/random'' 1 8 mode_read @ char_dev ''/dev/urandom'' 1 9 mode_read
     @ [(Mkdir ''/dev/net'' mode_rw, Some ''Warning: Failed to create /dev/net''),
        (Mknod ''/dev/net/tun'' 10 200, Some ''Warning: Failed to create /dev/net/tun'')]
     @ (if use_kvm c then char_dev ''/dev/kvm'' 10 232 mode_rw else [])"

definition dev_links :: "sys_call list" where
  "dev_links =
     [Symlink ''/proc/self/fd'' ''/dev/fd'', Symlink ''/proc/self/fd/0'' ''/dev/stdin'',
      Symlink ''/proc/self/fd/1'' ''/dev/stdout'', Symlink ''/proc/self/fd/2'' ''/dev/stderr'']
     @ concat (map (\<lambda>p. [Remove p, Remove p, Symlink ''/dev/null'' p])
         [''/dev/console'', ''/dev/tty0'', ''/dev/tty''])"

definition mask_tmpfs :: "path \<Rightarrow> sys_call" where
  "mask_tmpfs p = Mount ''tmpfs'' p (Some ''tmpfs'') ms_rdonly None"

definition mask_null :: "path \<Rightarrow> sys_call" where
  "mask_null p = Mount ''/dev/null'' p (Some '''') ms_bind None"

definition protect :: "path \<Rightarrow> sys_call list" where
  "protect p = [Mount p p None (ms_bind OR ms_rec) None, Mount p p None (ms_bind OR ms_rdonly OR ms_remount) None]"

definition protected_dirs :: "path list" where
  "protected_dirs = [''/proc/bus'', ''/proc/fs'', ''/proc/irq'', ''/proc/sys'', ''/proc/sys-trigger'']"

definition default_masks :: "ruri_container \<Rightarrow> sys_call list" where
  "default_masks c =
     map mask_tmpfs [''/proc/asound'', ''/proc/acpi'']
     @ map mask_null [''/proc/kcore'', ''/proc/keys'', ''/proc/latency_stats'', ''/proc/timer_list'',
         ''/proc/timer_stats'', ''/proc/sched_debug'', ''/proc/sysrq-trigger'']
     @ map mask_tmpfs [''/proc/scsi'', ''/sys/firmware'', ''/sys/devices/virtual/powercap'', ''/sys/block'',
         ''/sys/kernel/debug'', ''/sys/module'', ''/sys/class/net'']
     @ (if systemd_mode c then [] else [mask_tmpfs ''/sys/fs/cgroup''])
     @ concat (map protect protected_dirs)
     @ [Mount ''/dev/null'' ''/sys/class/tty/console/active'' None ms_bind None]"

definition mask_path :: "world \<Rightarrow> path \<Rightarrow> unit prog" where
  "mask_path w p =
     seq (call w (Mount ''tmpfs'' p (Some ''tmpfs'') (safe_mount OR ms_rdonly) None))
      (\<lambda>r1. seq (run w (Mount ''/dev/null'' p None ms_bind None))
        (\<lambda>_. seq (call w (Mount ''/dev/null'' p None (ms_bind OR ms_remount OR ms_rdonly) None))
          (\<lambda>r2. warn_unless w (r1 = 0 \<or> r2 = 0) ''Warning: Failed to mask as read-only'')))"

definition init_container :: "host \<Rightarrow> ruri_container \<Rightarrow> ruri_container prog" where
  "init_container h c =
     (let w = h_world h in
      seq (ask (\<lambda>tr. w_is_proc w tr ''/proc''))
       (\<lambda>proc_mounted. if proc_mounted then ret (c\<lparr>first_init := False\<rparr>)
         else seq (steps w (runtime_mounts c))
          (\<lambda>_. seq (steps w (dev_mounts c))
            (\<lambda>_. seq (steps w (dev_nodes c))
              (\<lambda>_. seq (run_all w dev_links)
                (\<lambda>_. seq (if systemd_mode c then setup_systemd_runtime h c else ret ())
                  (\<lambda>_. seq (if unmask_dirs c then ret () else run_all w (default_masks c))
                    (\<lambda>_. seq (for_each (mask_path w) (masked_path c))
                      (\<lambda>_. ret (c\<lparr>first_init := True\<rparr>))))))))))"

section \<open>Devices, host directories, environment\<close>

definition uint_of :: "int \<Rightarrow> int" where "uint_of i = i mod 2 ^ 32"

text \<open>The triples of char_devs; an incomplete one makes atoi read NULL.\<close>

fun make_char_devs :: "world \<Rightarrow> string list \<Rightarrow> unit prog" where
  "make_char_devs w (dev # major # minor # rest) =
     seq (ruri_mkdirs w dev mode_rw)
      (\<lambda>_. seq (run w (Rmdir dev))
        (\<lambda>_. seq (warned w (Mknod dev (uint_of (atoi major)) (uint_of (atoi minor)))
              ''Warning: Failed to create char device'')
          (\<lambda>_. seq (run w (Chmod dev mode_rw)) (\<lambda>_. make_char_devs w rest))))"
| "make_char_devs w [] = ret ()"
| "make_char_devs w (dev # rest) =
     seq (ruri_mkdirs w dev mode_rw)
      (\<lambda>_. seq (run w (Rmdir dev)) (\<lambda>_. die (Undefined ''atoi of NULL'')))"

definition mk_char_devs :: "world \<Rightarrow> ruri_container \<Rightarrow> unit prog" where
  "mk_char_devs w c =
     seq (call w (Chdir ''/dev''))
      (\<lambda>r. if r < 0 then
          (if char_devs c = [] then ret ()
           else warn_unless w False ''Warning: Failed to chdir(2) to /dev, will not create char devices.'')
        else seq (make_char_devs w (char_devs c))
          (\<lambda>_. seq (run w (Chdir ''/''))
            (\<lambda>_. case work_dir c of None \<Rightarrow> ret () | Some d \<Rightarrow> run w (Chdir d))))"

definition mount_host_dirs :: "world \<Rightarrow> ruri_container \<Rightarrow> unit prog" where
  "mount_host_dirs w c =
     (let d = dir_of c in
      fit_path (d @ ''/dev'') (\<lambda>dev. seq (run w (Mount ''/dev'' dev None ms_bind None))
       (\<lambda>_. fit_path (d @ ''/proc'') (\<lambda>proc. seq (run w (Mount ''/proc'' proc None ms_bind None))
        (\<lambda>_. fit_path (d @ ''/sys'') (\<lambda>sys. seq (run w (Mount ''/sys'' sys None ms_bind None))
         (\<lambda>_. fit_path (d @ ''/proc/sys/fs/binfmt_misc'')
           (\<lambda>misc. seq (run w (Mount ''binfmt_misc'' misc (Some ''binfmt_misc'') 0 None))
          (\<lambda>_. fit_path (d @ ''/dev/pts'') (\<lambda>pts. seq (run_all w [Mkdir pts mode_rw,
              Mount ''/dev/pts'' pts (Some ''none'') ms_bind None])
           (\<lambda>_. fit_path (d @ ''/dev/shm'') (\<lambda>shm. run_all w [Mkdir shm mode_rw,
              Mount ''tmpfs'' shm (Some ''tmpfs'') safe_mount (Some (devshm_options ''mode=1777'' c))]))))))))))))"

fun set_env_pairs :: "string list \<Rightarrow> sys_call list" where
  "set_env_pairs (k # v # rest) = Setenv k v # set_env_pairs rest"
| "set_env_pairs es = []"

definition set_envs :: "world \<Rightarrow> ruri_container \<Rightarrow> unit prog" where
  "set_envs w c =
     run_all w ([Setenv ''PATH'' ''/usr/local/sbin:/usr/local/bin:/usr/sbin:/usr/bin:/sbin:/bin'',
       Setenv ''TMPDIR'' ''/tmp'', Setenv ''SHELL'' ''sh'', Setenv ''container'' ''ruri'']
       @ set_env_pairs (env_list c))"

text \<open>The line registered with binfmt_misc.\<close>

definition binfmt_line :: "int \<Rightarrow> string \<times> string \<Rightarrow> string \<Rightarrow> string" where
  "binfmt_line cid magic qemu =
     '':ruri-'' @ show_int cid @ '':M:0:'' @ fst magic @ '':'' @ snd magic @ '':'' @ qemu @ '':PCF''"

definition binfmt_register :: path where "binfmt_register = ''/proc/sys/fs/binfmt_misc/register''"

definition umount_binfmt :: sys_call where
  "umount_binfmt = Umount ''/proc/sys/fs/binfmt_misc'' (mnt_detach OR mnt_force)"

definition setup_binfmt_misc :: "host \<Rightarrow> ruri_container \<Rightarrow> unit prog" where
  "setup_binfmt_misc h c =
     (let w = h_world h in
      seq (lift_result (ruri_get_magic (h_arch h) (the (cross_arch c))))
       (\<lambda>magic. case magic of
          None \<Rightarrow> die (Fatal ''Error: unknown architecture or same architecture as host'')
        | Some m \<Rightarrow> (case qemu_path c of
             None \<Rightarrow> die (Undefined ''NULL for a %s conversion'')
           | Some q \<Rightarrow>
               if length (binfmt_line (container_id c) m q) \<ge> 1024
               then die (Fatal ''Error: binfmt_misc registration string is too long QwQ'')
               else seq (call w (Open binfmt_register))
                (\<lambda>fd. if fd < 0 then die (Fatal ''Error: Failed to setup binfmt_misc, check your kernel config QwQ'')
                  else run_all w [Write_to binfmt_register (binfmt_line (container_id c) m q), umount_binfmt]))))"

section \<open>The file systems of a container\<close>

definition mount_rootfs :: "world \<Rightarrow> ruri_container \<Rightarrow> unit prog" where
  "mount_rootfs w c =
     (case rootfs_source c of None \<Rightarrow> ret ()
      | Some src \<Rightarrow> seq (ruri_trymount w src (dir_of c) 0)
          (\<lambda>r. panic_unless (r = 0) ''Error: failed to mount rootfs QwQ''))"

fun mount_pairs :: "world \<Rightarrow> path \<Rightarrow> mount_flags \<Rightarrow> string list \<Rightarrow> unit prog" where
  "mount_pairs w dir fl (src # target # rest) =
     seq (ruri_trymount w src (dir @ target) fl)
      (\<lambda>r. seq (warn_unless w (r = 0) ''Warning: Failed to mount, will continue.'')
        (\<lambda>_. mount_pairs w dir fl rest))"
| "mount_pairs w dir fl ms = ret ()"

definition bind_self :: "ruri_container \<Rightarrow> sys_call" where
  "bind_self c = Mount (dir_of c) (dir_of c) None (ms_bind OR ms_rec) None"

definition mount_mountpoints :: "world \<Rightarrow> ruri_container \<Rightarrow> unit prog" where
  "mount_mountpoints w c =
     seq (if \<not> rootless c \<and> rootfs_source c = None then run w (bind_self c) else ret ())
      (\<lambda>_. seq (mount_pairs w (dir_of c) 0 (extra_mountpoint c))
        (\<lambda>_. seq (mount_pairs w (dir_of c) ms_rdonly (extra_ro_mountpoint c))
          (\<lambda>_. if rootfs_source c \<noteq> None then run w (bind_self c) else ret ())))"

definition copy_qemu :: "world \<Rightarrow> path \<Rightarrow> path \<Rightarrow> unit prog" where
  "copy_qemu w source target =
     seq (run_all w [Remove target, Remove target, Rmdir target])
      (\<lambda>_. seq (call w (Open source))
        (\<lambda>sfd. if sfd < 0 then die (Fatal ''Error: failed to open qemu binary QwQ'')
          else seq (call w (Create target))
            (\<lambda>tfd. if tfd < 0 then die (Fatal ''Error: failed to create qemu binary in container QwQ'')
              else seq (call w (Copy_file source target))
                (\<lambda>n. if n < 0 then die (Fatal ''Error: failed to copy qemu binary QwQ'')
                  else run w (Chmod target 365)))))"

definition copy_qemu_binary :: "world \<Rightarrow> ruri_container \<Rightarrow> ruri_container prog" where
  "copy_qemu_binary w c =
     (case qemu_path c of None \<Rightarrow> ret c
      | Some q \<Rightarrow> seq (ask (\<lambda>tr. w_realpath w tr q))
          (\<lambda>p. case p of None \<Rightarrow> ret c
           | Some source \<Rightarrow>
               if length (dir_of c @ ''/qemu-ruri'') \<ge> path_max
               then die (Fatal ''Error: container directory path is too long QwQ'')
               else seq (copy_qemu w source (dir_of c @ ''/qemu-ruri''))
                 (\<lambda>_. ret (c\<lparr>qemu_path := Some ''/qemu-ruri''\<rparr>))))"

section \<open>Entering the root directory\<close>

text \<open>The result is always 0: the fallback of the caller never runs.\<close>

definition try_pivot_root :: "world \<Rightarrow> ruri_container \<Rightarrow> int prog" where
  "try_pivot_root w c =
     (if ns_pid c > 0 then seq (run w (Chdir ''/'')) (\<lambda>_. ret 0)
      else seq (run_all w [Chdir (dir_of c), Mount ''none'' ''/'' None (ms_rec OR ms_private) None, Chdir (dir_of c)])
        (\<lambda>_. seq (call w Pivot_root)
          (\<lambda>r. if r \<noteq> 0 then die (Fatal ''pivot_root() failed, unshare container will not work.'')
            else seq (run_all w [Chdir ''/'', Umount ''.'' mnt_detach]) (\<lambda>_. ret 0))))"

definition chroot_into :: "world \<Rightarrow> path \<Rightarrow> unit prog" where
  "chroot_into w dir =
     seq (call w (Chdir dir))
      (\<lambda>r. if r \<noteq> 0 then die (Fatal ''Error: failed to change directory to container dir QwQ'')
        else seq (call w (Chroot ''.''))
          (\<lambda>r. if r < 0 then die (Fatal ''Error: chroot(2) failed QwQ'') else run w (Chdir ''/'')))"

definition enter_root :: "world \<Rightarrow> ruri_container \<Rightarrow> unit prog" where
  "enter_root w c =
     (if \<not> enable_unshare c then chroot_into w (dir_of c)
      else seq (try_pivot_root w c) (\<lambda>r. if r = -1 then chroot_into w (dir_of c) else ret ()))"

definition enter_work_dir :: "world \<Rightarrow> ruri_container \<Rightarrow> unit prog" where
  "enter_work_dir w c =
     (case work_dir c of None \<Rightarrow> ret ()
      | Some d \<Rightarrow> seq (call w (Chdir d)) (\<lambda>r. warn_unless w (\<not> r < 0) ''Warning: Failed to change to work dir''))"

section \<open>Privileges\<close>

fun drop_each :: "host \<Rightarrow> int list \<Rightarrow> unit prog" where
  "drop_each h [] = ret ()"
| "drop_each h (cap # caps) =
     (if h_cap_supported h cap
      then seq (warned (h_world h) (Drop_bounding cap) ''Warning: Failed to drop cap'')
        (\<lambda>_. seq (run (h_world h) (Drop_ambient cap)) (\<lambda>_. drop_each h caps))
      else drop_each h caps)"

definition drop_capabilities :: "host \<Rightarrow> ruri_container \<Rightarrow> unit prog" where
  "drop_capabilities h c =
     seq (drop_each h (caps_of (drop_caplist c))) (\<lambda>_. seq (run (h_world h) Capget) (\<lambda>_. run (h_world h) Capset_no_inheritable))"

definition id_of :: "string \<Rightarrow> uid" where "id_of s = word_of_int (atoi s)"

text \<open>A call whose failure ends the program, and one whose failure is a warning.\<close>

definition must :: "world \<Rightarrow> sys_call \<Rightarrow> string \<Rightarrow> unit prog" where
  "must w c msg = seq (call w c) (\<lambda>r. panic_unless (r = 0) msg)"

definition user_without_groups :: "world \<Rightarrow> string \<Rightarrow> unit prog" where
  "user_without_groups w u =
     (if atoi u > 0
      then seq (must w (Setgid (id_of u)) ''Error: failed to set gid QwQ'')
        (\<lambda>_. seq (must w (Setuid (id_of u)) ''Error: failed to set uid QwQ'')
          (\<lambda>_. must w (Setgroups [id_of u]) ''Error: failed to set groups QwQ''))
      else die (Fatal ''Skip-setgroups is set, but user is not a uid number QwQ''))"

definition user_by_number :: "host \<Rightarrow> string \<Rightarrow> unit prog" where
  "user_by_number h u =
     (let w = h_world h in
      seq (lift_result (ruri_get_groups (w_force_panic w) (h_etc h) (id_of u)))
       (\<lambda>groups. seq (must w (Setgroups (if groups \<noteq> [] then groups else [id_of u])) ''Error: failed to set groups QwQ'')
         (\<lambda>_. seq (must w (Setgid (id_of u)) ''Error: failed to set gid QwQ'')
           (\<lambda>_. must w (Setuid (id_of u)) ''Error: failed to set uid QwQ''))))"

definition user_by_name :: "host \<Rightarrow> string \<Rightarrow> unit prog" where
  "user_by_name h u =
     (let w = h_world h in
      seq (lift_result (ruri_user_exist (etc_passwd (h_etc h)) u))
       (\<lambda>exists. if \<not> exists then
           (if u = ''root'' then ret () else die (Fatal ''Error: user does not exist QwQ''))
         else seq (lift_result (ruri_get_user_uid (etc_passwd (h_etc h)) u))
          (\<lambda>(user_uid, e1). seq (lift_result (ruri_get_user_gid (etc_passwd (h_etc h)) u))
            (\<lambda>(user_gid, e2). if e2 \<noteq> 0 then warn_unless w False ''Warning: failed to get user info''
              else seq (lift_result (ruri_get_groups (w_force_panic w) (h_etc h) user_uid))
               (\<lambda>groups. seq (warned w (Setgroups (if groups \<noteq> [] then groups else [user_uid]))
                    ''Warning: failed to set groups QwQ'')
                 (\<lambda>_. seq (warned w (Setgid user_gid) ''Warning: failed to set gid QwQ'')
                   (\<lambda>_. warned w (Setuid user_uid) ''Warning: failed to set uid QwQ'')))))))"

definition change_user :: "host \<Rightarrow> ruri_container \<Rightarrow> unit prog" where
  "change_user h c =
     seq (run (h_world h) (Setgroups []))
      (\<lambda>_. if skip_setgroups c then
          (case user c of None \<Rightarrow> ret () | Some u \<Rightarrow> user_without_groups (h_world h) u)
        else (let u = (case user c of None \<Rightarrow> ''root'' | Some u \<Rightarrow> u) in
          if atoi u > 0 then user_by_number h u else user_by_name h u))"

definition host_name_max :: nat where "host_name_max = 64"

definition set_hostname :: "world \<Rightarrow> ruri_container \<Rightarrow> unit prog" where
  "set_hostname w c =
     (case hostname c of None \<Rightarrow> ret ()
      | Some n \<Rightarrow> if \<not> enable_unshare c then ret ()
          else if length n > host_name_max then die (Fatal ''Error: hostname is too long QwQ'')
          else run w (Sethostname n))"

definition hide_pids :: "world \<Rightarrow> int \<Rightarrow> unit prog" where
  "hide_pids w st =
     (if st = 1 then run w (Mount ''none'' ''/proc'' (Some ''proc'') ms_remount (Some ''hidepid=1''))
      else if st = 2 then run w (Mount ''none'' ''/proc'' (Some ''proc'') ms_remount (Some ''hidepid=2''))
      else ret ())"

definition set_oom_score :: "world \<Rightarrow> int \<Rightarrow> unit prog" where
  "set_oom_score w score =
     (if score < -1000 \<or> score > 1000 then die (Fatal ''Error: OOM score must be between -1000 and 1000 QwQ'')
      else if score = 0 then ret ()
      else let p = ''/proc/'' @ show_int (w_pid w) @ ''/oom_score_adj'' in
        seq (call w (Open p))
         (\<lambda>fd. if fd < 0 then die (Fatal ''Error: failed to open oom_score_adj QwQ'')
           else run w (Write_to p (show_int score))))"

section \<open>Running a container\<close>

text \<open>The calls on the file .rurienv, recorded by the functions of rurienv.c.\<close>

fun file_call :: "path \<Rightarrow> file_op \<Rightarrow> sys_call" where
  "file_call f (Umount_detach p) = Umount p (mnt_detach OR mnt_force)"
| "file_call f (Open_read p) = Open p"
| "file_call f (Set_immutable b) = Chattr_immutable f b"
| "file_call f (Remove_file p) = Remove p"
| "file_call f (Create_trunc p) = Create p"
| "file_call f (Write_text t) = Write_to f t"
| "file_call f (Bind_self p) = Mount p p None (ms_bind OR ms_rec) None"
| "file_call f (Remount_ro p) = Mount p p None (ms_remount OR ms_rdonly OR ms_bind) None"

definition file_calls :: "host \<Rightarrow> ruri_container \<Rightarrow> file_op list \<Rightarrow> unit prog" where
  "file_calls h c ops = run_all (h_world h) (map (file_call (dir_of c @ ''/.rurienv'')) ops)"

definition store_info :: "host \<Rightarrow> ruri_container \<Rightarrow> unit prog" where
  "store_info h c =
     seq (lift_result (ruri_store_info (h_cap_name h) (re_opens (h_info h)) c)) (file_calls h c)"

definition sync_info :: "host \<Rightarrow> ruri_container \<Rightarrow> ruri_container prog" where
  "sync_info h c =
     seq (lift_result (ruri_read_info (h_info h) (Some c) (dir_of c)))
       (\<lambda>(c', ops). seq (file_calls h c ops) (\<lambda>_. ret c'))"

definition check_container_dir :: "world \<Rightarrow> ruri_container \<Rightarrow> unit prog" where
  "check_container_dir w c =
     (case container_dir c of
        None \<Rightarrow> die (Fatal ''Error: container directory does not exist QwQ'')
      | Some d \<Rightarrow> seq (ask (\<lambda>tr. w_is_dir w tr d))
          (\<lambda>ok. panic_unless ok ''Error: container directory does not exist QwQ''))"

definition remount_ro :: "ruri_container \<Rightarrow> sys_call" where
  "remount_ro c = Mount (dir_of c) (dir_of c) None (ms_bind OR ms_remount OR ms_rdonly) None"

definition run_if :: "world \<Rightarrow> bool \<Rightarrow> sys_call \<Rightarrow> unit prog" where
  "run_if w b c = (if b then run w c else ret ())"

definition prepare_root :: "host \<Rightarrow> ruri_container \<Rightarrow> ruri_container prog" where
  "prepare_root h c =
     (let w = h_world h in
      seq (mount_rootfs w c)
       (\<lambda>_. seq (mount_mountpoints w c)
         (\<lambda>_. seq (copy_qemu_binary w c)
           (\<lambda>c1. seq (if \<not> enable_unshare c1 \<and> \<not> just_chroot c1 \<and> use_rurienv c1 then store_info h c1 else ret ())
             (\<lambda>_. seq (if mount_host_runtime c1 \<and> \<not> just_chroot c1 then mount_host_dirs w c1 else ret ())
               (\<lambda>_. seq (run_if w (ro_root c1) (remount_ro c1)) (\<lambda>_. ret c1)))))))"

definition setup_root :: "host \<Rightarrow> ruri_container \<Rightarrow> ruri_container prog" where
  "setup_root h c =
     (if enable_unshare c \<and> \<not> first_init c then ret c
      else if length (dir_of c @ ''/proc'') \<ge> path_max
      then die (Fatal ''Error: container directory path is too long QwQ'')
      else seq (ask (\<lambda>tr. w_is_proc (h_world h) tr (dir_of c @ ''/proc'')))
       (\<lambda>proc_mounted. if proc_mounted then (if use_rurienv c then sync_info h c else ret c)
         else if is_health_check c
         then die (Fatal ''Error: health check should not run before container is initialized QwQ'')
         else prepare_root h c))"

definition default_command :: "host \<Rightarrow> ruri_container \<Rightarrow> ruri_container prog" where
  "default_command h c =
     (if command c \<noteq> [] then ret c
      else seq (su_biany_exist (h_world h) (dir_of c) (enable_unshare c \<and> \<not> first_init c))
       (\<lambda>su. ret (c\<lparr>command := (if su \<and> user c = None then [''/bin/su'', ''-''] else [''/bin/sh''])\<rparr>)))"

text \<open>Everything before the root directory changes.\<close>

definition before_root :: "host \<Rightarrow> ruri_container \<Rightarrow> ruri_container prog" where
  "before_root h c =
     (let w = h_world h in
      seq (check_container_dir w c)
       (\<lambda>_. seq (set_hostname w c)
         (\<lambda>_. seq (run_if w (\<not> enable_tty_signals c) Block_tty_signals)
           (\<lambda>_. seq (setup_root h c)
             (\<lambda>c1. seq (default_command h c1)
               (\<lambda>c2. seq (check_binary h c2)
                 (\<lambda>_. seq (if \<not> enable_unshare c2 then ruri_set_limit w c2 else ret ())
                   (\<lambda>_. seq (run w Close_fds) (\<lambda>_. ret c2)))))))))"

definition fix_mtab :: "sys_call list" where
  "fix_mtab = [Remove ''/etc/mtab'', Remove ''/etc/mtab'', Symlink ''/proc/mounts'' ''/etc/mtab'']"

definition systemd_cgroup :: "world \<Rightarrow> ruri_container \<Rightarrow> unit prog" where
  "systemd_cgroup w c =
     (let um = Umount ''/sys/fs/cgroup'' (mnt_detach OR mnt_force) in
      seq (run_all w [um, um, um, Mkdir ''/sys/fs/cgroup'' 493])
       (\<lambda>_. seq (call w (Mount ''cgroup2'' ''/sys/fs/cgroup'' (Some ''cgroup2'')
            (ms_nosuid OR ms_nodev OR ms_noexec OR ms_relatime) None))
         (\<lambda>r. if r < 0 then warn_unless w False ''Warning: Failed to mount cgroup2''
           else prepare_systemd_cgroup_scope w c)))"

definition score_unless_zero :: "world \<Rightarrow> int \<Rightarrow> unit prog" where
  "score_unless_zero w score = (if score \<noteq> 0 then set_oom_score w score else ret ())"

text \<open>Inside the new root directory, before the restrictions.\<close>

definition inside_root :: "host \<Rightarrow> ruri_container \<Rightarrow> ruri_container prog" where
  "inside_root h c =
     (let w = h_world h in
      seq (enter_work_dir w c)
       (\<lambda>_. seq (if just_chroot c then ret c else init_container h c)
         (\<lambda>c1. seq (hide_pids w (hidepid c1))
           (\<lambda>_. seq (if just_chroot c1 then ret () else run_all w fix_mtab)
             (\<lambda>_. seq (if cross_arch c1 \<noteq> None then setup_binfmt_misc h c1 else ret ())
               (\<lambda>_. seq (run w umount_binfmt)
                 (\<lambda>_. seq (if enable_unshare c1 \<and> first_init c1 \<and> systemd_mode c1 then systemd_cgroup w c1 else ret ())
                   (\<lambda>_. seq (if char_devs c1 \<noteq> [] then mk_char_devs w c1 else ret ())
                     (\<lambda>_. seq (score_unless_zero w (oom_score_adj c1)) (\<lambda>_. ret c1))))))))))"

text \<open>The restrictions, the same in both entry points.\<close>

definition restrict_process :: "host \<Rightarrow> ruri_container \<Rightarrow> unit prog" where
  "restrict_process h c =
     (let w = h_world h in
      seq (ruri_setup_seccomp w c)
       (\<lambda>_. seq (drop_capabilities h c)
         (\<lambda>_. seq (set_envs w c)
           (\<lambda>_. seq (run_if w (no_new_privs c) No_new_privs)
             (\<lambda>_. seq (run_if w (\<not> systemd_mode c) Lock_ambient)
               (\<lambda>_. change_user h c))))))"

definition exec_command :: "host \<Rightarrow> ruri_container \<Rightarrow> unit prog" where
  "exec_command h c =
     seq (call (h_world h) (Exec (command c)))
      (\<lambda>r. if r < 0 then seq (ruri_pid_file_write h Req_panic_exec 0) (\<lambda>_. die (Fatal ''Failed to execute''))
        else die (Exited ''exec''))"

definition start_command :: "host \<Rightarrow> ruri_container \<Rightarrow> unit prog" where
  "start_command h c =
     (let w = h_world h in
      seq (run w Close_fds)
       (\<lambda>_. seq (panic_unless (\<not> (systemd_mode c \<and> first_init c \<and> w_pid w \<noteq> 1))
              ''Error: systemd mode requires the container to be init process (PID 1) QwQ'')
         (\<lambda>_. seq (if \<not> enable_unshare c then ruri_pid_file_write h Req_pid (w_pid w) else ret ())
           (\<lambda>_. seq (if fork_as_init c then ruri_fork_as_init h else ret ())
             (\<lambda>_. exec_command h c)))))"

definition ruri_run_chroot_container :: "host \<Rightarrow> ruri_container \<Rightarrow> unit prog" where
  "ruri_run_chroot_container h c =
     seq (before_root h c)
      (\<lambda>c1. seq (enter_root (h_world h) c1)
        (\<lambda>_. seq (inside_root h c1)
          (\<lambda>c2. seq (restrict_process h c2) (\<lambda>_. start_command h c2))))"

section \<open>Rootless\<close>

definition rootless_command :: "host \<Rightarrow> ruri_container \<Rightarrow> ruri_container prog" where
  "rootless_command h c =
     (if command c \<noteq> [] then ret c
      else seq (su_biany_exist (h_world h) (dir_of c) (enable_unshare c \<and> \<not> first_init c))
       (\<lambda>su. if su \<and> user c = None then ret (c\<lparr>command := [''/bin/su'', ''-'']\<rparr>)
         else seq (busybox_exists (h_world h) (dir_of c))
          (\<lambda>bb. ret (c\<lparr>command := (if bb then [''/bin/busybox'', ''sh''] else [''/bin/sh''])\<rparr>))))"

definition before_rootless :: "host \<Rightarrow> ruri_container \<Rightarrow> ruri_container prog" where
  "before_rootless h c =
     (let w = h_world h in
      seq (run_if w (\<not> enable_tty_signals c) Block_tty_signals)
       (\<lambda>_. seq (mount_rootfs w c)
         (\<lambda>_. seq (mount_mountpoints w c)
           (\<lambda>_. seq (copy_qemu_binary w c)
             (\<lambda>c1. seq (run_if w (ro_root c1) (remount_ro c1))
               (\<lambda>_. seq (rootless_command h c1)
                 (\<lambda>c2. seq (check_binary h c2)
                   (\<lambda>_. seq (run w Close_fds) (\<lambda>_. ret c2)))))))))"

definition enter_rootless :: "world \<Rightarrow> ruri_container \<Rightarrow> unit prog" where
  "enter_rootless w c =
     seq (run w (Chdir (dir_of c)))
      (\<lambda>_. seq (call w (Chroot ''.''))
        (\<lambda>r. if r < 0 then die (Fatal ''Error: failed to chroot(2) into container QwQ'') else run w (Chdir ''/'')))"

definition inside_rootless :: "host \<Rightarrow> ruri_container \<Rightarrow> unit prog" where
  "inside_rootless h c =
     (let w = h_world h in
      seq (enter_work_dir w c)
       (\<lambda>_. seq (if just_chroot c then ret () else run_all w fix_mtab)
         (\<lambda>_. seq (hide_pids w (hidepid c))
           (\<lambda>_. seq (if cross_arch c \<noteq> None then setup_binfmt_misc h c else ret ())
             (\<lambda>_. score_unless_zero w (oom_score_adj c))))))"

definition start_rootless :: "host \<Rightarrow> ruri_container \<Rightarrow> unit prog" where
  "start_rootless h c =
     seq (run (h_world h) Close_fds)
      (\<lambda>_. seq (if fork_as_init c then ruri_fork_as_init h else ret ()) (\<lambda>_. exec_command h c))"

definition ruri_run_rootless_chroot_container :: "host \<Rightarrow> ruri_container \<Rightarrow> unit prog" where
  "ruri_run_rootless_chroot_container h c =
     seq (before_rootless h c)
      (\<lambda>c1. seq (enter_rootless (h_world h) c1)
        (\<lambda>_. seq (inside_rootless h c1)
          (\<lambda>_. seq (restrict_process h c1) (\<lambda>_. start_rootless h c1))))"

end
