(* ===== verification/Trace_Logic.thy ===== *)
theory Trace_Logic
  imports Sys
begin

text \<open>
  Reasoning about what has happened when a program returns.  \<open>triple P p Q\<close> is
  partial correctness over the trace: if the calls so far satisfy P and p returns v, then
  the calls so far satisfy \<open>Q v\<close>; its rules follow the structure of a program.  A
  \<open>lasting\<close> fact stays true whatever is called afterwards, so every program keeps
  it.  \<open>guards P p N\<close> says that p, started when P holds, executes a command only
  when N holds of the calls made before.
\<close>

section \<open>Triples\<close>

definition triple :: "(sys_call list \<Rightarrow> bool) \<Rightarrow> 'a prog \<Rightarrow> ('a \<Rightarrow> sys_call list \<Rightarrow> bool) \<Rightarrow> bool" where
  "triple P p Q = (\<forall>tr v tr'. P tr \<longrightarrow> p tr = (Inr v, tr') \<longrightarrow> Q v tr')"

named_theorems triple_intros

lemma tripleD: "triple P p Q \<Longrightarrow> P tr \<Longrightarrow> p tr = (Inr v, tr') \<Longrightarrow> Q v tr'"
  by (auto simp: triple_def)

lemma triple_ret [triple_intros]: "(\<And>tr. P tr \<Longrightarrow> Q v tr) \<Longrightarrow> triple P (ret v) Q"
  by (simp add: triple_def)

lemma triple_die [triple_intros]: "triple P (die e) Q"
  by (simp add: triple_def)

lemma triple_call [triple_intros]: "(\<And>tr. P tr \<Longrightarrow> Q (w_ret w tr c) (tr @ [c])) \<Longrightarrow> triple P (call w c) Q"
  by (simp add: triple_def)

lemma triple_run [triple_intros]: "(\<And>tr. P tr \<Longrightarrow> Q () (tr @ [c])) \<Longrightarrow> triple P (run w c) Q"
  by (simp add: triple_def)

lemma triple_ask [triple_intros]: "(\<And>tr. P tr \<Longrightarrow> Q (q tr) tr) \<Longrightarrow> triple P (ask q) Q"
  by (simp add: triple_def)

lemma triple_seq: "triple P p Q \<Longrightarrow> (\<And>v. triple (Q v) (f v) R) \<Longrightarrow> triple P (seq p f) R"
  unfolding triple_def seq_Inr by blast

lemma triple_if: "(b \<Longrightarrow> triple P p Q) \<Longrightarrow> (\<not> b \<Longrightarrow> triple P q Q) \<Longrightarrow> triple P (if b then p else q) Q"
  by simp

lemma triple_option:
  "(v = None \<Longrightarrow> triple P p Q) \<Longrightarrow> (\<And>x. v = Some x \<Longrightarrow> triple P (q x) Q) \<Longrightarrow>
   triple P (case v of None \<Rightarrow> p | Some x \<Rightarrow> q x) Q"
  by (cases v) auto

lemma triple_conseq:
  "triple P p Q \<Longrightarrow> (\<And>tr. P' tr \<Longrightarrow> P tr) \<Longrightarrow> (\<And>v tr. Q v tr \<Longrightarrow> Q' v tr) \<Longrightarrow> triple P' p Q'"
  unfolding triple_def by blast

lemma triple_post: "triple P p Q \<Longrightarrow> (\<And>v tr. Q v tr \<Longrightarrow> Q' v tr) \<Longrightarrow> triple P p Q'"
  unfolding triple_def by blast

lemma triple_conj: "triple P p Q \<Longrightarrow> triple P p Q' \<Longrightarrow> triple P p (\<lambda>v tr. Q v tr \<and> Q' v tr)"
  unfolding triple_def by blast

lemma triple_any: "triple P p (\<lambda>_ _. True)"
  by (simp add: triple_def)

lemma triple_lift: "(\<And>v tr. P tr \<Longrightarrow> r = Inr v \<Longrightarrow> Q v tr) \<Longrightarrow> triple P (lift_result r) Q"
  by (cases r) (auto simp: triple_def lift_result_def)

lemma triple_run_all: "(\<And>tr. P tr \<Longrightarrow> Q (tr @ cs)) \<Longrightarrow> triple P (run_all w cs) (\<lambda>_. Q)"
  by (simp add: triple_def)

section \<open>Facts that stay\<close>

definition lasting :: "(sys_call list \<Rightarrow> bool) \<Rightarrow> bool" where
  "lasting F = (\<forall>tr cs. F tr \<longrightarrow> F (tr @ cs))"

text \<open>The calls were made one after the other, with F holding just before; one call was
  made, and made with success.\<close>

definition happened :: "(sys_call list \<Rightarrow> bool) \<Rightarrow> sys_call list \<Rightarrow> sys_call list \<Rightarrow> bool" where
  "happened F cs tr = (\<exists>pre post. tr = pre @ cs @ post \<and> F pre)"

definition made_when :: "(sys_call list \<Rightarrow> bool) \<Rightarrow> sys_call \<Rightarrow> sys_call list \<Rightarrow> bool" where
  "made_when F c = happened F [c]"

definition succeeded :: "world \<Rightarrow> sys_call \<Rightarrow> sys_call list \<Rightarrow> bool" where
  "succeeded w c = made_when (\<lambda>pre. w_ret w pre c = 0) c"

lemma lasting_intros [intro]:
  "lasting (\<lambda>tr. c \<in> set tr)" "lasting (\<lambda>tr. True)" "lasting (\<lambda>tr. b)"
  "lasting F \<Longrightarrow> lasting G \<Longrightarrow> lasting (\<lambda>tr. F tr \<and> G tr)"
  "(\<And>x. x \<in> S \<Longrightarrow> lasting (H x)) \<Longrightarrow> lasting (\<lambda>tr. \<forall>x\<in>S. H x tr)"
  "(b' \<Longrightarrow> lasting F') \<Longrightarrow> lasting (\<lambda>tr. b' \<longrightarrow> F' tr)"
  by (auto simp: lasting_def)

lemma lasting_happened [intro]: "lasting (happened F cs)"
  unfolding lasting_def happened_def by (metis append.assoc)

lemma lasting_made_when [intro]: "lasting (made_when F c)"
  unfolding made_when_def by (rule lasting_happened)

lemma lasting_succeeded [intro]: "lasting (succeeded w c)"
  by (auto simp: succeeded_def)

lemma made_when_last: "F tr \<Longrightarrow> made_when F c (tr @ [c])"
  unfolding made_when_def happened_def by fastforce

lemma happened_last: "F tr \<Longrightarrow> happened F cs (tr @ cs)"
  unfolding happened_def by fastforce

lemma triple_keep: "only A p \<Longrightarrow> lasting F \<Longrightarrow> triple F p (\<lambda>_. F)"
  unfolding triple_def lasting_def by (metis onlyD)

lemma triple_frame:
  assumes "triple P p Q" "lasting F" "only A p"
  shows "triple (\<lambda>tr. P tr \<and> F tr) p (\<lambda>v tr. Q v tr \<and> F tr)"
  using assms(1) triple_keep[OF assms(3,2)] unfolding triple_def by blast

lemma triple_fixed: "(K \<Longrightarrow> triple (\<lambda>_. True) p Q) \<Longrightarrow> triple (\<lambda>_. K) p Q"
  by (auto simp: triple_def)

text \<open>A fact that one part of a sequence establishes.\<close>

lemma triple_first: "triple P p (\<lambda>_. F) \<Longrightarrow> lasting F \<Longrightarrow> (\<And>v. only A (f v)) \<Longrightarrow> triple P (seq p f) (\<lambda>_. F)"
  by (rule triple_seq) (auto intro: triple_keep)

lemma triple_second: "(\<And>v. triple (\<lambda>_. True) (f v) Q) \<Longrightarrow> triple P (seq p f) Q"
  by (rule triple_seq[OF triple_any])

section \<open>What holds when a command is executed\<close>

definition guards :: "(sys_call list \<Rightarrow> bool) \<Rightarrow> 'a prog \<Rightarrow> (sys_call list \<Rightarrow> string list \<Rightarrow> bool) \<Rightarrow> bool" where
  "guards P p N = (\<forall>tr. P tr \<longrightarrow> (\<exists>cs. snd (p tr) = tr @ cs \<and>
     (\<forall>pre argv post. cs = pre @ Exec argv # post \<longrightarrow> N (tr @ pre) argv)))"

lemma guardsD:
  assumes "guards P p N" "P tr" "p tr = (r, tr @ pre @ Exec argv # post)"
  shows "N (tr @ pre) argv"
  using assms unfolding guards_def by fastforce

lemma guards_quiet: "only (\<lambda>c. \<not> is_exec c) p \<Longrightarrow> guards P p N"
  unfolding guards_def only_def by fastforce

lemma quiet_prefix:
  assumes "cs1 @ cs2 = pre @ Exec argv # post" "list_all (\<lambda>c. \<not> is_exec c) cs1"
  obtains pre' where "pre = cs1 @ pre'" "cs2 = pre' @ Exec argv # post"
proof -
  have "Exec argv \<notin> set cs1" using assms(2) by (auto simp: list_all_iff)
  then have "length cs1 \<le> length pre"
    using assms(1) by (metis append_eq_append_conv_if in_set_conv_decomp linorder_le_cases not_less_eq_eq
        append_take_drop_id drop_Cons' take_Cons' append_eq_conv_conj length_append_singleton nth_append_length nth_mem
        nth_append leI)
  then show ?thesis using assms(1) that by (auto simp: append_eq_append_conv2)
qed

lemma guards_seq:
  assumes "triple P p Q" "only (\<lambda>c. \<not> is_exec c) p" "\<And>v. guards (Q v) (f v) N"
  shows "guards P (seq p f) N"
  unfolding guards_def
proof (intro allI impI)
  fix tr assume P: "P tr"
  obtain r tr1 where p: "p tr = (r, tr1)" by fastforce
  obtain cs1 where cs1: "tr1 = tr @ cs1" "list_all (\<lambda>c. \<not> is_exec c) cs1" using onlyD[OF assms(2) p] by blast
  show "\<exists>cs. snd (seq p f tr) = tr @ cs \<and> (\<forall>pre argv post. cs = pre @ Exec argv # post \<longrightarrow> N (tr @ pre) argv)"
  proof (cases r)
    case (Inl e)
    then show ?thesis using p cs1 by (auto simp: seq_def)
  next
    case (Inr v)
    then have "Q v tr1" using tripleD[OF assms(1) P] p by blast
    then obtain cs2 where cs2: "snd (f v tr1) = tr1 @ cs2"
        "\<And>pre argv post. cs2 = pre @ Exec argv # post \<Longrightarrow> N (tr1 @ pre) argv"
      using assms(3)[of v] unfolding guards_def by blast
    have "N (tr @ pre) argv" if "cs1 @ cs2 = pre @ Exec argv # post" for pre argv post
      using quiet_prefix[OF that cs1(2)] cs2(2) cs1(1) by (metis append.assoc)
    then show ?thesis using p Inr cs1 cs2(1) by (auto simp: seq_def)
  qed
qed

text \<open>The first part may execute commands of its own.\<close>

lemma guards_then:
  assumes "triple P p Q" "guards P p N" "\<And>v. guards (Q v) (f v) N"
  shows "guards P (seq p f) N"
  unfolding guards_def
proof (intro allI impI)
  fix tr assume P: "P tr"
  obtain r tr1 where p: "p tr = (r, tr1)" by fastforce
  obtain cs1 where cs1: "tr1 = tr @ cs1"
      "\<And>pre argv post. cs1 = pre @ Exec argv # post \<Longrightarrow> N (tr @ pre) argv"
    using assms(2) P p unfolding guards_def by (metis snd_conv)
  show "\<exists>cs. snd (seq p f tr) = tr @ cs \<and> (\<forall>pre argv post. cs = pre @ Exec argv # post \<longrightarrow> N (tr @ pre) argv)"
  proof (cases r)
    case (Inl e)
    then show ?thesis using p cs1 by (auto simp: seq_def)
  next
    case (Inr v)
    then have "Q v tr1" using tripleD[OF assms(1) P] p by blast
    then obtain cs2 where cs2: "snd (f v tr1) = tr1 @ cs2"
        "\<And>pre argv post. cs2 = pre @ Exec argv # post \<Longrightarrow> N (tr1 @ pre) argv"
      using assms(3)[of v] unfolding guards_def by blast
    have "N (tr @ pre) argv" if e: "cs1 @ cs2 = pre @ Exec argv # post" for pre argv post
    proof -
      consider us where "cs1 = pre @ us" "us @ cs2 = Exec argv # post"
        | us where "pre = cs1 @ us" "cs2 = us @ Exec argv # post"
        using e by (auto simp: append_eq_append_conv2)
      then show ?thesis
      proof cases
        case 1
        then show ?thesis using cs1 cs2(2)[of "[]" argv post] by (cases us) auto
      next
        case 2
        then show ?thesis using cs1(1) cs2(2) by simp
      qed
    qed
    then show ?thesis using p Inr cs1(1) cs2(1) by (auto simp: seq_def)
  qed
qed

lemma guards_exec: "(\<And>tr. P tr \<Longrightarrow> N tr argv) \<Longrightarrow> guards P (call w (Exec argv)) N"
  by (auto simp: guards_def Cons_eq_append_conv)

text \<open>After the command has been executed nothing else is.\<close>

lemma guards_exec_then:
  assumes "\<And>tr. P tr \<Longrightarrow> N tr argv" "\<And>r. only (\<lambda>c. \<not> is_exec c) (f r)"
  shows "guards P (seq (call w (Exec argv)) f) N"
  unfolding guards_def
proof (intro allI impI)
  fix tr assume P: "P tr"
  let ?r = "w_ret w tr (Exec argv)"
  obtain cs where cs: "snd (f ?r (tr @ [Exec argv])) = (tr @ [Exec argv]) @ cs" "list_all (\<lambda>c. \<not> is_exec c) cs"
    using assms(2)[of ?r] unfolding only_def by blast
  have "N (tr @ pre) argv'" if "Exec argv # cs = pre @ Exec argv' # post" for pre argv' post
    using that cs(2) P assms(1) by (cases pre) auto
  then show "\<exists>cs. snd (seq (call w (Exec argv)) f tr) = tr @ cs \<and>
      (\<forall>pre argv post. cs = pre @ Exec argv # post \<longrightarrow> N (tr @ pre) argv)"
    using cs(1) by (intro exI[of _ "Exec argv # cs"]) simp
qed

end
