(* ===== verification/Confinement.thy ===== *)
theory Confinement
  imports Chroot_Props
begin

text \<open>
  What has been done when the command of a container runs.  \<open>locked_down\<close> and
  \<open>confined\<close> are predicates on the calls made so far; the lemmas follow the entry
  points of chroot.c step by step with the triples of Trace_Logic and end in one theorem for
  ruri_run_chroot_container and one for ruri_run_rootless_chroot_container.  The calls
  of drop_caps are shown to refine its effect on the capability sets (Caplist), and a
  user given by name is shown to be only tried.
\<close>

section \<open>What has been done before the command\<close>

definition chroot_done :: "world \<Rightarrow> path \<Rightarrow> sys_call list \<Rightarrow> bool" where
  "chroot_done w d = happened (\<lambda>pre. w_ret w pre (Chdir d) = 0 \<and> w_ret w (pre @ [Chdir d]) (Chroot ''.'') \<ge> 0)
     [Chdir d, Chroot ''.'']"

definition root_entered :: "world \<Rightarrow> ruri_container \<Rightarrow> sys_call list \<Rightarrow> bool" where
  "root_entered w c tr =
     (if \<not> enable_unshare c then chroot_done w (dir_of c) tr
      else ns_pid c > 0 \<or> succeeded w Pivot_root tr)"

definition filter_wanted :: "ruri_container \<Rightarrow> bool" where
  "filter_wanted c = (enable_seccomp_whitelist c \<or> enable_default_seccomp c \<or> seccomp_denied_syscall c \<noteq> []
     \<or> systemd_mode c)"

text \<open>A call whose failure is a warning: made, and in strict mode (force panic) made with
  success.\<close>

definition carried_out :: "world \<Rightarrow> sys_call \<Rightarrow> sys_call list \<Rightarrow> bool" where
  "carried_out w a tr = (if w_force_panic w then succeeded w a tr else a \<in> set tr)"

definition dropped_all :: "host \<Rightarrow> ruri_container \<Rightarrow> sys_call list \<Rightarrow> bool" where
  "dropped_all h c tr =
     (Capset_no_inheritable \<in> set tr \<and> (\<forall>cap \<in> set (caps_of (drop_caplist c)). h_cap_supported h cap \<longrightarrow>
        carried_out (h_world h) (Drop_bounding cap) tr \<and> Drop_ambient cap \<in> set tr))"

definition rootless_entered :: "world \<Rightarrow> ruri_container \<Rightarrow> sys_call list \<Rightarrow> bool" where
  "rootless_entered w c = happened (\<lambda>pre. w_ret w (pre @ [Chdir (dir_of c)]) (Chroot ''.'') \<ge> 0)
     [Chdir (dir_of c), Chroot ''.'']"

text \<open>Everything but the change of the user; E says that the root directory was entered.\<close>

definition locked_down :: "(sys_call list \<Rightarrow> bool) \<Rightarrow> host \<Rightarrow> ruri_container \<Rightarrow> sys_call list \<Rightarrow> bool" where
  "locked_down E h c tr =
     (E tr \<and> (filter_wanted c \<longrightarrow> carried_out (h_world h) Seccomp_load tr) \<and> dropped_all h c tr
      \<and> (no_new_privs c \<longrightarrow> No_new_privs \<in> set tr) \<and> (\<not> systemd_mode c \<longrightarrow> Lock_ambient \<in> set tr))"

definition user_number :: "ruri_container \<Rightarrow> int" where
  "user_number c = (case user c of None \<Rightarrow> 0 | Some u \<Rightarrow> atoi u)"

definition succeeded_when :: "world \<Rightarrow> (sys_call list \<Rightarrow> bool) \<Rightarrow> sys_call \<Rightarrow> sys_call list \<Rightarrow> bool" where
  "succeeded_when w F c = made_when (\<lambda>pre. F pre \<and> w_ret w pre c = 0) c"

definition confined :: "(sys_call list \<Rightarrow> bool) \<Rightarrow> host \<Rightarrow> ruri_container \<Rightarrow> sys_call list \<Rightarrow> bool" where
  "confined E h c tr =
     (locked_down E h c tr \<and> (user_number c > 0 \<longrightarrow>
        (let n = word_of_int (user_number c) in
         succeeded_when (h_world h) (locked_down E h c) (Setgid n) tr
         \<and> succeeded_when (h_world h) (locked_down E h c) (Setuid n) tr)))"

lemma lasting_entered [intro]: "lasting (root_entered w c)"
proof (cases "enable_unshare c")
  case True
  then have "root_entered w c = (\<lambda>tr. ns_pid c > 0 \<or> succeeded w Pivot_root tr)"
    by (simp add: root_entered_def fun_eq_iff)
  then show ?thesis using lasting_succeeded[of w Pivot_root] by (auto simp: lasting_def)
next
  case False
  then have "root_entered w c = chroot_done w (dir_of c)" by (simp add: root_entered_def fun_eq_iff)
  then show ?thesis unfolding chroot_done_def using lasting_happened by simp
qed

lemma lasting_rootless: "lasting (rootless_entered w c)"
  unfolding rootless_entered_def by (rule lasting_happened)

lemma lasting_carried: "lasting (carried_out w a)"
  using lasting_succeeded[of w a] by (auto simp: lasting_def carried_out_def)

lemma carried: "triple P (warned w a m) (\<lambda>_. carried_out w a)"
  by (auto simp: triple_def warned_result carried_out_def succeeded_def made_when_last split: if_splits)

lemma lasting_dropped: "lasting (dropped_all h c)"
  unfolding dropped_all_def[abs_def] by (intro lasting_intros lasting_carried)

lemma lasting_locked [intro]: "lasting E \<Longrightarrow> lasting (locked_down E h c)"
  unfolding locked_down_def[abs_def] by (intro lasting_intros lasting_dropped lasting_carried)

lemma lasting_when [intro]: "lasting (succeeded_when w F c)"
  by (auto simp: succeeded_when_def)

section \<open>The restrictions\<close>

lemma chroot_into_done: "triple P (chroot_into w d) (\<lambda>_. chroot_done w d)"
  unfolding triple_def
proof (intro allI impI)
  fix tr v tr'
  assume "chroot_into w d tr = (Inr v, tr')"
  then have "w_ret w tr (Chdir d) = 0" "w_ret w (tr @ [Chdir d]) (Chroot ''.'') \<ge> 0"
      "tr' = tr @ [Chdir d, Chroot ''.''] @ [Chdir ''/'']"
    by (auto simp: chroot_into_def split: if_splits)
  then show "chroot_done w d tr'" unfolding chroot_done_def happened_def by blast
qed

lemma pivoted: "triple P (try_pivot_root w c) (\<lambda>r tr. r = 0 \<and> (ns_pid c > 0 \<or> succeeded w Pivot_root tr))"
proof -
  have pr: "triple Q (call w Pivot_root) (\<lambda>r tr. r = 0 \<longrightarrow> succeeded w Pivot_root tr)" for Q
    by (rule triple_call) (simp add: succeeded_def made_when_last)
  have rest: "triple (succeeded w Pivot_root) (seq (run_all w cs) (\<lambda>_. ret (0::int)))
      (\<lambda>r tr. r = 0 \<and> (ns_pid c > 0 \<or> succeeded w Pivot_root tr))" for cs
    using lasting_succeeded[of w Pivot_root] by (auto simp: triple_def lasting_def)
  show ?thesis unfolding try_pivot_root_def
  proof (rule triple_if)
    assume "\<not> 0 < ns_pid c"
    show "triple P (seq (run_all w [Chdir (dir_of c), Mount ''none'' ''/'' None (ms_rec OR ms_private) None, Chdir (dir_of c)])
        (\<lambda>_. seq (call w Pivot_root)
          (\<lambda>r. if r \<noteq> 0 then die (Fatal ''pivot_root() failed, unshare container will not work.'')
            else seq (run_all w [Chdir ''/'', Umount ''.'' mnt_detach]) (\<lambda>_. ret (0::int)))))
      (\<lambda>r tr. r = 0 \<and> (ns_pid c > 0 \<or> succeeded w Pivot_root tr))"
      by (rule triple_second, rule triple_seq[OF pr], rule triple_if, rule triple_die)
         (rule triple_conseq[OF rest]; simp)
  qed (simp add: triple_def)
qed

lemma entered_root: "triple P (enter_root w c) (\<lambda>_. root_entered w c)"
proof (cases "enable_unshare c")
  case True
  have "triple P (seq (try_pivot_root w c) (\<lambda>r. if r = -1 then chroot_into w (dir_of c) else ret ()))
      (\<lambda>_. root_entered w c)"
    by (rule triple_seq[OF pivoted], rule triple_if) (auto simp: triple_def root_entered_def True)
  then show ?thesis by (simp add: enter_root_def True)
next
  case False
  then show ?thesis using triple_post[OF chroot_into_done] by (simp add: enter_root_def root_entered_def)
qed

lemma entered_rootless: "triple P (enter_rootless w c) (\<lambda>_. rootless_entered w c)"
  unfolding triple_def
proof (intro allI impI)
  fix tr v tr'
  assume "enter_rootless w c tr = (Inr v, tr')"
  then have "w_ret w (tr @ [Chdir (dir_of c)]) (Chroot ''.'') \<ge> 0"
      "tr' = tr @ [Chdir (dir_of c), Chroot ''.''] @ [Chdir ''/'']"
    by (auto simp: enter_rootless_def split: if_splits)
  then show "rootless_entered w c tr'" unfolding rootless_entered_def happened_def by blast
qed

lemma enter_rootless_only: "only (\<lambda>c. \<not> is_exec c) (enter_rootless w c)"
  unfolding enter_rootless_def by (intro only_intros; simp)

lemma enter_root_only: "only (\<lambda>c. \<not> is_exec c) (enter_root w c)"
  unfolding enter_root_def try_pivot_root_def chroot_into_def by (intro only_intros; simp)

lemma filter_only: "only (\<lambda>c. \<not> is_exec c) (ruri_setup_seccomp w c)"
proof -
  have a: "only (\<lambda>c. \<not> is_exec c) (add_rule w r)" for r
    unfolding add_rule_def by (cases r) (auto intro!: only_intros simp del: prog_simps seq_run)
  have d: "only (\<lambda>c. \<not> is_exec c) (deny_syscall w n)" for n
    unfolding deny_syscall_def ruri_resolve_seccomp_errno_def resolve_failed_def
    by (auto intro!: only_intros a simp del: prog_simps seq_run split: prod.splits)
  have l: "only (\<lambda>c. \<not> is_exec c) (load_filter w)"
    unfolding load_filter_def by (intro only_intros; simp)
  show ?thesis
    unfolding ruri_setup_seccomp_def ruri_setup_seccomp_whitelist_def ruri_setup_seccomp_blacklist_def
    by (intro only_intros a d l; simp)
qed

lemma filter_loaded: "triple P (ruri_setup_seccomp w c) (\<lambda>_ tr. filter_wanted c \<longrightarrow> carried_out w Seccomp_load tr)"
proof -
  have l: "triple P (load_filter w) (\<lambda>_ tr. carried_out w Seccomp_load tr)" for P
    unfolding load_filter_def by (rule triple_second[OF carried])
  show ?thesis
    unfolding ruri_setup_seccomp_def ruri_setup_seccomp_whitelist_def ruri_setup_seccomp_blacklist_def
    by (intro triple_if)
       (auto simp: filter_wanted_def intro!: triple_any triple_post[OF l] triple_seq[OF triple_any])
qed

lemma drop_each_only: "only (\<lambda>c. \<not> is_exec c) (drop_each h caps)"
  by (induction caps) (auto intro!: only_intros simp del: prog_simps seq_run)

lemma drops_each:
  "triple P (drop_each h caps) (\<lambda>_ tr. \<forall>cap \<in> set caps. h_cap_supported h cap \<longrightarrow>
     carried_out (h_world h) (Drop_bounding cap) tr \<and> Drop_ambient cap \<in> set tr)"
proof (induction caps arbitrary: P)
  case Nil
  then show ?case by (simp add: triple_def)
next
  case (Cons cap caps)
  let ?B = "carried_out (h_world h) (Drop_bounding cap)"
  let ?Q = "\<lambda>tr. \<forall>cap \<in> set caps. h_cap_supported h cap \<longrightarrow>
    carried_out (h_world h) (Drop_bounding cap) tr \<and> Drop_ambient cap \<in> set tr"
  let ?F = "\<lambda>tr. ?B tr \<and> Drop_ambient cap \<in> set tr"
  have s: "lasting ?F" by (intro lasting_intros lasting_carried)
  have rest: "triple ?F (drop_each h caps) (\<lambda>_ tr. ?Q tr \<and> ?F tr)"
    by (rule triple_conj[OF Cons triple_keep[OF drop_each_only s]])
  have "triple P (drop_each h (cap # caps)) (\<lambda>_ tr. ?Q tr \<and> ?F tr)" if "h_cap_supported h cap"
  proof -
    have a: "triple ?B (run (h_world h) (Drop_ambient cap)) (\<lambda>_. ?F)"
      using lasting_carried[of "h_world h" "Drop_bounding cap"] by (auto simp: triple_def lasting_def)
    have "triple P (seq (warned (h_world h) (Drop_bounding cap) ''Warning: Failed to drop cap'')
        (\<lambda>_. seq (run (h_world h) (Drop_ambient cap)) (\<lambda>_. drop_each h caps))) (\<lambda>_ tr. ?Q tr \<and> ?F tr)"
      by (rule triple_seq[OF carried triple_seq[OF a rest]])
    then show ?thesis using that by simp
  qed
  moreover have "triple P (drop_each h (cap # caps)) (\<lambda>_. ?Q)" if "\<not> h_cap_supported h cap"
    using Cons[of P] that by simp
  ultimately show ?case by (cases "h_cap_supported h cap") (auto intro: triple_post)
qed

lemma capabilities_only: "only (\<lambda>c. \<not> is_exec c) (drop_capabilities h c)"
  unfolding drop_capabilities_def by (intro only_intros drop_each_only; simp)

lemma drops_all: "triple P (drop_capabilities h c) (\<lambda>_. dropped_all h c)"
proof -
  let ?D = "\<lambda>tr. \<forall>cap \<in> set (caps_of (drop_caplist c)). h_cap_supported h cap \<longrightarrow>
    carried_out (h_world h) (Drop_bounding cap) tr \<and> Drop_ambient cap \<in> set tr"
  have l: "lasting ?D" by (intro lasting_intros lasting_carried)
  then have "triple ?D (seq (run (h_world h) Capget) (\<lambda>_. run (h_world h) Capset_no_inheritable)) (\<lambda>_. dropped_all h c)"
    by (auto simp: triple_def lasting_def dropped_all_def seq_def)
  then show ?thesis unfolding drop_capabilities_def by (rule triple_seq[OF drops_each])
qed

lemma change_user_only: "only (\<lambda>c. \<not> is_exec c) (change_user h c)"
proof -
  have m: "only (\<lambda>c. \<not> is_exec c) (must w a msg)" if "\<not> is_exec a" for w a msg
    unfolding must_def using that by (intro only_intros)
  show ?thesis
    unfolding change_user_def user_without_groups_def user_by_number_def user_by_name_def Let_def
    by (intro only_intros) (auto intro!: only_intros m split: prod.splits simp del: prog_simps seq_run)
qed

lemma restrict_only: "only (\<lambda>c. \<not> is_exec c) (restrict_process h c)"
proof -
  have "only (\<lambda>c. \<not> is_exec c) (set_envs w c)" for w
  proof -
    have "list_all (\<lambda>c. \<not> is_exec c) (set_env_pairs es)" for es by (induction es rule: set_env_pairs.induct) auto
    then show ?thesis unfolding set_envs_def by (intro only_intros) simp
  qed
  then show ?thesis unfolding restrict_process_def Let_def
    by (intro only_intros filter_only capabilities_only change_user_only quiet.run_if_only; simp)
qed

lemma change_user_number:
  assumes "user_number c > 0" "lasting F"
  shows "triple F (change_user h c)
    (\<lambda>_ tr. succeeded_when (h_world h) F (Setgid (word_of_int (user_number c))) tr
       \<and> succeeded_when (h_world h) F (Setuid (word_of_int (user_number c))) tr)"
proof -
  let ?w = "h_world h"
  obtain u where u: "user c = Some u" "user_number c = atoi u" "atoi u > 0"
    using assms by (auto simp: user_number_def split: option.splits)
  let ?ok = "succeeded_when ?w F"
  have must: "triple F (must ?w a msg) (\<lambda>_ tr. ?ok a tr \<and> F tr)" if "\<not> is_exec a" for a msg
  proof -
    have "triple F (must ?w a msg) (\<lambda>_. ?ok a)"
      by (auto simp: triple_def must_def panic_unless_def succeeded_when_def made_when_def happened_def split: if_splits)
    moreover have "only (\<lambda>_. True) (must ?w a msg)" unfolding must_def by (intro only_intros TrueI)
    ultimately show ?thesis using triple_conj triple_keep assms(2) by blast
  qed
  have frame: "triple (\<lambda>tr. G tr \<and> F tr) (must ?w a msg) (\<lambda>_ tr. (?ok a tr \<and> F tr) \<and> G tr)"
    if "\<not> is_exec a" "lasting G" for a msg G
  proof -
    have o: "only (\<lambda>_. True) (must ?w a msg)" unfolding must_def by (intro only_intros TrueI)
    show ?thesis using triple_frame[OF must[OF that(1)] that(2) o] by (rule triple_conseq) auto
  qed
  have lift: "triple F (lift_result r) (\<lambda>_. F)" for r :: "uid list result"
    by (rule triple_lift) simp
  have start: "triple F (run ?w (Setgroups [])) (\<lambda>_. F)"
    by (rule triple_keep[OF only_basic(5)[where P = "\<lambda>_. True"] assms(2)]) simp
  have a: "triple F (user_without_groups ?w u) (\<lambda>_ tr. ?ok (Setgid (id_of u)) tr \<and> ?ok (Setuid (id_of u)) tr)"
    unfolding user_without_groups_def using u(3)
    by (simp del: prog_simps seq_run) (rule triple_seq[OF must], simp, rule triple_seq[OF frame], simp, rule lasting_when,
        rule triple_conseq[OF frame[where G = "\<lambda>tr. ?ok (Setuid (id_of u)) tr \<and> ?ok (Setgid (id_of u)) tr"]], auto)
  have b: "triple F (user_by_number h u) (\<lambda>_ tr. ?ok (Setgid (id_of u)) tr \<and> ?ok (Setuid (id_of u)) tr)"
    unfolding user_by_number_def Let_def
  proof (rule triple_seq[OF lift], rule triple_seq)
    show "triple F (must ?w (Setgroups gs) m) (\<lambda>_. F)" for gs m by (rule triple_post[OF must]) auto
    have "triple F (must ?w (Setgid (id_of u)) m) (\<lambda>_ tr. ?ok (Setgid (id_of u)) tr \<and> F tr)" for m
      by (rule must) simp
    moreover have "triple (\<lambda>tr. ?ok (Setgid (id_of u)) tr \<and> F tr) (must ?w (Setuid (id_of u)) m)
        (\<lambda>_ tr. ?ok (Setgid (id_of u)) tr \<and> ?ok (Setuid (id_of u)) tr)" for m
      by (rule triple_post[OF frame[OF _ lasting_when]]) auto
    ultimately show "triple F (seq (must ?w (Setgid (id_of u)) m) (\<lambda>_. must ?w (Setuid (id_of u)) m'))
        (\<lambda>_ tr. ?ok (Setgid (id_of u)) tr \<and> ?ok (Setuid (id_of u)) tr)" for m m' by (rule triple_seq)
  qed
  show ?thesis
    unfolding change_user_def using u a b by (intro triple_seq[OF start]) (simp add: id_of_def)
qed

lemma locked_after:
  assumes sA: "lasting E"
  shows "triple E (restrict_process h c) (\<lambda>_. confined E h c)"
proof -
  let ?w = "h_world h"
  have cu: "triple (locked_down E h c) (change_user h c) (\<lambda>_. confined E h c)"
  proof (cases "user_number c > 0")
    case True
    show ?thesis
      using triple_conj[OF triple_keep[OF change_user_only lasting_locked[OF sA]] change_user_number[OF True lasting_locked[OF sA]]]
      by (rule triple_post) (simp add: confined_def Let_def)
  next
    case False
    show ?thesis
      by (rule triple_post[OF triple_keep[OF change_user_only lasting_locked[OF sA]]]) (simp add: confined_def False)
  qed
  let ?B = "\<lambda>tr. (filter_wanted c \<longrightarrow> carried_out ?w Seccomp_load tr) \<and> E tr"
  let ?C = "\<lambda>tr. dropped_all h c tr \<and> ?B tr"
  have sB: "lasting ?B" by (intro lasting_intros lasting_carried sA)
  note sD = lasting_dropped[of h c]
  have sC: "lasting ?C" by (intro lasting_intros lasting_carried sA sD)
  have 1: "triple E (ruri_setup_seccomp ?w c) (\<lambda>_. ?B)"
    using triple_frame[OF filter_loaded sA filter_only, of "\<lambda>_. True"] by (rule triple_conseq) auto
  have 2: "triple ?B (drop_capabilities h c) (\<lambda>_. ?C)"
    using triple_frame[OF drops_all sB capabilities_only, of "\<lambda>_. True"] by (rule triple_conseq) auto
  have envs: "only (\<lambda>_. True) (set_envs ?w c)" unfolding set_envs_def by (intro only_intros) (simp add: list_all_iff)
  have flag: "triple F (run_if ?w b a) (\<lambda>_ tr. (b \<longrightarrow> a \<in> set tr) \<and> F tr)" if "lasting F" for F b a
  proof -
    have "triple F (run_if ?w b a) (\<lambda>_ tr. b \<longrightarrow> a \<in> set tr)" by (auto simp: triple_def run_if_def)
    moreover have "only (\<lambda>_. True) (run_if ?w b a)" by (simp add: run_if_def only_intros)
    ultimately show ?thesis using triple_conj triple_keep that by blast
  qed
  have sN: "lasting (\<lambda>tr. (no_new_privs c \<longrightarrow> No_new_privs \<in> set tr) \<and> ?C tr)"
    by (intro lasting_intros lasting_carried sA sD)
  show ?thesis
    unfolding restrict_process_def Let_def
    by (rule triple_seq[OF 1], rule triple_seq[OF 2], rule triple_seq[OF triple_keep[OF envs sC]],
        rule triple_seq[OF flag[OF sC]], rule triple_seq[OF flag[OF sN]], rule triple_conseq[OF cu])
       (auto simp: locked_down_def)
qed

section \<open>The container that runs\<close>

text \<open>The configuration ruri was given, or the one synchronised with .rurienv, with the
  default command and the copied qemu filled in.\<close>

definition configured :: "host \<Rightarrow> ruri_container \<Rightarrow> ruri_container \<Rightarrow> bool" where
  "configured h c c1 = (c1 = c \<or> (use_rurienv c \<and> (\<exists>ops. ruri_read_info (h_info h) (Some c) (dir_of c) = Inr (c1, ops))))"

definition completes :: "ruri_container \<Rightarrow> ruri_container \<Rightarrow> bool" where
  "completes c c' =
     (\<exists>cmd q fi. c' = c\<lparr>command := cmd, qemu_path := q, first_init := fi\<rparr> \<and> (command c \<noteq> [] \<longrightarrow> cmd = command c)
        \<and> cmd \<noteq> [])"

definition runs_as :: "host \<Rightarrow> ruri_container \<Rightarrow> ruri_container \<Rightarrow> bool" where
  "runs_as h c c' = (\<exists>c1. configured h c c1 \<and> completes c1 c')"

lemma qemu_set: "triple P (copy_qemu_binary w c) (\<lambda>c' tr. \<exists>q. c' = c\<lparr>qemu_path := q\<rparr>)"
proof -
  have "c = c\<lparr>qemu_path := qemu_path c\<rparr>" by simp
  then show ?thesis unfolding copy_qemu_binary_def
    by (intro triple_option triple_second triple_if triple_ret triple_die) blast+
qed

lemma info_synced:
  "triple P (sync_info h c) (\<lambda>c' tr. \<exists>ops. ruri_read_info (h_info h) (Some c) (dir_of c) = Inr (c', ops))"
  unfolding sync_info_def
  by (rule triple_seq[where Q = "\<lambda>v _. ruri_read_info (h_info h) (Some c) (dir_of c) = Inr v"])
     (auto simp: triple_def lift_result_def seq_Inr split: sum.splits)

lemma root_configured:
  "triple P (setup_root h c) (\<lambda>c' tr. \<exists>c1 q. configured h c c1 \<and> c' = c1\<lparr>qemu_path := q\<rparr>)"
proof -
  have pr: "triple P (prepare_root h c) (\<lambda>c' tr. \<exists>q. c' = c\<lparr>qemu_path := q\<rparr>)" for P
    unfolding prepare_root_def Let_def
    by (rule triple_second, rule triple_second, rule triple_seq[OF qemu_set])
       (auto simp: triple_def seq_Inr)
  have id: "c1 = c1\<lparr>qemu_path := qemu_path c1\<rparr>" for c1 :: ruri_container by simp
  have self: "configured h c c" by (simp add: configured_def)
  have keep: "triple P (ret c) (\<lambda>c' tr. \<exists>c1 q. configured h c c1 \<and> c' = c1\<lparr>qemu_path := q\<rparr>)" for P
    using self id by (intro triple_ret) blast
  have prep: "triple P (prepare_root h c) (\<lambda>c' tr. \<exists>c1 q. configured h c c1 \<and> c' = c1\<lparr>qemu_path := q\<rparr>)" for P
    using pr by (rule triple_post) (use self in blast)
  have sync: "use_rurienv c \<Longrightarrow> triple P (sync_info h c) (\<lambda>c' tr. \<exists>c1 q. configured h c c1 \<and> c' = c1\<lparr>qemu_path := q\<rparr>)" for P
    by (rule triple_post[OF info_synced]) (metis configured_def id)
  show ?thesis
    unfolding setup_root_def by (intro triple_if triple_second triple_die keep prep sync)
qed

lemma command_defaults: "triple P (default_command h c) (\<lambda>c' tr. \<exists>cmd. c' = c\<lparr>command := cmd\<rparr> \<and> cmd \<noteq> []
    \<and> (command c \<noteq> [] \<longrightarrow> cmd = command c))"
proof -
  have "c = c\<lparr>command := command c\<rparr>" by simp
  then show ?thesis unfolding default_command_def by (auto intro!: triple_if triple_second triple_ret)
qed

lemma before_root_runs: "triple P (before_root h c) (\<lambda>c' tr. runs_as h c c')"
proof -
  have x: "triple P (default_command h c1) (\<lambda>c' tr. runs_as h c c')"
    if conf: "configured h c c0" and c1: "c1 = c0\<lparr>qemu_path := q\<rparr>" for P c0 c1 q
  proof (rule triple_post[OF command_defaults])
    fix c' and tr :: "sys_call list"
    assume "\<exists>cmd. c' = c1\<lparr>command := cmd\<rparr> \<and> cmd \<noteq> [] \<and> (command c1 \<noteq> [] \<longrightarrow> cmd = command c1)"
    then obtain cmd where cmd: "c' = c1\<lparr>command := cmd\<rparr>" "cmd \<noteq> []" "command c1 \<noteq> [] \<longrightarrow> cmd = command c1" by blast
    have "c' = c0\<lparr>command := cmd, qemu_path := q, first_init := first_init c0\<rparr>" using cmd(1) c1 by simp
    moreover have "command c0 \<noteq> [] \<longrightarrow> cmd = command c0" using cmd(3) c1 by simp
    ultimately have "completes c0 c'" using cmd(2) unfolding completes_def by blast
    then show "runs_as h c c'" using conf unfolding runs_as_def by blast
  qed
  have y: "triple (\<lambda>tr. \<exists>c0 q. configured h c c0 \<and> c1 = c0\<lparr>qemu_path := q\<rparr>) (default_command h c1) (\<lambda>c' tr. runs_as h c c')" for c1
    using x unfolding triple_def by blast
  have z: "triple (\<lambda>tr. runs_as h c c2) (seq (check_binary h c2)
       (\<lambda>_. seq (if \<not> enable_unshare c2 then ruri_set_limit w c2 else ret ()) (\<lambda>_. seq (run w Close_fds) (\<lambda>_. ret c2))))
     (\<lambda>c' tr. runs_as h c c')" for c2 w
    by (rule triple_fixed, (rule triple_second)+, rule triple_ret)
  show ?thesis unfolding before_root_def Let_def
    by (rule triple_second, rule triple_second, rule triple_second, rule triple_seq[OF root_configured],
        rule triple_seq[OF y z])
qed

lemma inside_root_keeps: "triple P (inside_root h c) (\<lambda>c' tr. \<exists>b. c' = c\<lparr>first_init := b\<rparr>)"
proof -
  have "c = c\<lparr>first_init := first_init c\<rparr>" by simp
  then have r: "triple P (ret c) (\<lambda>c' tr. \<exists>b. c' = c\<lparr>first_init := b\<rparr>)" for P by (intro triple_ret) blast
  then have i: "triple P (if just_chroot c then ret c else init_container h c) (\<lambda>c' tr. \<exists>b. c' = c\<lparr>first_init := b\<rparr>)" for P
    unfolding init_container_def Let_def
    by (intro triple_if triple_second r triple_ret) blast+
  show ?thesis unfolding inside_root_def Let_def
    by (rule triple_second, rule triple_seq[OF i], rule triple_fixed, (rule triple_second)+, rule triple_ret)
qed

section \<open>The command\<close>

lemma fork_quiet: "only (\<lambda>c. \<not> is_exec c) (ruri_fork_as_init h)" "only (\<lambda>c. \<not> is_exec c) (ruri_pid_file_write h req n)"
  unfolding ruri_fork_as_init_def ruri_pid_file_write_def by (intro only_intros; simp)+

lemma lasting_confined:
  assumes "lasting E"
  shows "lasting (confined E h c)"
proof (cases "user_number c > 0")
  case True
  then show ?thesis unfolding confined_def[abs_def] Let_def
    by (simp del: Let_def) (intro lasting_intros lasting_locked lasting_when assms)
next
  case False
  then show ?thesis unfolding confined_def[abs_def] by (simp add: lasting_locked assms)
qed

lemma exec_guarded: "(\<And>tr. F tr \<Longrightarrow> N tr (command c)) \<Longrightarrow> guards F (exec_command h c) N"
  unfolding exec_command_def by (rule guards_exec_then, assumption, intro only_intros fork_quiet)

lemma guards_keep:
  assumes "only (\<lambda>c. \<not> is_exec c) p" "lasting F" "\<And>v. guards F (f v) N"
  shows "guards F (seq p f) N"
  using guards_seq[OF triple_keep[OF assms(1,2)] assms(1,3)] .

lemma start_guarded:
  assumes "lasting F" "\<And>tr. F tr \<Longrightarrow> N tr (command c)"
  shows "guards F (start_command h c) N" "guards F (start_rootless h c) N"
proof -
  have "guards F (exec_command h c) N" using assms(2) by (rule exec_guarded)
  moreover have "only (\<lambda>c. \<not> is_exec c) (panic_unless b m)" for b m
    unfolding panic_unless_def by (intro only_intros)
  ultimately show "guards F (start_command h c) N" "guards F (start_rootless h c) N"
    unfolding start_command_def start_rootless_def Let_def
    by (intro guards_keep assms(1) only_intros fork_quiet; simp)+
qed

lemma entered_first_init: "root_entered w (c\<lparr>first_init := b\<rparr>) = root_entered w c"
  by (simp add: root_entered_def dir_of_def fun_eq_iff)

lemma runs_first_init: "runs_as h c c' \<Longrightarrow> runs_as h c (c'\<lparr>first_init := b\<rparr>)"
  unfolding runs_as_def completes_def by fastforce

lemma container_guarded:
  "guards (\<lambda>_. True) (ruri_run_chroot_container h c)
     (\<lambda>tr argv. \<exists>c'. runs_as h c c' \<and> argv = command c' \<and> confined (root_entered (h_world h) c') h c' tr)"
  unfolding ruri_run_chroot_container_def
proof (rule guards_seq[OF before_root_runs quiet.before_root_only])
  fix c1
  let ?w = "h_world h"
  let ?N = "\<lambda>tr argv. \<exists>c'. runs_as h c c' \<and> argv = command c' \<and> confined (root_entered (h_world h) c') h c' tr"
  have 1: "triple (\<lambda>_. runs_as h c c1) (enter_root ?w c1) (\<lambda>_ tr. root_entered ?w c1 tr \<and> runs_as h c c1)"
    by (rule triple_fixed) (rule triple_post[OF entered_root], simp)
  have 2: "triple (\<lambda>tr. root_entered ?w c1 tr \<and> runs_as h c c1) (inside_root h c1)
      (\<lambda>c2 tr. root_entered ?w c2 tr \<and> runs_as h c c2)"
    by (rule triple_conseq[OF triple_frame[OF inside_root_keeps _ quiet.inside_root_only,
          where P = "\<lambda>_. True" and F = "\<lambda>tr. root_entered ?w c1 tr \<and> runs_as h c c1"]])
       (auto simp: entered_first_init intro: runs_first_init intro!: lasting_intros lasting_entered)
  have 3: "triple (\<lambda>tr. root_entered ?w c2 tr \<and> runs_as h c c2) (restrict_process h c2)
      (\<lambda>_ tr. confined (root_entered ?w c2) h c2 tr \<and> runs_as h c c2)" for c2
    using locked_after[OF lasting_entered, of ?w c2 h c2] unfolding triple_def by blast
  have 4: "guards (\<lambda>tr. confined (root_entered ?w c2) h c2 tr \<and> runs_as h c c2) (start_command h c2) ?N" for c2
    by (rule start_guarded) (auto intro!: lasting_intros lasting_confined lasting_entered)
  show "guards (\<lambda>_. runs_as h c c1) (seq (enter_root ?w c1) (\<lambda>_. seq (inside_root h c1)
      (\<lambda>c2. seq (restrict_process h c2) (\<lambda>_. start_command h c2)))) ?N"
    by (rule guards_seq[OF 1 enter_root_only], rule guards_seq[OF 2 quiet.inside_root_only],
        rule guards_seq[OF 3 restrict_only 4])
qed

lemma rootless_before: "triple P (before_rootless h c) (\<lambda>c' tr. completes c c')"
proof -
  have qe: "triple P (copy_qemu_binary w c) (\<lambda>c' tr. \<exists>q. c' = c\<lparr>qemu_path := q\<rparr>)" for P w
    by (rule qemu_set)
  have full: "completes c (c\<lparr>qemu_path := q, command := cmd\<rparr>)" if "command c \<noteq> [] \<longrightarrow> cmd = command c" "cmd \<noteq> []" for q cmd
  proof -
    have "c\<lparr>qemu_path := q, command := cmd\<rparr> = c\<lparr>command := cmd, qemu_path := q, first_init := first_init c\<rparr>" by simp
    then show ?thesis unfolding completes_def using that by blast
  qed
  have rc: "triple P (rootless_command h (c\<lparr>qemu_path := q\<rparr>)) (\<lambda>c' tr. completes c c')" for P q
  proof -
    have "completes c (c\<lparr>qemu_path := q\<rparr>)" if "command c \<noteq> []" using full[of "command c" q] that by simp
    then have 1: "command c \<noteq> [] \<Longrightarrow> triple P (ret (c\<lparr>qemu_path := q\<rparr>)) (\<lambda>c' tr. completes c c')" for P
      by (intro triple_ret)
    have 2: "command c = [] \<Longrightarrow> cmd \<noteq> [] \<Longrightarrow> triple P (ret (c\<lparr>qemu_path := q, command := cmd\<rparr>)) (\<lambda>c' tr. completes c c')"
      for P cmd using full by (intro triple_ret) blast
    have u: "command (c\<lparr>qemu_path := q\<rparr>) = command c" by simp
    show ?thesis unfolding rootless_command_def u
      by (rule triple_if, erule 1, rule triple_second, rule triple_if, rule 2, blast, blast,
          rule triple_second, rule 2, blast, simp)
  qed
  have rest: "triple (\<lambda>_. K) (seq (check_binary h c2) (\<lambda>_. seq (run w Close_fds) (\<lambda>_. ret c2))) (\<lambda>c' tr. K' c')"
    if "K \<Longrightarrow> K' c2" for K K' c2 w
    by (rule triple_fixed, (rule triple_second)+, rule triple_ret, rule that)
  have cmd: "triple (\<lambda>_. \<exists>q. c1 = c\<lparr>qemu_path := q\<rparr>) (seq (run_if w (ro_root c1) (remount_ro c1))
      (\<lambda>_. seq (rootless_command h c1) (\<lambda>c2. seq (check_binary h c2) (\<lambda>_. seq (run w Close_fds) (\<lambda>_. ret c2)))))
      (\<lambda>c' tr. completes c c')" for c1 w
  proof (rule triple_fixed, rule triple_second, rule triple_seq)
    assume "\<exists>q. c1 = c\<lparr>qemu_path := q\<rparr>"
    then show "triple (\<lambda>_. True) (rootless_command h c1) (\<lambda>c' tr. completes c c')" using rc by blast
  qed (rule rest)
  show ?thesis unfolding before_rootless_def Let_def
    by (rule triple_second, rule triple_second, rule triple_second, rule triple_seq[OF qemu_set cmd])
qed

lemma rootless_guarded:
  "guards (\<lambda>_. True) (ruri_run_rootless_chroot_container h c)
     (\<lambda>tr argv. \<exists>c'. completes c c' \<and> argv = command c' \<and> confined (rootless_entered (h_world h) c') h c' tr)"
  unfolding ruri_run_rootless_chroot_container_def
proof (rule guards_seq[OF rootless_before quiet.before_rootless_only])
  fix c1
  let ?w = "h_world h"
  let ?N = "\<lambda>tr argv. \<exists>c'. completes c c' \<and> argv = command c' \<and> confined (rootless_entered ?w c') h c' tr"
  have 1: "triple (\<lambda>_. completes c c1) (enter_rootless ?w c1) (\<lambda>_ tr. rootless_entered ?w c1 tr \<and> completes c c1)"
    by (rule triple_fixed) (rule triple_post[OF entered_rootless], simp)
  have 2: "triple F (inside_rootless h c1) (\<lambda>_. F)" if "lasting F" for F
    using triple_keep[OF quiet.inside_rootless_only that] .
  have 3: "triple (\<lambda>tr. rootless_entered ?w c1 tr \<and> completes c c1) (restrict_process h c1)
      (\<lambda>_ tr. confined (rootless_entered ?w c1) h c1 tr \<and> completes c c1)"
    using locked_after[OF lasting_rootless, of ?w c1 h c1] unfolding triple_def by blast
  have 4: "guards (\<lambda>tr. confined (rootless_entered ?w c1) h c1 tr \<and> completes c c1) (start_rootless h c1) ?N"
    by (rule start_guarded) (auto intro!: lasting_intros lasting_confined lasting_rootless)
  show "guards (\<lambda>_. completes c c1) (seq (enter_rootless ?w c1) (\<lambda>_. seq (inside_rootless h c1)
      (\<lambda>_. seq (restrict_process h c1) (\<lambda>_. start_rootless h c1)))) ?N"
    by (rule guards_seq[OF 1 enter_rootless_only], rule guards_seq[OF 2 quiet.inside_rootless_only],
        intro lasting_intros lasting_rootless, rule guards_seq[OF 3 restrict_only 4])
qed

text \<open>C2: Whatever the kernel answers, the command of a container runs only after these steps.  With
  success: the change to the root directory of the container, or the pivot into it (a process that
  joins a running container with its namespaces changes no root here), and, for a numeric user, after
  everything else, setgid and setuid to it.  Tried, and with success only in strict mode, since the
  code warns of a failure and goes on: the load of the seccomp filter the configuration asks for, and
  the drop from the bounding set of every listed capability the kernel knows.  Tried, the result
  ignored: the drops from the ambient set, the clearing of the inheritable set, no_new_privs when
  asked for.  The command is the configured one or a default shell.\<close>

theorem command_runs_confined:
  assumes "ruri_run_chroot_container h c [] = (r, pre @ Exec argv # post)"
  shows "\<exists>c'. runs_as h c c' \<and> argv = command c' \<and> confined (root_entered (h_world h) c') h c' pre"
  using guardsD[OF container_guarded TrueI, of h c "[]" r pre argv post] assms by simp

text \<open>The same for a container run without root: after chroot(2) has succeeded, the same
  restrictions are in place when the command runs.\<close>

theorem rootless_command_confined:
  assumes "ruri_run_rootless_chroot_container h c [] = (r, pre @ Exec argv # post)"
  shows "\<exists>c'. completes c c' \<and> argv = command c' \<and> confined (rootless_entered (h_world h) c') h c' pre"
  using guardsD[OF rootless_guarded TrueI, of h c "[]" r pre argv post] assms by simp

section \<open>Witnesses\<close>

definition jail_host :: host where
  "jail_host = \<lparr>h_world = sample_host\<lparr>w_ret := \<lambda>_ c. (case c of Open _ \<Rightarrow> -2 | _ \<Rightarrow> 0), w_is_proc := \<lambda>_ _. True\<rparr>, h_info = sample_env,
     h_etc = \<lparr>etc_passwd = None, etc_group = None, etc_subuid = None, etc_subgid = None\<rparr>, h_host_etc = \<lparr>etc_passwd = None, etc_group = None, etc_subuid = None, etc_subgid = None\<rparr>,
     h_cap_name = sample_cap_name, h_cap_supported = (\<lambda>_. True), h_arch = ''x86_64'', h_pid_fd = False,
     h_euid = 0, h_egid = 0, h_rand = (\<lambda>_ _. 0), h_statuses = (\<lambda>_. [])\<rparr>"

definition jail_container :: ruri_container where
  "jail_container = sample_container\<lparr>enable_unshare := False, use_rurienv := False, memory := None,
     user := Some ''1000''\<rparr>"

text \<open>The calls before the first command, and how a run splits there.\<close>

definition first_command :: "'a result \<times> sys_call list \<Rightarrow> sys_call option" where
  "first_command out = find is_exec (snd out)"

definition calls_before :: "'a result \<times> sys_call list \<Rightarrow> sys_call list" where
  "calls_before out = takeWhile (\<lambda>c. \<not> is_exec c) (snd out)"

lemma run_splits:
  assumes "first_command out = Some (Exec argv)"
  shows "out = (fst out, calls_before out @ Exec argv # tl (dropWhile (\<lambda>c. \<not> is_exec c) (snd out)))"
proof -
  have "tr = takeWhile (\<lambda>c. \<not> is_exec c) tr @ Exec argv # tl (dropWhile (\<lambda>c. \<not> is_exec c) tr)"
    if "find is_exec tr = Some (Exec argv)" for tr
    using that by (induction tr) (auto split: if_splits)
  then show ?thesis using assms unfolding first_command_def calls_before_def by (metis prod.collapse)
qed

lemma jail_runs: "first_command (ruri_run_chroot_container jail_host jail_container []) = Some (Exec [''/bin/sh''])"
  by code_simp

lemma jail_rootless_runs:
  "first_command (ruri_run_rootless_chroot_container jail_host jail_container []) = Some (Exec [''/bin/sh''])"
  by code_simp

lemma command_runs_confined_witness:
  "\<exists>c'. runs_as jail_host jail_container c' \<and> [''/bin/sh''] = command c'
     \<and> confined (root_entered (h_world jail_host) c') jail_host c'
         (calls_before (ruri_run_chroot_container jail_host jail_container []))"
  by (rule command_runs_confined[OF run_splits[OF jail_runs]])

lemma rootless_command_confined_witness:
  "\<exists>c'. completes jail_container c' \<and> [''/bin/sh''] = command c'
     \<and> confined (rootless_entered (h_world jail_host) c') jail_host c'
         (calls_before (ruri_run_rootless_chroot_container jail_host jail_container []))"
  by (rule rootless_command_confined[OF run_splits[OF jail_rootless_runs]])

section \<open>The capability sets the calls leave\<close>

text \<open>What a call does to the sets, by its answer.  The data capset is given are those that capget
  has read just before; had it failed, the memory is as malloc left it, and the sets in it are the
  argument u.\<close>

definition cap_step :: "world \<Rightarrow> int set \<times> int set \<Rightarrow> sys_call list \<Rightarrow> sys_call \<Rightarrow> cap_sets \<Rightarrow> cap_sets" where
  "cap_step w u tr c st =
     (case c of
        Drop_bounding x \<Rightarrow> if w_ret w tr c = 0 then st\<lparr>cap_bounding := cap_bounding st - {x}\<rparr> else st
      | Drop_ambient x \<Rightarrow> st\<lparr>cap_ambient := cap_ambient st - {x}\<rparr>
      | Capset_no_inheritable \<Rightarrow>
          if w_ret w tr c \<noteq> 0 then st
          else if tr \<noteq> [] \<and> last tr = Capget \<and> w_ret w (butlast tr) Capget = 0
            then capset_sets (cap_inheritable st) UNIV st
          else capset_sets (fst u) (snd u) st
      | _ \<Rightarrow> st)"

fun cap_effect :: "world \<Rightarrow> int set \<times> int set \<Rightarrow> sys_call list \<Rightarrow> sys_call list \<Rightarrow> cap_sets \<Rightarrow> cap_sets" where
  "cap_effect w u tr [] st = st"
| "cap_effect w u tr (c # cs) st = cap_effect w u (tr @ [c]) cs (cap_step w u tr c st)"

lemma cap_effect_append: "cap_effect w u tr (cs @ ds) st = cap_effect w u (tr @ cs) ds (cap_effect w u tr cs st)"
  by (induction w u tr cs st rule: cap_effect.induct) simp_all

definition drop_env_of :: "host \<Rightarrow> (int \<Rightarrow> bool) \<Rightarrow> bool \<Rightarrow> bool \<Rightarrow> int set \<times> int set \<Rightarrow> drop_env" where
  "drop_env_of h ok g s u = \<lparr>cap_is_supported = h_cap_supported h, cap_drop_bound_ok = ok,
     drop_force_panic = w_force_panic (h_world h), capget_ok = g, capset_ok = s,
     unread_inheritable = fst u, unread_permitted = snd u\<rparr>"

text \<open>The outcome of a run of the calls agrees with the outcome on the sets.\<close>

definition agrees :: "host \<Rightarrow> int set \<times> int set \<Rightarrow> cap_sets \<Rightarrow> sys_call list \<Rightarrow> unit result \<times> sys_call list \<Rightarrow> cap_sets result option \<Rightarrow> bool" where
  "agrees h u st tr out res = (\<exists>cs. snd out = tr @ cs \<and>
     (case fst out of Inl _ \<Rightarrow> (\<exists>e. res = Some (Inl e)) | Inr _ \<Rightarrow> res = Some (Inr (cap_effect (h_world h) u tr cs st))))"

lemma drop_each_agrees:
  assumes ok: "\<And>tr x. (w_ret (h_world h) tr (Drop_bounding x) = 0) = ok x"
    and "length (pre @ xs) \<le> ruri_cap_last_cap" "ruri_init_value \<notin> set xs"
  shows "agrees h u st tr (drop_each h xs tr) (drop_caps_loop (drop_env_of h ok g s u) (length pre) (pre @ xs @ ruri_init_value # junk) st)"
  using assms(2,3)
proof (induction xs arbitrary: pre st tr)
  case Nil
  then show ?case by (subst drop_caps_loop.simps) (simp add: arr_simps agrees_def)
next
  case (Cons x xs)
  let ?w = "h_world h"
  let ?d = "\<lambda>pre xs. drop_caps_loop (drop_env_of h ok g s u) (length pre) (pre @ xs @ ruri_init_value # junk)"
  have IH: "agrees h u st' tr' (drop_each h xs tr') (drop_caps_loop (drop_env_of h ok g s u) (Suc (length pre)) (pre @ x # xs @ ruri_init_value # junk) st')" for st' tr'
    using Cons.IH[of "pre @ [x]" st' tr'] Cons.prems by simp
  have x: "x \<noteq> ruri_init_value" "length pre < ruri_cap_last_cap" using Cons.prems by auto
  consider (skip) "\<not> h_cap_supported h x" | (fail) "h_cap_supported h x" "\<not> ok x" "w_force_panic ?w"
    | (go) "h_cap_supported h x" "ok x \<or> \<not> w_force_panic ?w" by blast
  then show ?case
  proof cases
    case skip
    then show ?thesis using IH[of st tr] x by (subst drop_caps_loop.simps) (simp add: arr_simps drop_env_of_def)
  next
    case fail
    then show ?thesis using x
      by (subst drop_caps_loop.simps) (simp add: arr_simps drop_env_of_def agrees_def seq_def warned_result ok)
  next
    case go
    let ?tr = "tr @ [Drop_bounding x, Drop_ambient x]"
    let ?st = "cap_effect ?w u tr [Drop_bounding x, Drop_ambient x] st"
    have e: "drop_each h (x # xs) tr = drop_each h xs ?tr"
      using go by (auto simp: seq_def warned_result ok)
    have "?d pre (x # xs) st = drop_caps_loop (drop_env_of h ok g s u) (Suc (length pre)) (pre @ x # xs @ ruri_init_value # junk) ?st"
      using go x by (subst drop_caps_loop.simps) (auto simp: arr_simps drop_env_of_def ok cap_step_def)
    moreover have "agrees h u st tr out res" if "agrees h u ?st ?tr out res" for out res
    proof -
      obtain cs where "snd out = ?tr @ cs" and r: "case fst out of Inl _ \<Rightarrow> (\<exists>e. res = Some (Inl e))
          | Inr _ \<Rightarrow> res = Some (Inr (cap_effect ?w u ?tr cs ?st))"
        using \<open>agrees h u ?st ?tr out res\<close> unfolding agrees_def by blast
      then have "snd out = tr @ ([Drop_bounding x, Drop_ambient x] @ cs)" by simp
      then show ?thesis using r cap_effect_append[of ?w u tr "[Drop_bounding x, Drop_ambient x]" cs st]
        unfolding agrees_def by metis
    qed
    ultimately show ?thesis using IH[of ?st ?tr] e by simp
  qed
qed

text \<open>C8: The calls drop_caps makes have on the capability sets of the process exactly the effect
  that the array walk of drop_caps computes: same drops, same order of tests, same early end when
  a drop fails in strict mode, and the same sets after capget and capset, whether these succeed or
  not.\<close>

theorem drop_calls_refine_sets:
  assumes "caplist_wf lc (drop_caplist c)" "lc < int ruri_cap_last_cap"
    and ok: "\<And>tr x. (w_ret (h_world h) tr (Drop_bounding x) = 0) = ok x"
    and data: "\<And>tr. (w_ret (h_world h) tr Capget = 0) = g" "\<And>tr. (w_ret (h_world h) tr Capset_no_inheritable = 0) = s"
  shows "agrees h u st tr (drop_capabilities h c tr) (drop_caps (drop_env_of h ok g s u) (drop_caplist c) st)"
proof -
  let ?l = "drop_caplist c"
  let ?w = "h_world h"
  let ?e = "drop_env_of h ok g s u"
  let ?fin = "[Capget, Capset_no_inheritable]"
  obtain junk where j: "?l = caps_of ?l @ ruri_init_value # junk" "ruri_init_value \<notin> set (caps_of ?l)"
    using caplist_shape[of ?l] assms(1) unfolding caplist_wf_def by blast
  have a: "agrees h u st tr (drop_each h (caps_of ?l) tr) (drop_caps_loop ?e 0 ?l st)"
    using drop_each_agrees[of h ok "[]" "caps_of ?l" u st tr g s junk] ok j
      caplist_wf_length_entries(1)[OF assms(1,2)] by simp
  obtain r tr' where d: "drop_each h (caps_of ?l) tr = (r, tr')" by fastforce
  obtain cs where cs: "tr' = tr @ cs" and res: "case r of Inl _ \<Rightarrow> (\<exists>e. drop_caps_loop ?e 0 ?l st = Some (Inl e))
      | Inr _ \<Rightarrow> drop_caps_loop ?e 0 ?l st = Some (Inr (cap_effect ?w u tr cs st))"
    using a d unfolding agrees_def by auto
  show ?thesis
  proof (cases r)
    case (Inl e)
    then show ?thesis using d cs res by (auto simp: agrees_def drop_capabilities_def seq_def drop_caps_def)
  next
    case (Inr v)
    have "cap_effect ?w u tr' ?fin st' = clear_inheritable ?e st'" for st'
      by (simp add: cap_step_def clear_inheritable_def drop_env_of_def data butlast_append)
    then have "drop_caps ?e ?l st = Some (Inr (cap_effect ?w u tr (cs @ ?fin) st))"
      using res Inr cs by (simp add: drop_caps_def cap_effect_append del: cap_effect.simps)
    moreover have "drop_capabilities h c tr = (Inr (), tr @ (cs @ ?fin))"
      using d cs Inr by (simp add: drop_capabilities_def seq_def)
    ultimately show ?thesis unfolding agrees_def by simp
  qed
qed

text \<open>C40: Outside strict mode a user given by name is only tried: whatever the kernel answers to
  setgroups, setgid and setuid, the command is executed right after them (by the child, if there is an
  init process), possibly still as root.\<close>

theorem named_user_only_tried:
  assumes "user c = Some n" "atoi n \<le> 0" "\<not> skip_setgroups c" "\<not> w_force_panic (h_world h)"
    and passwd: "es \<noteq> []" "\<forall>e \<in> set es. passwd_ok e" "length (file_of passwd_line es) < 65536"
      "etc_passwd (h_etc h) = Some (file_of passwd_line es)"
    and e: "find (\<lambda>e. pw_name e = n) es = Some e"
    and gs: "ruri_get_groups False (h_etc h) (pw_uid e) = Inr gs"
    and start: "systemd_mode c \<and> first_init c \<longrightarrow> w_pid (h_world h) = 1"
      "fork_as_init c \<longrightarrow> (\<forall>tr. w_ret (h_world h) tr Fork = 0)"
  shows "\<exists>rest. snd (seq (change_user h c) (\<lambda>_. start_command h c) tr) =
     tr @ [Setgroups [], Setgroups (if gs \<noteq> [] then gs else [pw_uid e]), Setgid (pw_gid e), Setuid (pw_uid e), Close_fds]
     @ (if \<not> enable_unshare c \<and> h_pid_fd h then [Send_status (line_of (show_int (w_pid (h_world h))))] else [])
     @ (if fork_as_init c then [Fork] else []) @ Exec (command c) # rest"
proof -
  have "n \<in> pw_name ` set es" using e by (auto simp: find_Some_iff)
  then have u: "change_user h c tr = (Inr (), tr @ [Setgroups [], Setgroups (if gs \<noteq> [] then gs else [pw_uid e]),
     Setgid (pw_gid e), Setuid (pw_uid e)])"
    using assms get_user_uid_file[OF passwd(1-3), of n] get_user_gid_file[OF passwd(1-3), of n]
      user_exist_file[OF passwd(1-3), of n]
    by (simp add: change_user_def user_by_name_def lift_result_def warned_result seq_def Let_def)
  have p: "ruri_pid_file_write h Req_pid k t = (Inr (), t @ (if h_pid_fd h then [Send_status (line_of (show_int k))] else []))" for k t
    by (simp add: ruri_pid_file_write_def)
  have x: "\<exists>rest. snd (exec_command h c t) = t @ Exec (command c) # rest" for t
    by (simp add: exec_command_def seq_def ruri_pid_file_write_def)
  have f: "fork_as_init c \<Longrightarrow> ruri_fork_as_init h t = (Inr (), t @ [Fork])" for t
    using start(2) by (simp add: ruri_fork_as_init_def seq_def)
  have s: "\<exists>rest. snd (start_command h c t) = t @ [Close_fds]
     @ (if \<not> enable_unshare c \<and> h_pid_fd h then [Send_status (line_of (show_int (w_pid (h_world h))))] else [])
     @ (if fork_as_init c then [Fork] else []) @ Exec (command c) # rest" for t
    using x[of "t @ [Close_fds] @ (if \<not> enable_unshare c \<and> h_pid_fd h then [Send_status (line_of (show_int (w_pid (h_world h))))] else [])
     @ (if fork_as_init c then [Fork] else [])"] start(1)
    by (cases "fork_as_init c"; cases "enable_unshare c")
       (simp_all add: start_command_def seq_def p f panic_unless_def Let_def)
  let ?t = "tr @ [Setgroups [], Setgroups (if gs \<noteq> [] then gs else [pw_uid e]), Setgid (pw_gid e), Setuid (pw_uid e)]"
  have "snd (seq (change_user h c) (\<lambda>_. start_command h c) tr) = snd (start_command h c ?t)"
    unfolding seq_def u by simp
  moreover have "t @ [Close_fds] @ as = tr @ [Setgroups [], Setgroups g, Setgid (pw_gid e), Setuid (pw_uid e), Close_fds] @ as"
    if "t = tr @ [Setgroups [], Setgroups g, Setgid (pw_gid e), Setuid (pw_uid e)]" for t g as
    using that by simp
  ultimately show ?thesis using s[of ?t] by metis
qed

lemma drop_calls_refine_sets_witness:
  "agrees jail_host ({}, {}) \<lparr>cap_bounding = {0, 21}, cap_ambient = {21}, cap_inheritable = {5, 21, 38}\<rparr> []
     (drop_capabilities jail_host jail_container [])
     (Some (Inr \<lparr>cap_bounding = {0}, cap_ambient = {}, cap_inheritable = {38}\<rparr>))"
proof -
  let ?st = "\<lparr>cap_bounding = {0, 21}, cap_ambient = {21}, cap_inheritable = {5, 21, 38}\<rparr>"
  let ?e = "drop_env_of jail_host (\<lambda>_. True) True True ({}, {})"
  have wf: "caplist_wf 40 (drop_caplist jail_container)"
    by (simp add: caplist_wf_def jail_container_def sample_simps)
  have "agrees jail_host ({}, {}) ?st [] (drop_capabilities jail_host jail_container [])
      (drop_caps ?e (drop_caplist jail_container) ?st)"
    by (rule drop_calls_refine_sets[OF wf]) (simp_all add: jail_host_def ruri_cap_last_cap_def)
  moreover have "Set.filter (\<lambda>c. 32 \<le> c) {5, 21, 38::int} = {38}" by auto
  then have "drop_caps ?e (drop_caplist jail_container) ?st
      = Some (Inr \<lparr>cap_bounding = {0}, cap_ambient = {}, cap_inheritable = {38}\<rparr>)"
    using drop_caps_spec[OF wf, of ?e ?st]
    by (auto simp: drop_env_of_def clear_inheritable_def capset_sets_def Let_def jail_host_def jail_container_def sample_simps)
  ultimately show ?thesis by simp
qed

definition refusing_host :: host where
  "refusing_host = jail_host\<lparr>h_world := (h_world jail_host)\<lparr>w_ret := \<lambda>_ _. -1\<rparr>,
     h_etc := \<lparr>etc_passwd = Some (file_of passwd_line sample_passwd), etc_group = None, etc_subuid = None, etc_subgid = None\<rparr>\<rparr>"

lemma named_user_only_tried_witness:
  "\<exists>rest. snd (seq (change_user refusing_host (jail_container\<lparr>user := Some ''moe''\<rparr>))
       (\<lambda>_. start_command refusing_host (jail_container\<lparr>user := Some ''moe''\<rparr>)) []) =
     [Setgroups [], Setgroups [100], Setgid 100, Setuid 1000, Close_fds, Exec [''/bin/sh'']] @ rest"
proof -
  have g: "ruri_get_groups False (h_etc refusing_host) 1000 = Inr [100]"
    using get_username_file[OF sample_passwd_facts, of 1000] get_user_gid_file[OF sample_passwd_facts, of "''moe''"]
    by (simp add: refusing_host_def ruri_get_groups_def read_db_def) (simp add: sample_passwd_def read_db_def)
  have n: "atoi ''moe'' \<le> 0" by code_simp
  let ?c = "jail_container\<lparr>user := Some ''moe''\<rparr>"
  have c: "user ?c = Some ''moe''" "\<not> skip_setgroups ?c" by (simp_all add: jail_container_def sample_container_def)
  have h: "\<not> w_force_panic (h_world refusing_host)" "etc_passwd (h_etc refusing_host) = Some (file_of passwd_line sample_passwd)"
    by (simp_all add: refusing_host_def jail_host_def sample_host_def)
  have e: "find (\<lambda>e. pw_name e = ''moe'') sample_passwd = Some (sample_passwd ! 1)" "pw_uid (sample_passwd ! 1) = 1000"
      "pw_gid (sample_passwd ! 1) = 100"
    by (simp_all add: sample_passwd_def)
  have s: "systemd_mode ?c \<and> first_init ?c \<longrightarrow> w_pid (h_world refusing_host) = 1"
      "fork_as_init ?c \<longrightarrow> (\<forall>tr. w_ret (h_world refusing_host) tr Fork = 0)"
      "\<not> h_pid_fd refusing_host" "\<not> fork_as_init ?c" "command ?c = [''/bin/sh'']"
    by (simp_all add: jail_container_def sample_container_def refusing_host_def jail_host_def)
  show ?thesis
    using named_user_only_tried[OF c(1) n c(2) h(1) sample_passwd_facts h(2) e(1) _ s(1,2), of "[100]" "[]"] g e(2,3) s(3-5)
    by simp
qed

end
