(* ===== verification/Unshare.thy ===== *)
theory Unshare
  imports Confinement
begin

text \<open>
  unshare.c: a container in namespaces of its own.  Without a running container the process
  unshares its namespaces and forks into them; with one it joins the namespaces of the
  container's process and forks.  The answer to \<open>Fork\<close> decides which process is
  followed: a positive answer is the parent, which waits for the child, reports its status to
  the pid file and exits with it; 0 is the child, which goes on to run the container.
  \<open>isolated\<close> says what namespaces a process has left, and the theorem carries it to
  the moment the command of the container is executed.
\<close>

section \<open>Creating namespaces\<close>

definition timens_file :: path where "timens_file = ''/proc/self/timens_offsets''"

definition set_timens :: "world \<Rightarrow> string \<Rightarrow> int \<Rightarrow> unit prog" where
  "set_timens w clock offset =
     (if offset = 0 then ret ()
      else seq (call w (Open timens_file))
       (\<lambda>fd. if fd < 0 then die (Fatal ''Error: failed to open /proc/self/timens_offsets QwQ'')
         else run w (Write_to timens_file (clock @ '' '' @ show_int offset @ '' 0''))))"

definition unshare_time :: "world \<Rightarrow> ruri_container \<Rightarrow> unit prog" where
  "unshare_time w c =
     seq (call w (Unshare Ns_time))
      (\<lambda>r. if r \<ge> 0 then ret ()
        else if timens_realtime_offset c \<noteq> 0 \<or> timens_monotonic_offset c \<noteq> 0
        then die (Fatal ''Failed to unshare time namespace, --timens-offset cannot be enabled QwQ'')
        else warn_unless w False ''Warning: seems that time namespace is not supported on this device QwQ'')"

definition unshare_network :: "world \<Rightarrow> ruri_container \<Rightarrow> unit prog" where
  "unshare_network w c =
     (if no_network c
      then seq (call w (Unshare Ns_net))
       (\<lambda>r. if r < 0 then die (Fatal ''Failed to unshare network namespace, --no-network cannot be enabled QwQ'') else ret ())
      else ret ())"

definition unsupported :: "string \<Rightarrow> string" where
  "unsupported what = ''Warning: seems that '' @ what @ '' is not supported on this device QwQ''"

text \<open>The calls of init_unshare_container before the fork.\<close>

definition unshare_all :: "world \<Rightarrow> ruri_container \<Rightarrow> unit prog" where
  "unshare_all w c =
     seq (must w (Unshare Ns_mnt) ''Unshare container need at least mount ns support QwQ'')
      (\<lambda>_. seq (warned w (Unshare Ns_uts) (unsupported ''uts namespace''))
        (\<lambda>_. seq (warned w (Unshare Ns_ipc) (unsupported ''ipc namespace''))
          (\<lambda>_. seq (warned w (Unshare Ns_pid) (unsupported ''pid namespace''))
            (\<lambda>_. seq (warned w (Unshare Ns_cgroup) (unsupported ''cgroup namespace''))
              (\<lambda>_. seq (unshare_time w c)
                (\<lambda>_. seq (set_timens w ''monotonic'' (timens_monotonic_offset c))
                  (\<lambda>_. seq (set_timens w ''boottime'' (timens_realtime_offset c))
                    (\<lambda>_. seq (warned w (Unshare Ns_files) (unsupported ''unsharing file descriptors''))
                      (\<lambda>_. seq (warned w (Unshare Ns_fs) (unsupported ''unsharing filesystem information''))
                        (\<lambda>_. unshare_network w c))))))))))"

section \<open>The parent\<close>

definition status_request :: "int \<Rightarrow> pid_req \<times> int" where
  "status_request st =
     (if wifexited st then (Req_exited, wexitstatus st)
      else if wifsignaled st then (Req_signaled, wtermsig st) else (Req_unknown, 0))"

definition status_code :: "int \<Rightarrow> int" where
  "status_code st = (if wifexited st then wexitstatus st else if wifsignaled st then 128 + wtermsig st else 1)"

definition wait_and_exit :: "host \<Rightarrow> int \<Rightarrow> unit prog" where
  "wait_and_exit h pid =
     seq (call (h_world h) (Waitpid pid))
      (\<lambda>st. seq (ruri_pid_file_write h (fst (status_request st)) (snd (status_request st)))
        (\<lambda>_. die (Exited (show_int (status_code st)))))"

definition unshare_parent :: "host \<Rightarrow> ruri_container \<Rightarrow> int \<Rightarrow> unit prog" where
  "unshare_parent h c pid =
     seq (if use_rurienv c then store_info h (c\<lparr>ns_pid := pid\<rparr>) else ret ())
      (\<lambda>_. seq (ruri_pid_file_write h Req_pid pid)
        (\<lambda>_. seq (call (h_world h) (Pipe_read 1))
          (\<lambda>n. seq (warn_unless (h_world h) (n \<ge> 0) ''sync pipe read failed'')
            (\<lambda>_. wait_and_exit h pid))))"

text \<open>Only the child returns.\<close>

definition init_unshare_container :: "host \<Rightarrow> ruri_container \<Rightarrow> unit prog" where
  "init_unshare_container h c =
     (let w = h_world h in
      seq (unshare_all w c)
       (\<lambda>_. seq (call w Pipe)
         (\<lambda>p. if p < 0 then die (Fatal ''pipe2 sync failed, QwQ?'')
           else seq (call w Fork)
            (\<lambda>pid. if pid > 0 then unshare_parent h c pid
              else if pid = 0 then run w (Pipe_write [CHR 0x01])
              else die (Fatal ''Fork error, QwQ?'')))))"

section \<open>Joining namespaces\<close>

definition ns_file :: "int \<Rightarrow> string \<Rightarrow> path" where
  "ns_file pid ns = ''/proc/'' @ show_int pid @ ''/ns/'' @ ns"

text \<open>A namespace that has to be ns_joined, and one that may be missing on this kernel.\<close>

definition join_required :: "world \<Rightarrow> int \<Rightarrow> namespace \<Rightarrow> string \<Rightarrow> unit prog" where
  "join_required w pid ns n =
     seq (call w (Open (ns_file pid n)))
      (\<lambda>fd. if fd < 0 then die (Fatal (''failed to open namespace '' @ n))
        else seq (call w (Setns ns fd)) (\<lambda>r. if r < 0 then die (Fatal (''Failed to setns '' @ n)) else ret ()))"

definition join_supported :: "world \<Rightarrow> int \<Rightarrow> namespace \<Rightarrow> string \<Rightarrow> unit prog" where
  "join_supported w pid ns n =
     seq (call w (Open (ns_file pid n)))
      (\<lambda>fd. if fd < 0 then warn_unless w False (unsupported n)
        else seq (call w (Setns ns fd)) (\<lambda>r. if r < 0 then die (Fatal (''Failed to setns '' @ n)) else ret ()))"

definition join_network :: "world \<Rightarrow> ruri_container \<Rightarrow> unit prog" where
  "join_network w c =
     (if no_network c then join_required w (ns_pid c) Ns_net ''net''
      else seq (call w (Open (ns_file (ns_pid c) ''net''))) (\<lambda>fd. run w (Setns Ns_net fd)))"

definition join_ns :: "host \<Rightarrow> ruri_container \<Rightarrow> unit prog" where
  "join_ns h c =
     (let w = h_world h; pid = ns_pid c in
      seq (run w Close_fds)
       (\<lambda>_. seq (join_supported w pid Ns_pid ''pid'')
         (\<lambda>_. seq (join_supported w pid Ns_time ''time'')
           (\<lambda>_. seq (join_supported w pid Ns_uts ''uts'')
             (\<lambda>_. seq (join_supported w pid Ns_cgroup ''cgroup'')
               (\<lambda>_. seq (join_supported w pid Ns_ipc ''ipc'')
                 (\<lambda>_. seq (join_network w c)
                   (\<lambda>_. seq (join_required w pid Ns_mnt ''mnt'')
                     (\<lambda>_. seq (run w (Unshare Ns_files))
                       (\<lambda>_. seq (call w Fork)
                         (\<lambda>f. if f > 0 then seq (ruri_pid_file_write h Req_pid f) (\<lambda>_. wait_and_exit h f)
                           else if f < 0 then die (Fatal ''Fork error, QwQ?'') else ret ())))))))))))"

section \<open>Running\<close>

definition systemd_group :: "int \<Rightarrow> path" where
  "systemd_group cid = ''/sys/fs/cgroup/ruri/'' @ show_int cid"

definition enter_group :: "world \<Rightarrow> int \<Rightarrow> unit prog" where
  "enter_group w cid =
     (let p = systemd_group cid @ ''/cgroup.procs'' in
      seq (call w (Open p))
       (\<lambda>fd. if fd < 0 then die (Fatal ''Failed to open cgroup.procs QwQ'') else run w (Write_to p (show_int (w_pid w)))))"

definition setup_cgroup2 :: "world \<Rightarrow> int \<Rightarrow> unit prog" where
  "setup_cgroup2 w cid =
     seq (run w (Mkdir ''/sys/fs/cgroup/ruri'' 493))
      (\<lambda>_. seq (call w (Mkdir (systemd_group cid) 493))
        (\<lambda>r. if r < 0 then die (Fatal ''Failed to create cgroup directory QwQ'') else enter_group w cid))"

definition join_cgroup2 :: "world \<Rightarrow> int \<Rightarrow> unit prog" where "join_cgroup2 w cid = enter_group w cid"

text \<open>The container the child runs with.\<close>

definition enter_namespaces :: "host \<Rightarrow> ruri_container \<Rightarrow> ruri_container prog" where
  "enter_namespaces h c =
     (let w = h_world h in
      if ns_pid c < 0 then
        (if is_health_check c
         then die (Fatal ''Error: health check should not run before container is initialized QwQ'')
         else seq (if systemd_mode c then setup_cgroup2 w (container_id c) else ruri_set_limit w c)
          (\<lambda>_. seq (init_unshare_container h c) (\<lambda>_. ret c)))
      else seq (if systemd_mode c then join_cgroup2 w (container_id c) else ruri_set_limit w c)
       (\<lambda>_. seq (join_ns h c) (\<lambda>_. ret (c\<lparr>first_init := False\<rparr>))))"

definition ruri_run_unshare_container :: "host \<Rightarrow> ruri_container \<Rightarrow> unit prog" where
  "ruri_run_unshare_container h c =
     seq (check_container_dir (h_world h) c)
      (\<lambda>_. seq (if use_rurienv c then sync_info h c else ret c)
        (\<lambda>c1. seq (enter_namespaces h c1) (ruri_run_chroot_container h)))"

section \<open>What the process has left\<close>

definition ns_joined :: "world \<Rightarrow> int \<Rightarrow> namespace \<Rightarrow> string \<Rightarrow> sys_call list \<Rightarrow> bool" where
  "ns_joined w pid ns n tr = (\<exists>fd \<ge> 0. happened (\<lambda>pre. w_ret w pre (Open (ns_file pid n)) = fd
     \<and> w_ret w (pre @ [Open (ns_file pid n)]) (Setns ns fd) \<ge> 0) [Open (ns_file pid n), Setns ns fd] tr)"

definition accepted :: "world \<Rightarrow> sys_call \<Rightarrow> sys_call list \<Rightarrow> bool" where
  "accepted w c = made_when (\<lambda>pre. w_ret w pre c \<ge> 0) c"

definition isolated :: "world \<Rightarrow> ruri_container \<Rightarrow> sys_call list \<Rightarrow> bool" where
  "isolated w c tr =
     (if ns_pid c < 0 then succeeded w (Unshare Ns_mnt) tr \<and> (no_network c \<longrightarrow> accepted w (Unshare Ns_net) tr)
      else ns_joined w (ns_pid c) Ns_mnt ''mnt'' tr \<and> (no_network c \<longrightarrow> ns_joined w (ns_pid c) Ns_net ''net'' tr))"

lemma lasting_joined: "lasting (ns_joined w pid ns n)"
  using lasting_happened unfolding lasting_def ns_joined_def by blast

lemma lasting_accepted: "lasting (accepted w c)"
  unfolding accepted_def by (rule lasting_made_when)

lemma lasting_isolated: "lasting (isolated w c)"
proof (cases "ns_pid c < 0")
  case True
  then show ?thesis unfolding isolated_def[abs_def] by simp (intro lasting_intros lasting_succeeded lasting_accepted)
next
  case False
  then show ?thesis unfolding isolated_def[abs_def] by simp (intro lasting_intros lasting_joined)
qed

subsection \<open>No command is executed before\<close>

context setup_policy
begin

lemma group_only: "only allowed (setup_cgroup2 w cid)" "only allowed (join_cgroup2 w cid)"
  unfolding setup_cgroup2_def join_cgroup2_def enter_group_def Let_def by (intro only_intros; simp)+

end

lemma must_only: "\<not> is_exec c \<Longrightarrow> only (\<lambda>c. \<not> is_exec c) (must w c m)"
  unfolding must_def by (intro only_intros)

lemma panic_only: "only A (panic_unless b m)"
  unfolding panic_unless_def by (intro only_intros)

lemma join_only: "only (\<lambda>c. \<not> is_exec c) (join_required w pid ns n)" "only (\<lambda>c. \<not> is_exec c) (join_supported w pid ns n)"
    "only (\<lambda>c. \<not> is_exec c) (join_network w c)"
proof -
  show a: "only (\<lambda>c. \<not> is_exec c) (join_required w pid ns n)" for pid ns n
    unfolding join_required_def by (intro only_intros; simp)
  show "only (\<lambda>c. \<not> is_exec c) (join_supported w pid ns n)"
    unfolding join_supported_def by (intro only_intros; simp)
  show "only (\<lambda>c. \<not> is_exec c) (join_network w c)"
    unfolding join_network_def by (intro only_intros a; simp)
qed

lemma parent_only: "only (\<lambda>c. \<not> is_exec c) (wait_and_exit h pid)" "only (\<lambda>c. \<not> is_exec c) (unshare_parent h c pid)"
  "only (\<lambda>c. \<not> is_exec c) (store_info h c)" "only (\<lambda>c. \<not> is_exec c) (sync_info h c)"
proof -
  show a: "only (\<lambda>c. \<not> is_exec c) (wait_and_exit h pid)"
    unfolding wait_and_exit_def by (intro only_intros fork_quiet; simp)
  show b: "only (\<lambda>c. \<not> is_exec c) (store_info h c)" for c
    unfolding store_info_def by (intro only_intros quiet.file_calls_only)
  show "only (\<lambda>c. \<not> is_exec c) (unshare_parent h c pid)"
    unfolding unshare_parent_def by (intro only_intros fork_quiet a b; simp)
  show "only (\<lambda>c. \<not> is_exec c) (sync_info h c)"
    unfolding sync_info_def by (auto intro!: only_intros quiet.file_calls_only split: prod.splits)
qed

lemma namespaces_only:
  "only (\<lambda>c. \<not> is_exec c) (unshare_all w c)" "only (\<lambda>c. \<not> is_exec c) (init_unshare_container h c)"
  "only (\<lambda>c. \<not> is_exec c) (join_ns h c)" "only (\<lambda>c. \<not> is_exec c) (enter_namespaces h c)"
proof -
  show a: "only (\<lambda>c. \<not> is_exec c) (unshare_all w c)" for w
    unfolding unshare_all_def unshare_time_def set_timens_def unshare_network_def
    by (intro only_intros must_only; simp)
  show b: "only (\<lambda>c. \<not> is_exec c) (init_unshare_container h c)"
    unfolding init_unshare_container_def Let_def by (intro only_intros a parent_only; simp)
  show d: "only (\<lambda>c. \<not> is_exec c) (join_ns h c)"
    unfolding join_ns_def Let_def by (intro only_intros join_only parent_only fork_quiet; simp)
  show "only (\<lambda>c. \<not> is_exec c) (enter_namespaces h c)"
    unfolding enter_namespaces_def Let_def by (intro only_intros b d quiet.group_only quiet.set_limit_only)
qed


subsection \<open>The child has left the namespaces\<close>

definition forked :: "world \<Rightarrow> sys_call list \<Rightarrow> bool" where
  "forked w = made_when (\<lambda>pre. w_ret w pre Fork = 0) Fork"

lemma lasting_forked: "lasting (forked w)"
  unfolding forked_def by (rule lasting_made_when)

lemma triple_kept: "lasting F \<Longrightarrow> only A p \<Longrightarrow> triple (\<lambda>tr. F tr \<and> G tr) p (\<lambda>_. F)"
  unfolding triple_def lasting_def by (metis onlyD)

lemma must_done: "triple P (must w c m) (\<lambda>_. succeeded w c)"
  by (auto simp: triple_def must_def panic_unless_def succeeded_def made_when_last split: if_splits)

lemma network_left: "triple P (unshare_network w c) (\<lambda>_ tr. no_network c \<longrightarrow> accepted w (Unshare Ns_net) tr)"
  by (auto simp: triple_def unshare_network_def accepted_def made_when_last split: if_splits)

lemma unshare_isolated:
  "triple P (unshare_all w c) (\<lambda>_ tr. succeeded w (Unshare Ns_mnt) tr \<and> (no_network c \<longrightarrow> accepted w (Unshare Ns_net) tr))"
proof (rule triple_conj)
  show "triple P (unshare_all w c) (\<lambda>_. succeeded w (Unshare Ns_mnt))"
    unfolding unshare_all_def unshare_time_def set_timens_def unshare_network_def
    by (rule triple_first[OF must_done lasting_succeeded]) (intro only_intros must_only; simp)
  show "triple P (unshare_all w c) (\<lambda>_ tr. no_network c \<longrightarrow> accepted w (Unshare Ns_net) tr)"
    unfolding unshare_all_def by ((rule triple_second)+, rule network_left)
qed

lemma no_return: "triple P (wait_and_exit h pid) Q" "triple P (unshare_parent h c pid) Q"
  unfolding unshare_parent_def wait_and_exit_def by ((rule triple_second)+, rule triple_die)+

lemma init_isolated:
  "triple P (init_unshare_container h c) (\<lambda>_ tr. (succeeded (h_world h) (Unshare Ns_mnt) tr
     \<and> (no_network c \<longrightarrow> accepted (h_world h) (Unshare Ns_net) tr)) \<and> forked (h_world h) tr)"
proof -
  let ?w = "h_world h"
  let ?I = "\<lambda>tr. succeeded ?w (Unshare Ns_mnt) tr \<and> (no_network c \<longrightarrow> accepted ?w (Unshare Ns_net) tr)"
  let ?rest = "\<lambda>p. if p < 0 then die (Fatal ''pipe2 sync failed, QwQ?'') else seq (call ?w Fork)
    (\<lambda>pid. if pid > 0 then unshare_parent h c pid else if pid = 0 then run ?w (Pipe_write [CHR 0x01])
      else die (Fatal ''Fork error, QwQ?''))"
  have l: "lasting ?I" by (intro lasting_intros lasting_succeeded lasting_accepted)
  have f: "triple P (call ?w Fork) (\<lambda>pid tr. pid = 0 \<longrightarrow> forked ?w tr)" for P
    by (rule triple_call) (simp add: forked_def made_when_last)
  have c: "triple (\<lambda>tr. pid = 0 \<longrightarrow> forked ?w tr) (if pid > 0 then unshare_parent h c pid
      else if pid = 0 then run ?w (Pipe_write [CHR 0x01]) else die (Fatal ''Fork error, QwQ?'')) (\<lambda>_. forked ?w)" for pid
    by (intro triple_if no_return triple_die)
       (rule triple_conseq[OF triple_keep[OF only_basic(5)[where P = "\<lambda>_. True"] lasting_forked]], simp_all)
  have g: "triple P (?rest p) (\<lambda>_. forked ?w)" for p P
    by (rule triple_if, rule triple_die, rule triple_seq[OF f c])
  have r: "only (\<lambda>c. \<not> is_exec c) (?rest p)" for p
    by (intro only_intros parent_only; simp)
  have po: "only (\<lambda>c. \<not> is_exec c) (seq (call ?w Pipe) ?rest)"
    by (rule only_seq[OF only_basic(4) r]) simp
  have "triple ?I (seq (call ?w Pipe) ?rest) (\<lambda>_ tr. ?I tr \<and> forked ?w tr)"
    by (rule triple_conj[OF triple_keep[OF po l] triple_second[OF g]])
  then show ?thesis unfolding init_unshare_container_def Let_def by (rule triple_seq[OF unshare_isolated])
qed

lemma required_joined: "triple P (join_required w pid ns n) (\<lambda>_. ns_joined w pid ns n)"
  unfolding triple_def
proof (intro allI impI)
  fix tr v tr'
  let ?o = "Open (ns_file pid n)"
  let ?fd = "w_ret w tr ?o"
  assume "join_required w pid ns n tr = (Inr v, tr')"
  then have "?fd \<ge> 0" "w_ret w (tr @ [?o]) (Setns ns ?fd) \<ge> 0" and t: "tr' = tr @ [?o, Setns ns ?fd]"
    by (auto simp: join_required_def split: if_splits)
  then show "ns_joined w pid ns n tr'"
    unfolding ns_joined_def t by (intro exI[of _ ?fd] conjI happened_last) simp_all
qed

lemma network_joined: "triple P (join_network w c) (\<lambda>_ tr. no_network c \<longrightarrow> ns_joined w (ns_pid c) Ns_net ''net'' tr)"
  unfolding join_network_def by (rule triple_if, rule triple_post[OF required_joined], simp) (rule triple_post[OF triple_any], simp)

lemma join_isolated:
  "triple P (join_ns h c) (\<lambda>_ tr. (ns_joined (h_world h) (ns_pid c) Ns_mnt ''mnt'' tr
     \<and> (no_network c \<longrightarrow> ns_joined (h_world h) (ns_pid c) Ns_net ''net'' tr)) \<and> forked (h_world h) tr)"
proof -
  let ?w = "h_world h"
  let ?M = "ns_joined ?w (ns_pid c) Ns_mnt ''mnt''"
  let ?N = "\<lambda>tr. no_network c \<longrightarrow> ns_joined ?w (ns_pid c) Ns_net ''net'' tr"
  have lN: "lasting ?N" by (intro lasting_intros lasting_joined)
  let ?fin = "seq (run ?w (Unshare Ns_files)) (\<lambda>_. seq (call ?w Fork)
    (\<lambda>f. if f > 0 then seq (ruri_pid_file_write h Req_pid f) (\<lambda>_. wait_and_exit h f)
      else if f < 0 then die (Fatal ''Fork error, QwQ?'') else ret ()))"
  have f: "triple P (call ?w Fork) (\<lambda>pid tr. pid = 0 \<longrightarrow> forked ?w tr)" for P
    by (rule triple_call) (simp add: forked_def made_when_last)
  have e1: "triple P ?fin (\<lambda>_. forked ?w)" for P
    by (rule triple_second, rule triple_seq[OF f], rule triple_if, rule triple_second, rule no_return,
        rule triple_if, rule triple_die, rule triple_ret, simp)
  have e2: "only (\<lambda>c. \<not> is_exec c) ?fin"
    by (intro only_intros parent_only fork_quiet; simp)
  have m: "triple P (join_required ?w (ns_pid c) Ns_mnt ''mnt'') (\<lambda>_. ?M)" for P by (rule required_joined)
  have M: "triple P (seq (join_required ?w (ns_pid c) Ns_mnt ''mnt'') (\<lambda>_. ?fin)) (\<lambda>_ tr. ?M tr \<and> forked ?w tr)" for P
    by (rule triple_conj[OF triple_first[OF m lasting_joined e2] triple_second[OF e1]])
  have "triple P (seq (join_network ?w c) (\<lambda>_. seq (join_required ?w (ns_pid c) Ns_mnt ''mnt'') (\<lambda>_. ?fin)))
      (\<lambda>_ tr. ?N tr \<and> ?M tr \<and> forked ?w tr)" for P
    by (rule triple_conj[OF triple_first[OF network_joined lN only_seq[OF join_only(1) e2]] triple_second[OF M]])
  note n = this
  have "triple P (join_ns h c) (\<lambda>_ tr. ?N tr \<and> ?M tr \<and> forked ?w tr)"
    unfolding join_ns_def Let_def
    by (rule triple_second, rule triple_second, rule triple_second, rule triple_second, rule triple_second,
        rule triple_second, rule n)
  then show ?thesis by (rule triple_post) simp
qed

lemma namespaces_entered:
  "triple P (enter_namespaces h c) (\<lambda>c' tr. (isolated (h_world h) c tr \<and> forked (h_world h) tr)
     \<and> c' \<in> {c, c\<lparr>first_init := False\<rparr>})"
proof -
  have "triple P (seq p (\<lambda>_. ret c')) (\<lambda>c'' tr. Q tr \<and> c'' \<in> S)" if "triple P p (\<lambda>_. Q)" "c' \<in> S"
    for P Q p c' and S :: "ruri_container set"
    using that(2) by (intro triple_seq[OF that(1)] triple_ret) simp
  note r = this
  show ?thesis unfolding enter_namespaces_def Let_def
  proof (rule triple_if)
    assume n: "ns_pid c < 0"
    show "triple P (if is_health_check c
         then die (Fatal ''Error: health check should not run before container is initialized QwQ'')
         else seq (if systemd_mode c then setup_cgroup2 (h_world h) (container_id c) else ruri_set_limit (h_world h) c)
          (\<lambda>_. seq (init_unshare_container h c) (\<lambda>_. ret c)))
      (\<lambda>c' tr. (isolated (h_world h) c tr \<and> forked (h_world h) tr) \<and> c' \<in> {c, c\<lparr>first_init := False\<rparr>})"
      by (rule triple_if, rule triple_die, rule triple_second, rule r, rule triple_post[OF init_isolated])
         (simp_all add: isolated_def n)
  next
    assume n: "\<not> ns_pid c < 0"
    show "triple P (seq (if systemd_mode c then join_cgroup2 (h_world h) (container_id c) else ruri_set_limit (h_world h) c)
       (\<lambda>_. seq (join_ns h c) (\<lambda>_. ret (c\<lparr>first_init := False\<rparr>))))
      (\<lambda>c' tr. (isolated (h_world h) c tr \<and> forked (h_world h) tr) \<and> c' \<in> {c, c\<lparr>first_init := False\<rparr>})"
      by (rule triple_second, rule r, rule triple_post[OF join_isolated]) (simp_all add: isolated_def n)
  qed
qed

section \<open>The command\<close>

lemma guards_frame:
  assumes "guards (\<lambda>_. True) p N" "lasting F"
  shows "guards F p (\<lambda>tr argv. F tr \<and> N tr argv)"
  using assms unfolding guards_def lasting_def by blast

lemma config_synced: "triple P (if use_rurienv c then sync_info h c else ret c) (\<lambda>c1 _. configured h c c1)"
proof (rule triple_if)
  assume u: "use_rurienv c"
  show "triple P (sync_info h c) (\<lambda>c1 _. configured h c c1)"
    by (rule triple_post[OF info_synced]) (simp add: configured_def u)
qed (rule triple_ret, simp add: configured_def)

lemma unshare_guarded:
  "guards (\<lambda>_. True) (ruri_run_unshare_container h c)
     (\<lambda>tr argv. \<exists>c1 c2 c'. configured h c c1 \<and> c2 \<in> {c1, c1\<lparr>first_init := False\<rparr>} \<and> runs_as h c2 c' \<and> argv = command c'
        \<and> isolated (h_world h) c1 tr \<and> forked (h_world h) tr \<and> confined (root_entered (h_world h) c') h c' tr)"
    (is "guards _ _ ?N")
proof -
  let ?w = "h_world h"
  have so: "only (\<lambda>c. \<not> is_exec c) (if use_rurienv c then sync_info h c else ret c)"
    by (intro only_intros parent_only)
  have d: "triple (\<lambda>_. True) (check_container_dir ?w c) (\<lambda>_ _. True)" by (rule triple_any)
  have do: "only (\<lambda>c. \<not> is_exec c) (check_container_dir ?w c)"
    unfolding check_container_dir_def by (intro only_intros panic_only)
  have "guards (\<lambda>_. configured h c c1) (seq (enter_namespaces h c1) (ruri_run_chroot_container h)) ?N" for c1
  proof (rule guards_seq)
    show "triple (\<lambda>_. configured h c c1) (enter_namespaces h c1) (\<lambda>c2 tr. (isolated ?w c1 tr \<and> forked ?w tr)
        \<and> configured h c c1 \<and> c2 \<in> {c1, c1\<lparr>first_init := False\<rparr>})"
      by (rule triple_fixed, rule triple_post[OF namespaces_entered], simp)
    fix c2
    let ?F = "\<lambda>tr. (isolated ?w c1 tr \<and> forked ?w tr) \<and> configured h c c1 \<and> c2 \<in> {c1, c1\<lparr>first_init := False\<rparr>}"
    have "lasting ?F" by (intro lasting_intros lasting_isolated lasting_forked)
    from guards_frame[OF container_guarded this, of h c2]
    show "guards ?F (ruri_run_chroot_container h c2) ?N"
      unfolding guards_def by blast
  qed (rule namespaces_only)
  then show ?thesis unfolding ruri_run_unshare_container_def
    by (intro guards_seq[OF d do] guards_seq[OF config_synced so])
qed

text \<open>C3: Whatever the kernel answers, the command of an unshare container runs only in a child
  process that has left the host's mount namespace (by unshare(2), or by setns(2) to the namespace
  of the container's running process) and, with --no-network, also its network namespace, and that
  has then been confined like every container.\<close>

theorem unshare_command_isolated:
  assumes "ruri_run_unshare_container h c [] = (r, pre @ Exec argv # post)"
  shows "\<exists>c1 c2 c'. configured h c c1 \<and> c2 \<in> {c1, c1\<lparr>first_init := False\<rparr>} \<and> runs_as h c2 c' \<and> argv = command c'
    \<and> isolated (h_world h) c1 pre \<and> forked (h_world h) pre \<and> confined (root_entered (h_world h) c') h c' pre"
  using guardsD[OF unshare_guarded TrueI, of h c "[]" r pre argv post] assms by simp

text \<open>The parent ends with the status of the child, which it has sent to the pid file before.\<close>

lemma parent_exits_like_child:
  assumes "h_pid_fd h"
  shows "\<exists>m. pid_message (fst (status_request st)) (snd (status_request st)) = Some m
    \<and> (w_ret (h_world h) tr (Waitpid pid) = st \<longrightarrow>
       wait_and_exit h pid tr = (Inl (Exited (show_int (status_code st))), tr @ [Waitpid pid, Send_status m]))"
  using assms by (auto simp: wait_and_exit_def ruri_pid_file_write_def status_request_def)

section \<open>Witness\<close>

definition cell_container :: ruri_container where
  "cell_container = jail_container\<lparr>enable_unshare := True, first_init := False, no_network := True, skip_setgroups := True\<rparr>"

lemma cell_runs: "first_command (ruri_run_unshare_container jail_host cell_container []) = Some (Exec [''/bin/sh''])"
  by code_simp

lemma unshare_command_isolated_witness:
  "\<exists>c1 c2 c'. configured jail_host cell_container c1 \<and> c2 \<in> {c1, c1\<lparr>first_init := False\<rparr>} \<and> runs_as jail_host c2 c'
    \<and> [''/bin/sh''] = command c'
    \<and> isolated (h_world jail_host) c1 (calls_before (ruri_run_unshare_container jail_host cell_container []))
    \<and> forked (h_world jail_host) (calls_before (ruri_run_unshare_container jail_host cell_container []))
    \<and> confined (root_entered (h_world jail_host) c') jail_host c'
        (calls_before (ruri_run_unshare_container jail_host cell_container []))"
  by (rule unshare_command_isolated[OF run_splits[OF cell_runs]])

end
