(* ===== verification/Rootless.thy ===== *)
theory Rootless
  imports Unshare
begin

text \<open>
  rootless.c: a container without root privileges.  The process forks a helper, becomes the
  owner of a new user namespace and lets the helper write its id map with the programs
  newuidmap and newgidmap (or joins the user namespace of the running container); then it
  leaves the other namespaces and forks again.  The parent writes the id map itself when the
  helper failed, stores the information of the container, tells the child to go on and waits
  for it; the child makes the runtime directories by bind mounts from the host and runs the
  container.  As in Unshare the answers to \<open>Fork\<close> choose the process.
\<close>

section \<open>The helper that maps ids\<close>

text \<open>A failing fork leaves the status 0, since waitpid(-1) finds no child.\<close>

definition try_execvp :: "world \<Rightarrow> string list \<Rightarrow> int prog" where
  "try_execvp w argv =
     seq (call w Fork)
      (\<lambda>pid. if pid = 0 then seq (call w (Exec argv)) (\<lambda>r. die (Exited (if r < 0 then ''114'' else ''exec'')))
        else if pid < 0 then ret 0
        else seq (call w (Waitpid pid)) (\<lambda>st. ret (if wifexited st then wexitstatus st else -1)))"

definition show_id :: "uid \<Rightarrow> string" where "show_id u = show_int (sint u)"

definition map_command :: "string \<Rightarrow> int \<Rightarrow> uid \<Rightarrow> uid \<Rightarrow> uid \<Rightarrow> string list" where
  "map_command prog ppid own lower count =
     [prog, show_int ppid, ''0'', show_id own, ''1'', ''1'', show_id lower, show_id count]"

definition try_setup_idmap :: "host \<Rightarrow> int prog" where
  "try_setup_idmap h =
     (let w = h_world h in
      seq (lift_result (ruri_get_idmap (h_host_etc h) (h_euid h) (h_egid h)))
       (\<lambda>m. if gid_lower m = 0 \<or> uid_lower m = 0 then ret (-1)
         else seq (try_execvp w (map_command ''newuidmap'' (w_pid w) (idm_uid m) (uid_lower m) (uid_count m)))
          (\<lambda>r. if r \<noteq> 0 then ret (-1)
            else seq (try_execvp w (map_command ''newgidmap'' (w_pid w) (idm_gid m) (gid_lower m) (gid_count m)))
             (\<lambda>r. ret (if r \<noteq> 0 then -1 else 0)))))"

definition idmap_helper :: "host \<Rightarrow> ruri_container \<Rightarrow> bool prog" where
  "idmap_helper h c =
     (if ns_pid c < 0
      then seq (call (h_world h) (Pipe_read 1))
       (\<lambda>n. if n \<noteq> 1 then die (Exited ''1'')
         else seq (try_setup_idmap h) (\<lambda>st. die (Exited (show_int (st mod 256)))))
      else die (Exited ''0''))"

section \<open>Namespaces\<close>

definition try_unshare :: "world \<Rightarrow> namespace \<Rightarrow> unit prog" where
  "try_unshare w ns =
     seq (call w (Unshare ns))
      (\<lambda>r. if r < 0 then die (Fatal ''Your device does not support some namespaces needed!'') else ret ())"

definition unshare_or_warn :: "world \<Rightarrow> namespace \<Rightarrow> string \<Rightarrow> unit prog" where
  "unshare_or_warn w ns what = seq (call w (Unshare ns)) (\<lambda>r. warn_unless w (r \<ge> 0) (unsupported what))"

text \<open>Whether the id map is set.\<close>

definition own_user_ns :: "host \<Rightarrow> ruri_container \<Rightarrow> int \<Rightarrow> bool prog" where
  "own_user_ns h c helper =
     (let w = h_world h in
      if ns_pid c < 0
      then seq (try_unshare w Ns_user)
       (\<lambda>_. seq (run w (Set_dumpable True))
         (\<lambda>_. seq (call w (Pipe_write ''1''))
           (\<lambda>n. if n \<noteq> 1 then die (Fatal ''Failed to signal child for idmap setup'')
             else seq (call w (Waitpid helper)) (\<lambda>st. ret (wexitstatus st = 0)))))
      else seq (join_required w (ns_pid c) Ns_user ''user'')
       (\<lambda>_. seq (run w (Waitpid helper)) (\<lambda>_. ret True)))"

definition setup_user_ns :: "host \<Rightarrow> ruri_container \<Rightarrow> bool prog" where
  "setup_user_ns h c =
     (let w = h_world h in
      seq (if ns_pid c < 0
           then seq (call w Pipe) (\<lambda>p. if p < 0 then die (Fatal ''Failed to create sync pipe for userns setup'') else ret ())
           else ret ())
       (\<lambda>_. seq (call w Fork)
         (\<lambda>pid. if pid > 0 then own_user_ns h c pid
           else if pid = 0 then idmap_helper h c
           else die (Fatal ''Fork error QwQ?''))))"

definition link_text :: "string option \<Rightarrow> string" where
  "link_text l = (case l of None \<Rightarrow> [] | Some t \<Rightarrow> t)"

definition join_other_network :: "world \<Rightarrow> int \<Rightarrow> unit prog" where
  "join_other_network w pid =
     seq (ask (\<lambda>tr. link_text (w_readlink w tr ''/proc/self/ns/net'') = link_text (w_readlink w tr (ns_file pid ''net''))))
      (\<lambda>same. if same then ret ()
        else seq (call w (Open (ns_file pid ''net'')))
         (\<lambda>fd. if fd < 0 then warn_unless w False (unsupported ''network namespace'')
           else seq (call w (Setns Ns_net fd)) (\<lambda>r. warn_unless w (r \<ge> 0) (unsupported ''network namespace''))))"

definition join_rootless :: "world \<Rightarrow> int \<Rightarrow> unit prog" where
  "join_rootless w pid =
     seq (join_required w pid Ns_mnt ''mnt'')
      (\<lambda>_. seq (join_required w pid Ns_pid ''pid'')
        (\<lambda>_. seq (join_supported w pid Ns_uts ''uts'')
          (\<lambda>_. seq (join_supported w pid Ns_ipc ''ipc'')
            (\<lambda>_. seq (join_supported w pid Ns_cgroup ''cgroup'')
              (\<lambda>_. seq (join_supported w pid Ns_time ''time'')
                (\<lambda>_. join_other_network w pid))))))"

definition rootless_time :: "world \<Rightarrow> ruri_container \<Rightarrow> unit prog" where
  "rootless_time w c =
     seq (call w (Unshare Ns_time))
      (\<lambda>r. if r \<ge> 0 then ret ()
        else if timens_realtime_offset c \<noteq> 0 \<or> timens_monotonic_offset c \<noteq> 0
        then die (Fatal ''Failed to unshare time namespace QwQ'')
        else if no_warnings c then warn_unless w False (unsupported ''time namespace'') else ret ())"

text \<open>The descriptor is not tested: a write to a failed one does nothing.\<close>

definition rootless_timens :: "world \<Rightarrow> string \<Rightarrow> int \<Rightarrow> unit prog" where
  "rootless_timens w clock offset =
     (if offset = 0 then ret ()
      else seq (call w (Open timens_file))
       (\<lambda>fd. if fd < 0 then ret () else run w (Write_to timens_file (clock @ '' '' @ show_int offset @ '' 0''))))"

definition rootless_network :: "world \<Rightarrow> ruri_container \<Rightarrow> unit prog" where
  "rootless_network w c =
     (if no_network c
      then seq (call w (Unshare Ns_net))
       (\<lambda>r. if r < 0 then die (Fatal ''--no-network detected, but failed to unshare network namespace QwQ'') else ret ())
      else ret ())"

definition unshare_rootless :: "world \<Rightarrow> ruri_container \<Rightarrow> unit prog" where
  "unshare_rootless w c =
     (if is_health_check c then die (Fatal ''Health check should not run when container is not initialized QwQ'')
      else seq (try_unshare w Ns_mnt)
       (\<lambda>_. seq (try_unshare w Ns_pid)
         (\<lambda>_. seq (unshare_or_warn w Ns_uts ''uts namespace'')
           (\<lambda>_. seq (unshare_or_warn w Ns_ipc ''ipc namespace'')
             (\<lambda>_. seq (unshare_or_warn w Ns_cgroup ''cgroup namespace'')
               (\<lambda>_. seq (rootless_time w c)
                 (\<lambda>_. seq (rootless_timens w ''monotonic'' (timens_monotonic_offset c))
                   (\<lambda>_. seq (rootless_timens w ''boottime'' (timens_realtime_offset c))
                     (\<lambda>_. seq (unshare_or_warn w Ns_sysvsem ''semaphore namespace'')
                       (\<lambda>_. seq (unshare_or_warn w Ns_files ''unsharing file descriptors'')
                         (\<lambda>_. seq (unshare_or_warn w Ns_fs ''unsharing filesystem information'')
                           (\<lambda>_. rootless_network w c))))))))))))"

definition rootless_namespaces :: "world \<Rightarrow> ruri_container \<Rightarrow> bool \<Rightarrow> unit prog" where
  "rootless_namespaces w c mapped =
     (if ns_pid c > 0 \<and> mapped then join_rootless w (ns_pid c) else unshare_rootless w c)"

section \<open>The runtime directories\<close>

definition dev_bind :: "string \<Rightarrow> sys_call list" where
  "dev_bind f = [Create (''./dev/'' @ f), Mount (''/dev/'' @ f) (''./dev/'' @ f) None ms_bind None]"

definition rootless_mounts :: "ruri_container \<Rightarrow> sys_call list" where
  "rootless_mounts c =
     [Mount (dir_of c) (dir_of c) None (ms_bind OR ms_rec) None, Chdir (dir_of c),
      Mkdir ''./sys'' mode_rw, Mount ''/sys'' ''./sys'' None (ms_bind OR ms_rec) None,
      Mkdir ''./proc'' mode_rw, Mount ''proc'' ''./proc'' (Some ''proc'') safe_mount None,
      Mkdir ''./dev'' mode_rw, Mount ''tmpfs'' ''./dev'' (Some ''tmpfs'') ms_nosuid tmpfs_64k]
     @ concat (map dev_bind [''full'', ''null'', ''random'', ''urandom'', ''zero''])
     @ (if use_kvm c then dev_bind ''kvm'' else [])
     @ [Mkdir ''./dev/pts'' mode_rw,
        Mount ''devpts'' ''./dev/pts'' (Some ''devpts'') (ms_nosuid OR ms_noexec) (Some devpts_options),
        Symlink ''./dev/pts/ptmx'' ''./dev/ptmx'', Symlink ''/proc/self/fd'' ''./dev/fd'',
        Symlink ''/proc/self/fd/0'' ''./dev/stdin'', Symlink ''/proc/self/fd/1'' ''./dev/stdout'',
        Symlink ''/proc/self/fd/2'' ''./dev/stderr'', Symlink ''./dev/null'' ''./dev/tty0'',
        Symlink ''./dev/null'' ''./dev/console'', Symlink ''./dev/null'' ''./dev/tty'']"

text \<open>Names that do not fit the buffers of PATH_MAX, and incomplete triples, are undefined.\<close>

fun bind_char_devs :: "world \<Rightarrow> string list \<Rightarrow> unit prog" where
  "bind_char_devs w [] = ret ()"
| "bind_char_devs w (dev # devs) =
     seq (ruri_mkdirs w dev mode_rw)
      (\<lambda>_. seq (run w (Rmdir dev))
        (\<lambda>_. if length (''./dev/'' @ dev) \<ge> path_max then die (Undefined ''sprintf past the end of a buffer'')
          else seq (run_all w (dev_bind dev))
           (\<lambda>_. case devs of
               major # minor # rest \<Rightarrow> bind_char_devs w rest
             | _ \<Rightarrow> die (Undefined ''read past the end of char_devs''))))"

definition rootless_masks :: "sys_call list" where
  "rootless_masks =
     concat (map protect [''./proc/bus'', ''./proc/fs'', ''./proc/irq'', ''./proc/sys'', ''./proc/sys-trigger''])
     @ map mask_tmpfs [''./proc/asound'', ''./proc/acpi'']
     @ map mask_null [''./proc/kcore'', ''./proc/keys'', ''./proc/latency_stats'', ''./proc/timer_list'',
         ''./proc/timer_stats'', ''./proc/sched_debug'', ''/proc/sysrq-trigger'']
     @ map mask_tmpfs [''./proc/scsi'', ''./sys/firmware'', ''./sys/devices/virtual/powercap'', ''./sys/block'',
         ''/sys/kernel/debug'', ''./sys/module'', ''./sys/class/net'', ''./sys/fs/cgroup'']
     @ [Mount ''/dev/null'' ''./sys/class/tty/console/active'' None ms_bind None]"

definition init_rootless_container :: "world \<Rightarrow> ruri_container \<Rightarrow> unit prog" where
  "init_rootless_container w c =
     seq (run_all w (rootless_mounts c))
      (\<lambda>_. seq (bind_char_devs w (char_devs c))
        (\<lambda>_. seq (run_all w [Mkdir ''./dev/shm'' mode_rw,
              Mount ''tmpfs'' ''./dev/shm'' (Some ''tmpfs'') safe_mount (Some (devshm_options ''mode=1777'' c)),
              Mount ''binfmt_misc'' ''./proc/sys/fs/binfmt_misc'' (Some ''binfmt_misc'') 0 None])
          (\<lambda>_. if unmask_dirs c then ret () else run_all w rootless_masks)))"

section \<open>The id map written by the process itself\<close>

definition write_map :: "world \<Rightarrow> path \<Rightarrow> uid \<Rightarrow> unit prog" where
  "write_map w p u =
     seq (call w (Open p))
      (\<lambda>fd. if fd < 0 then die (Fatal (''Failed to open '' @ p))
        else seq (call w (Write_to p (''0 '' @ show_id u @ '' 1'' @ [newline])))
         (\<lambda>n. if n < 0 then die (Fatal (''Failed to write to '' @ p)) else ret ()))"

definition set_id_map :: "host \<Rightarrow> unit prog" where
  "set_id_map h =
     (let w = h_world h; sg = ''/proc/self/setgroups'' in
      seq (write_map w ''/proc/self/uid_map'' (h_euid h))
       (\<lambda>_. seq (call w (Open sg))
         (\<lambda>fd. if fd < 0 then die (Fatal ''Failed to open /proc/self/setgroups'')
           else seq (run w (Write_to sg (line_of ''deny'')))
            (\<lambda>_. seq (write_map w ''/proc/self/gid_map'' (h_egid h))
              (\<lambda>_. seq (run_all w [Setuid 0, Setgid 0])
                (\<lambda>_. seq (call w (Open sg))
                  (\<lambda>fd. if fd < 0 then ret () else run w (Write_to sg ''allow''))))))))"

section \<open>Running\<close>

text \<open>A signal is reported to the pid file as 128 plus its number, unlike in unshare.c.\<close>

definition rootless_request :: "int \<Rightarrow> pid_req \<times> int" where
  "rootless_request st =
     (if wifexited st then (Req_exited, wexitstatus st)
      else if wifsignaled st then (Req_signaled, 128 + wtermsig st) else (Req_unknown, 0))"

definition rootless_wait :: "host \<Rightarrow> int \<Rightarrow> unit prog" where
  "rootless_wait h pid =
     seq (call (h_world h) (Waitpid pid))
      (\<lambda>st. seq (ruri_pid_file_write h (fst (rootless_request st)) (snd (rootless_request st)))
        (\<lambda>_. die (Exited (show_int (status_code st)))))"

definition rootless_parent :: "host \<Rightarrow> ruri_container \<Rightarrow> bool \<Rightarrow> int \<Rightarrow> unit prog" where
  "rootless_parent h c mapped pid =
     (let w = h_world h; running = ns_pid c > 0; c' = c\<lparr>ns_pid := pid\<rparr> in
      seq (if mapped then ret ()
           else seq (warn_unless w False ''Check if uidmap is installed'') (\<lambda>_. set_id_map h))
       (\<lambda>_. seq (if use_rurienv c \<and> \<not> running \<and> \<not> just_chroot c then store_info h c'
                 else if \<not> no_warnings c \<and> \<not> running then warn_unless w False ''NS PID'' else ret ())
         (\<lambda>_. seq (ruri_pid_file_write h Req_pid pid)
           (\<lambda>_. seq (call w (Pipe_write ''OK''))
             (\<lambda>n. if n \<noteq> 2 then die (Fatal ''Failed to signal child process to continue'') else rootless_wait h pid)))))"

definition rootless_child :: "host \<Rightarrow> ruri_container \<Rightarrow> unit prog" where
  "rootless_child h c =
     (let w = h_world h in
      seq (call w (Pipe_read 2))
       (\<lambda>n. if n \<noteq> 2 then die (Fatal ''Failed to receive signal from parent process'')
         else seq (if just_chroot c then ret () else init_rootless_container w c)
          (\<lambda>_. seq (run w (Set_dumpable False)) (\<lambda>_. ruri_run_rootless_chroot_container h c))))"

definition rootless_shell :: "world \<Rightarrow> ruri_container \<Rightarrow> bool \<Rightarrow> ruri_container prog" where
  "rootless_shell w c mapped =
     (if \<not> mapped \<and> command c = []
      then seq (warn_unless w False ''Warning: failed to setup id map for user namespace'') (\<lambda>_. ret (c\<lparr>command := [''sh'']\<rparr>))
      else ret c)"

definition rootless_fork :: "host \<Rightarrow> bool \<Rightarrow> ruri_container \<Rightarrow> unit prog" where
  "rootless_fork h mapped c =
     (let w = h_world h in
      seq (call w Pipe)
       (\<lambda>p. if p < 0 then die (Fatal ''Failed to create sync pipe for child process'')
         else seq (call w Fork)
          (\<lambda>pid. if pid > 0 then rootless_parent h c mapped pid
            else if pid < 0 then die (Fatal ''Fork error QwQ?'') else rootless_child h c)))"

definition ruri_run_rootless_container :: "host \<Rightarrow> ruri_container \<Rightarrow> unit prog" where
  "ruri_run_rootless_container h c =
     (let w = h_world h in
      seq (check_container_dir w c)
       (\<lambda>_. seq (run w (Set_dumpable True))
         (\<lambda>_. seq (if use_rurienv c then sync_info h c else ret c)
           (\<lambda>c1. seq (setup_user_ns h c1)
             (\<lambda>mapped. seq (rootless_namespaces w c1 mapped)
               (\<lambda>_. seq (rootless_shell w c1 mapped) (rootless_fork h mapped)))))))"

section \<open>What holds when a command is executed\<close>

definition user_ns_entered :: "world \<Rightarrow> ruri_container \<Rightarrow> sys_call list \<Rightarrow> bool" where
  "user_ns_entered w c tr =
     (if ns_pid c < 0 then accepted w (Unshare Ns_user) tr else ns_joined w (ns_pid c) Ns_user ''user'' tr)"

definition rootless_isolated :: "world \<Rightarrow> ruri_container \<Rightarrow> sys_call list \<Rightarrow> bool" where
  "rootless_isolated w c tr =
     (user_ns_entered w c tr \<and>
      (if ns_pid c > 0 then ns_joined w (ns_pid c) Ns_mnt ''mnt'' tr \<and> ns_joined w (ns_pid c) Ns_pid ''pid'' tr
       else accepted w (Unshare Ns_mnt) tr \<and> accepted w (Unshare Ns_pid) tr
         \<and> (no_network c \<longrightarrow> accepted w (Unshare Ns_net) tr)))"

text \<open>The two commands of the helper process.\<close>

definition map_helper :: "host \<Rightarrow> string list \<Rightarrow> sys_call list \<Rightarrow> bool" where
  "map_helper h argv tr = (forked (h_world h) tr \<and>
     (\<exists>prog own lower count. prog \<in> {''newuidmap'', ''newgidmap''}
        \<and> argv = map_command prog (w_pid (h_world h)) own lower count))"

lemma lasting_user_ns: "lasting (user_ns_entered w c)"
proof (cases "ns_pid c < 0")
  case True
  then have "user_ns_entered w c = accepted w (Unshare Ns_user)" by (simp add: user_ns_entered_def fun_eq_iff)
  then show ?thesis by (simp add: lasting_accepted)
next
  case False
  then have "user_ns_entered w c = ns_joined w (ns_pid c) Ns_user ''user''" by (simp add: user_ns_entered_def fun_eq_iff)
  then show ?thesis by (simp add: lasting_joined)
qed

lemma lasting_rootless_isolated: "lasting (rootless_isolated w c)"
proof (cases "ns_pid c > 0")
  case True
  then show ?thesis unfolding rootless_isolated_def[abs_def] by simp (intro lasting_intros lasting_user_ns lasting_joined)
next
  case False
  then show ?thesis unfolding rootless_isolated_def[abs_def] by simp (intro lasting_intros lasting_user_ns lasting_accepted)
qed

subsection \<open>Steps without a command\<close>

context setup_policy
begin

lemma rootless_dirs_only: "only allowed (init_rootless_container w c)"
proof -
  have d: "list_all allowed (dev_bind f)" for f by (simp add: dev_bind_def)
  have "only allowed (bind_char_devs w ds)" for ds
  proof (induction ds rule: bind_char_devs.induct)
    case (2 w dev devs)
    let ?long = "length (''./dev/'' @ dev) \<ge> path_max"
    let ?next = "case devs of major # minor # rest \<Rightarrow> bind_char_devs w rest
        | _ \<Rightarrow> die (Undefined ''read past the end of char_devs'')"
    have "only allowed ?next" if "\<not> ?long"
      using 2[OF that] by (auto intro: only_intros split: list.splits simp del: prog_simps seq_run)
    then have "only allowed (if ?long then die (Undefined ''sprintf past the end of a buffer'')
        else seq (run_all w (dev_bind dev)) (\<lambda>_. ?next))"
      by (cases ?long) (auto intro!: only_intros simp: d simp del: prog_simps seq_run)
    then show ?case unfolding bind_char_devs.simps by (intro only_seq mkdirs_only only_basic(5); simp)
  qed (simp only: bind_char_devs.simps only_basic)
  then show ?thesis unfolding init_rootless_container_def
    by (intro only_intros)
       (simp_all add: rootless_mounts_def rootless_masks_def mask_tmpfs_def mask_null_def protect_def dev_bind_def)
qed

end

lemma rootless_steps_only:
  "only (\<lambda>c. \<not> is_exec c) (rootless_namespaces w c m)" "only (\<lambda>c. \<not> is_exec c) (own_user_ns h c p)"
  "only (\<lambda>c. \<not> is_exec c) (rootless_parent h c m p)" "only (\<lambda>c. \<not> is_exec c) (rootless_shell w c m)"
proof -
  have t: "only (\<lambda>c. \<not> is_exec c) (try_unshare w ns)" for w ns unfolding try_unshare_def by (intro only_intros; simp)
  have u: "only (\<lambda>c. \<not> is_exec c) (unshare_or_warn w ns m)" for w ns m
    unfolding unshare_or_warn_def by (intro only_intros; simp)
  have n: "only (\<lambda>c. \<not> is_exec c) (join_other_network w p)" for p
    unfolding join_other_network_def by (intro only_intros; simp)
  show "only (\<lambda>c. \<not> is_exec c) (rootless_namespaces w c m)"
    unfolding rootless_namespaces_def join_rootless_def unshare_rootless_def rootless_time_def rootless_timens_def
      rootless_network_def
    by (intro only_intros join_only t u n; simp)
  show "only (\<lambda>c. \<not> is_exec c) (own_user_ns h c p)"
    unfolding own_user_ns_def Let_def by (intro only_intros t join_only; simp)
  have m: "only (\<lambda>c. \<not> is_exec c) (write_map w p x)" for w p x unfolding write_map_def by (intro only_intros; simp)
  show "only (\<lambda>c. \<not> is_exec c) (rootless_parent h c m p)"
    unfolding rootless_parent_def set_id_map_def rootless_wait_def Let_def
    by (intro only_intros parent_only fork_quiet m; simp)
  show "only (\<lambda>c. \<not> is_exec c) (rootless_shell w c m)" unfolding rootless_shell_def by (intro only_intros)
qed

subsection \<open>The helper\<close>

lemma guards_if: "(b \<Longrightarrow> guards P p N) \<Longrightarrow> (\<not> b \<Longrightarrow> guards P q N) \<Longrightarrow> guards P (if b then p else q) N"
  by simp

lemma fork_child: "triple P (call w Fork) (\<lambda>pid tr. pid = 0 \<longrightarrow> forked w tr)"
  by (rule triple_call) (simp add: forked_def made_when_last)

lemma execvp_guarded:
  assumes "\<And>tr. forked w tr \<Longrightarrow> N tr argv"
  shows "guards P (try_execvp w argv) N"
  unfolding try_execvp_def
proof (rule guards_seq[OF fork_child])
  fix pid
  have "guards (forked w) (seq (call w (Exec argv)) (\<lambda>r. die (Exited (if r < 0 then ''114'' else ''exec'')))) N"
    by (rule guards_exec_then) (use assms in \<open>auto intro: only_intros simp del: prog_simps seq_run\<close>)
  moreover have "guards Q (if pid < 0 then ret 0 else seq (call w (Waitpid pid))
      (\<lambda>st. ret (if wifexited st then wexitstatus st else -1))) N" for Q
    by (rule guards_quiet) (intro only_intros; simp)
  ultimately show "guards (\<lambda>tr. pid = 0 \<longrightarrow> forked w tr) (if pid = 0
      then seq (call w (Exec argv)) (\<lambda>r. die (Exited (if r < 0 then ''114'' else ''exec'')))
      else if pid < 0 then ret 0
      else seq (call w (Waitpid pid)) (\<lambda>st. ret (if wifexited st then wexitstatus st else -1))) N"
    by (cases "pid = 0") auto
qed (intro only_intros; simp)

lemma idmap_guarded:
  assumes "\<And>argv tr. map_helper h argv tr \<Longrightarrow> N tr argv"
  shows "guards P (idmap_helper h c) N"
proof -
  let ?w = "h_world h"
  have x: "guards P (try_execvp ?w (map_command prog (w_pid ?w) own lower count)) N"
    if "prog \<in> {''newuidmap'', ''newgidmap''}" for P prog own lower count
    by (rule execvp_guarded, rule assms) (use that in \<open>unfold map_helper_def, blast\<close>)
  have l: "only A (lift_result r)" for A and r :: "ruri_id_map result" by (rule only_lift)
  have q: "guards P (ret v) N" "guards P (die e) N" for P and v :: int and e
    by (rule guards_quiet, rule only_basic)+
  have t: "guards P (try_setup_idmap h) N" for P
    unfolding try_setup_idmap_def Let_def
    by (rule guards_seq[OF triple_any l], rule guards_if, rule q, rule guards_then[OF triple_any x], simp,
        rule guards_if, rule q, rule guards_then[OF triple_any x], simp, rule q)
  have e: "guards P (die e) N" for P e by (rule guards_quiet, rule only_basic)
  show ?thesis unfolding idmap_helper_def
    by (rule guards_if, rule guards_seq[OF triple_any only_basic(4)], simp, rule guards_if, rule e,
        rule guards_then[OF triple_any t], rule e, rule e)
qed

text \<open>The helper never returns; the process itself has entered a user namespace.\<close>

lemma helper_ends: "triple P (idmap_helper h c) Q"
  unfolding idmap_helper_def
  by (rule triple_if, rule triple_second, rule triple_if, rule triple_die, rule triple_second, rule triple_die, rule triple_die)

lemma tried_accepted: "triple P (try_unshare w ns) (\<lambda>_. accepted w (Unshare ns))"
  by (auto simp: triple_def try_unshare_def accepted_def made_when_last split: if_splits)

lemma user_ns_owned: "triple P (own_user_ns h c p) (\<lambda>m tr. user_ns_entered (h_world h) c tr \<and> (ns_pid c \<ge> 0 \<longrightarrow> m))"
  unfolding own_user_ns_def Let_def
proof (rule triple_if)
  assume n: "ns_pid c < 0"
  let ?w = "h_world h"
  have "triple P (seq (try_unshare ?w Ns_user) (\<lambda>_. seq (run ?w (Set_dumpable True))
      (\<lambda>_. seq (call ?w (Pipe_write ''1'')) (\<lambda>n. if n \<noteq> 1 then die (Fatal ''Failed to signal child for idmap setup'')
        else seq (call ?w (Waitpid p)) (\<lambda>st. ret (wexitstatus st = 0)))))) (\<lambda>_. accepted ?w (Unshare Ns_user))"
    by (rule triple_first[OF tried_accepted lasting_accepted]) (intro only_intros; rule TrueI)
  then show "triple P (seq (try_unshare ?w Ns_user) (\<lambda>_. seq (run ?w (Set_dumpable True))
      (\<lambda>_. seq (call ?w (Pipe_write ''1'')) (\<lambda>n. if n \<noteq> 1 then die (Fatal ''Failed to signal child for idmap setup'')
        else seq (call ?w (Waitpid p)) (\<lambda>st. ret (wexitstatus st = 0))))))
      (\<lambda>m tr. user_ns_entered ?w c tr \<and> (ns_pid c \<ge> 0 \<longrightarrow> m))"
    by (rule triple_post) (use n in \<open>simp add: user_ns_entered_def\<close>)
next
  assume n: "\<not> ns_pid c < 0"
  let ?w = "h_world h"
  show "triple P (seq (join_required ?w (ns_pid c) Ns_user ''user'') (\<lambda>_. seq (run ?w (Waitpid p)) (\<lambda>_. ret True)))
      (\<lambda>m tr. user_ns_entered ?w c tr \<and> (ns_pid c \<ge> 0 \<longrightarrow> m))"
  proof (rule triple_conj)
    have o: "only (\<lambda>c. \<not> is_exec c) (seq (run ?w (Waitpid p)) (\<lambda>_. ret True))" by (intro only_intros; simp)
    have u: "user_ns_entered ?w c = ns_joined ?w (ns_pid c) Ns_user ''user''"
      using n by (simp add: user_ns_entered_def fun_eq_iff)
    show "triple P (seq (join_required ?w (ns_pid c) Ns_user ''user'') (\<lambda>_. seq (run ?w (Waitpid p)) (\<lambda>_. ret True)))
        (\<lambda>_. user_ns_entered ?w c)"
      unfolding u by (rule triple_first[OF required_joined lasting_joined o])
  qed (rule triple_second, rule triple_second, rule triple_ret, simp)
qed

lemma user_ns_ready: "triple P (setup_user_ns h c) (\<lambda>m tr. user_ns_entered (h_world h) c tr \<and> (ns_pid c \<ge> 0 \<longrightarrow> m))"
  unfolding setup_user_ns_def Let_def
  by (rule triple_second, rule triple_second, rule triple_if, rule user_ns_owned,
      rule triple_if, rule helper_ends, rule triple_die)

lemma user_ns_guarded:
  assumes "\<And>argv tr. map_helper h argv tr \<Longrightarrow> N tr argv"
  shows "guards P (setup_user_ns h c) N"
  unfolding setup_user_ns_def Let_def
  by (rule guards_seq[OF triple_any], intro only_intros, simp, rule guards_seq[OF triple_any only_basic(4)], simp,
      rule guards_if, rule guards_quiet, rule rootless_steps_only, rule guards_if, rule idmap_guarded[OF assms], assumption,
      rule guards_quiet, rule only_basic)

lemma network_unshared: "triple P (rootless_network w c) (\<lambda>_ tr. no_network c \<longrightarrow> accepted w (Unshare Ns_net) tr)"
  by (auto simp: triple_def rootless_network_def accepted_def made_when_last split: if_splits)

lemma unshare_rootless_done:
  "triple P (unshare_rootless w c) (\<lambda>_ tr. (accepted w (Unshare Ns_mnt) tr \<and> accepted w (Unshare Ns_pid) tr)
     \<and> (no_network c \<longrightarrow> accepted w (Unshare Ns_net) tr))"
  unfolding unshare_rootless_def
proof (rule triple_if, rule triple_die)
  let ?warns = "seq (unshare_or_warn w Ns_uts ''uts namespace'') (\<lambda>_. seq (unshare_or_warn w Ns_ipc ''ipc namespace'')
    (\<lambda>_. seq (unshare_or_warn w Ns_cgroup ''cgroup namespace'') (\<lambda>_. seq (rootless_time w c)
    (\<lambda>_. seq (rootless_timens w ''monotonic'' (timens_monotonic_offset c))
    (\<lambda>_. seq (rootless_timens w ''boottime'' (timens_realtime_offset c))
    (\<lambda>_. seq (unshare_or_warn w Ns_sysvsem ''semaphore namespace'')
    (\<lambda>_. seq (unshare_or_warn w Ns_files ''unsharing file descriptors'')
    (\<lambda>_. seq (unshare_or_warn w Ns_fs ''unsharing filesystem information'') (\<lambda>_. rootless_network w c)))))))))"
  have n: "triple P ?warns (\<lambda>_ tr. no_network c \<longrightarrow> accepted w (Unshare Ns_net) tr)" for P
    by ((rule triple_second)+, rule network_unshared)
  have t: "only (\<lambda>_. True) (try_unshare w ns)" "only (\<lambda>_. True) (unshare_or_warn w ns what)" for ns what
    unfolding try_unshare_def unshare_or_warn_def by (intro only_intros; simp)+
  have o: "only (\<lambda>_. True) ?warns"
    unfolding rootless_time_def rootless_timens_def rootless_network_def by (intro only_intros t; simp)
  have p: "triple P (seq (try_unshare w Ns_pid) (\<lambda>_. ?warns)) (\<lambda>_. accepted w (Unshare Ns_pid))" for P
    by (rule triple_first[OF tried_accepted lasting_accepted o])
  have m: "triple P (seq (try_unshare w Ns_mnt) (\<lambda>_. seq (try_unshare w Ns_pid) (\<lambda>_. ?warns)))
      (\<lambda>_. accepted w (Unshare Ns_mnt))" for P
    by (rule triple_first[OF tried_accepted lasting_accepted only_seq[OF t(1) o]])
  show "triple P (seq (try_unshare w Ns_mnt) (\<lambda>_. seq (try_unshare w Ns_pid) (\<lambda>_. ?warns)))
      (\<lambda>_ tr. (accepted w (Unshare Ns_mnt) tr \<and> accepted w (Unshare Ns_pid) tr)
        \<and> (no_network c \<longrightarrow> accepted w (Unshare Ns_net) tr))"
    by (rule triple_conj[OF triple_conj[OF m triple_second[OF p]] triple_second[OF triple_second[OF n]]])
qed

lemma join_rootless_done:
  "triple P (join_rootless w pid) (\<lambda>_ tr. ns_joined w pid Ns_mnt ''mnt'' tr \<and> ns_joined w pid Ns_pid ''pid'' tr)"
  unfolding join_rootless_def
proof (rule triple_conj)
  let ?rest = "seq (join_supported w pid Ns_uts ''uts'') (\<lambda>_. seq (join_supported w pid Ns_ipc ''ipc'')
    (\<lambda>_. seq (join_supported w pid Ns_cgroup ''cgroup'') (\<lambda>_. seq (join_supported w pid Ns_time ''time'')
    (\<lambda>_. join_other_network w pid))))"
  have o: "only (\<lambda>c. \<not> is_exec c) ?rest"
    unfolding join_other_network_def by (intro only_intros join_only; simp)
  show "triple P (seq (join_required w pid Ns_mnt ''mnt'') (\<lambda>_. seq (join_required w pid Ns_pid ''pid'') (\<lambda>_. ?rest)))
      (\<lambda>_. ns_joined w pid Ns_mnt ''mnt'')"
    by (rule triple_first[OF required_joined lasting_joined only_seq[OF join_only(1) o]])
  show "triple P (seq (join_required w pid Ns_mnt ''mnt'') (\<lambda>_. seq (join_required w pid Ns_pid ''pid'') (\<lambda>_. ?rest)))
      (\<lambda>_. ns_joined w pid Ns_pid ''pid'')"
    by (rule triple_second[OF triple_first[OF required_joined lasting_joined o]])
qed

lemma rootless_isolates:
  "triple (\<lambda>tr. user_ns_entered w c tr \<and> (ns_pid c \<ge> 0 \<longrightarrow> m)) (rootless_namespaces w c m) (\<lambda>_. rootless_isolated w c)"
proof -
  let ?U = "user_ns_entered w c"
  have keep: "triple (\<lambda>tr. ?U tr \<and> (ns_pid c \<ge> 0 \<longrightarrow> m)) (rootless_namespaces w c m) (\<lambda>_. ?U)"
    by (rule triple_kept[OF lasting_user_ns rootless_steps_only(1)])
  show ?thesis
  proof (cases "ns_pid c > 0")
    case True
    have "triple (\<lambda>tr. ?U tr \<and> (ns_pid c \<ge> 0 \<longrightarrow> m)) (rootless_namespaces w c m)
        (\<lambda>_ tr. ns_joined w (ns_pid c) Ns_mnt ''mnt'' tr \<and> ns_joined w (ns_pid c) Ns_pid ''pid'' tr)"
    proof (cases m)
      case True
      then show ?thesis using \<open>ns_pid c > 0\<close> join_rootless_done by (simp add: rootless_namespaces_def)
    next
      case False
      then show ?thesis using \<open>ns_pid c > 0\<close> by (simp add: triple_def)
    qed
    from triple_conj[OF keep this] show ?thesis
      by (rule triple_post) (use True in \<open>simp add: rootless_isolated_def\<close>)
  next
    case False
    then have "triple (\<lambda>tr. ?U tr \<and> (ns_pid c \<ge> 0 \<longrightarrow> m)) (rootless_namespaces w c m)
        (\<lambda>_ tr. (accepted w (Unshare Ns_mnt) tr \<and> accepted w (Unshare Ns_pid) tr)
          \<and> (no_network c \<longrightarrow> accepted w (Unshare Ns_net) tr))"
      using unshare_rootless_done by (simp add: rootless_namespaces_def)
    from triple_conj[OF keep this] show ?thesis
      by (rule triple_post) (use False in \<open>simp add: rootless_isolated_def\<close>)
  qed
qed

section \<open>The command\<close>

definition told_to_go :: "world \<Rightarrow> sys_call list \<Rightarrow> bool" where
  "told_to_go w = made_when (\<lambda>pre. w_ret w pre (Pipe_read 2) = 2) (Pipe_read 2)"

definition rootless_command_ok :: "host \<Rightarrow> ruri_container \<Rightarrow> sys_call list \<Rightarrow> string list \<Rightarrow> bool" where
  "rootless_command_ok h c tr argv =
     (\<exists>c1 c2 c'. configured h c c1 \<and> c2 \<in> {c1, c1\<lparr>command := [''sh'']\<rparr>} \<and> completes c2 c' \<and> argv = command c'
        \<and> rootless_isolated (h_world h) c1 tr \<and> forked (h_world h) tr \<and> told_to_go (h_world h) tr
        \<and> confined (rootless_entered (h_world h) c') h c' tr)"

lemma child_guarded:
  assumes "lasting F"
  shows "guards F (rootless_child h c) (\<lambda>tr argv. F tr \<and> told_to_go (h_world h) tr
    \<and> (\<exists>c'. completes c c' \<and> argv = command c' \<and> confined (rootless_entered (h_world h) c') h c' tr))" (is "guards F _ ?N")
proof -
  let ?w = "h_world h"
  let ?G = "\<lambda>tr. F tr \<and> told_to_go ?w tr"
  have lG: "lasting ?G" unfolding told_to_go_def by (intro lasting_intros lasting_made_when assms)
  have r: "triple F (call ?w (Pipe_read 2)) (\<lambda>n tr. F tr \<and> (n = 2 \<longrightarrow> told_to_go ?w tr))"
    using assms by (auto intro!: triple_call simp: told_to_go_def made_when_last lasting_def)
  have run: "guards ?G (ruri_run_rootless_chroot_container h c) ?N"
    using guards_frame[OF rootless_guarded lG] unfolding guards_def by blast
  have after: "guards ?G (seq (if just_chroot c then ret () else init_rootless_container ?w c)
      (\<lambda>_. seq (run ?w (Set_dumpable False)) (\<lambda>_. ruri_run_rootless_chroot_container h c))) ?N"
    by (intro guards_keep lG run only_intros quiet.rootless_dirs_only; simp)
  show ?thesis unfolding rootless_child_def Let_def
  proof (rule guards_seq[OF r])
    fix n
    show "guards (\<lambda>tr. F tr \<and> (n = 2 \<longrightarrow> told_to_go ?w tr))
        (if n \<noteq> 2 then die (Fatal ''Failed to receive signal from parent process'')
         else seq (if just_chroot c then ret () else init_rootless_container ?w c)
          (\<lambda>_. seq (run ?w (Set_dumpable False)) (\<lambda>_. ruri_run_rootless_chroot_container h c))) ?N"
      by (rule guards_if, rule guards_quiet, rule only_basic) (use after in simp)
  qed (intro only_intros; simp)
qed

lemma rootless_fork_guarded:
  assumes "lasting F"
  shows "guards F (rootless_fork h m c) (\<lambda>tr argv. (F tr \<and> forked (h_world h) tr) \<and> told_to_go (h_world h) tr
    \<and> (\<exists>c'. completes c c' \<and> argv = command c' \<and> confined (rootless_entered (h_world h) c') h c' tr))" (is "guards F _ ?N")
proof -
  let ?w = "h_world h"
  have f: "triple F (call ?w Fork) (\<lambda>pid tr. F tr \<and> (pid = 0 \<longrightarrow> forked ?w tr))"
    using assms by (auto intro!: triple_call simp: forked_def made_when_last lasting_def)
  have lF: "lasting (\<lambda>tr. F tr \<and> forked ?w tr)" by (intro lasting_intros assms lasting_forked)
  have child: "guards (\<lambda>tr. F tr \<and> (pid = 0 \<longrightarrow> forked ?w tr)) (if pid > 0 then rootless_parent h c m pid
      else if pid < 0 then die (Fatal ''Fork error QwQ?'') else rootless_child h c) ?N" for pid
  proof (rule guards_if, rule guards_quiet, rule rootless_steps_only, rule guards_if, rule guards_quiet, rule only_basic)
    assume "\<not> 0 < pid" "\<not> pid < 0"
    then show "guards (\<lambda>tr. F tr \<and> (pid = 0 \<longrightarrow> forked ?w tr)) (rootless_child h c) ?N"
      using child_guarded[OF lF, of h c] by simp
  qed
  have g: "guards F (seq (call ?w Fork) (\<lambda>pid. if pid > 0 then rootless_parent h c m pid
      else if pid < 0 then die (Fatal ''Fork error QwQ?'') else rootless_child h c)) ?N"
    by (rule guards_seq[OF f _ child]) (intro only_intros; simp)
  show ?thesis unfolding rootless_fork_def Let_def
    by (rule guards_keep[OF only_basic(4) assms], simp, rule guards_if, rule guards_quiet, rule only_basic, rule g)
qed

lemma rootless_run_guarded:
  "guards (\<lambda>_. True) (ruri_run_rootless_container h c)
     (\<lambda>tr argv. map_helper h argv tr \<or> rootless_command_ok h c tr argv)" (is "guards _ _ ?N")
proof -
  let ?w = "h_world h"
  have rest: "guards (\<lambda>_. configured h c c1) (seq (setup_user_ns h c1)
      (\<lambda>m. seq (rootless_namespaces ?w c1 m) (\<lambda>_. seq (rootless_shell ?w c1 m) (rootless_fork h m)))) ?N" for c1
  proof (rule guards_then)
    show "triple (\<lambda>_. configured h c c1) (setup_user_ns h c1)
        (\<lambda>m tr. (user_ns_entered ?w c1 tr \<and> (ns_pid c1 \<ge> 0 \<longrightarrow> m)) \<and> configured h c c1)"
      by (rule triple_fixed, rule triple_post[OF user_ns_ready], simp)
    show "guards (\<lambda>_. configured h c c1) (setup_user_ns h c1) ?N"
      by (rule user_ns_guarded) simp
    fix m
    let ?F = "\<lambda>tr. rootless_isolated ?w c1 tr \<and> configured h c c1"
    have lF: "lasting ?F" by (intro lasting_intros lasting_rootless_isolated)
    have n: "triple (\<lambda>tr. (user_ns_entered ?w c1 tr \<and> (ns_pid c1 \<ge> 0 \<longrightarrow> m)) \<and> configured h c c1)
        (rootless_namespaces ?w c1 m) (\<lambda>_. ?F)"
      using rootless_isolates[of ?w c1 m] unfolding triple_def by blast
    have s: "triple ?F (rootless_shell ?w c1 m) (\<lambda>c2 tr. ?F tr \<and> c2 \<in> {c1, c1\<lparr>command := [''sh'']\<rparr>})"
    proof -
      have "triple ?F (rootless_shell ?w c1 m) (\<lambda>c2 _. c2 \<in> {c1, c1\<lparr>command := [''sh'']\<rparr>})"
        unfolding rootless_shell_def by (rule triple_if, rule triple_second, rule triple_ret, simp, rule triple_ret, simp)
      from triple_conj[OF triple_keep[OF rootless_steps_only(4) lF] this] show ?thesis .
    qed
    have f: "guards (\<lambda>tr. ?F tr \<and> c2 \<in> {c1, c1\<lparr>command := [''sh'']\<rparr>}) (rootless_fork h m c2) ?N" for c2
    proof -
      have l: "lasting (\<lambda>tr. ?F tr \<and> c2 \<in> {c1, c1\<lparr>command := [''sh'']\<rparr>})" by (intro lasting_intros lasting_rootless_isolated)
      show ?thesis using rootless_fork_guarded[OF l, of h m c2]
        unfolding guards_def rootless_command_ok_def by blast
    qed
    show "guards (\<lambda>tr. (user_ns_entered ?w c1 tr \<and> (ns_pid c1 \<ge> 0 \<longrightarrow> m)) \<and> configured h c c1)
        (seq (rootless_namespaces ?w c1 m) (\<lambda>_. seq (rootless_shell ?w c1 m) (rootless_fork h m))) ?N"
      by (rule guards_seq[OF n rootless_steps_only(1)], rule guards_seq[OF s rootless_steps_only(4) f])
  qed
  have d: "only (\<lambda>c. \<not> is_exec c) (check_container_dir ?w c)"
    unfolding check_container_dir_def by (intro only_intros panic_only)
  have s: "triple P (if use_rurienv c then sync_info h c else ret c) (\<lambda>c1 _. configured h c c1)" for P
    by (rule config_synced)
  have so: "only (\<lambda>c. \<not> is_exec c) (if use_rurienv c then sync_info h c else ret c)"
    by (intro only_intros parent_only)
  show ?thesis unfolding ruri_run_rootless_container_def Let_def
    by (rule guards_seq[OF triple_any d], rule guards_seq[OF triple_any only_basic(5)], simp,
        rule guards_seq[OF s so rest])
qed

text \<open>C4: In a rootless run two kinds of commands are ever executed: newuidmap and newgidmap, by
  a forked helper, with the process as their target; and the command of the container, by a child
  that was told to go on, after the process became the owner of a new user namespace (or joined
  that of the running container), left the mount and pid namespaces and, when it creates them and
  --no-network is given, the network namespace, and after all restrictions.\<close>

theorem rootless_run_isolated:
  assumes "ruri_run_rootless_container h c [] = (r, pre @ Exec argv # post)"
  shows "map_helper h argv pre \<or> rootless_command_ok h c pre argv"
  using guardsD[OF rootless_run_guarded TrueI, of h c "[]" r pre argv post] assms by simp

section \<open>Witness\<close>

definition rootless_host :: host where
  "rootless_host = jail_host\<lparr>h_world := (h_world jail_host)\<lparr>w_ret := \<lambda>tr c. (case c of
     Fork \<Rightarrow> if Fork \<in> set tr then 0 else 42 | Pipe_write s \<Rightarrow> int (length s) | Pipe_read n \<Rightarrow> int n | Open _ \<Rightarrow> -2 | _ \<Rightarrow> 0)\<rparr>\<rparr>"

definition rootless_container :: ruri_container where
  "rootless_container = jail_container\<lparr>rootless := True, no_network := True\<rparr>"

lemma rootless_runs:
  "first_command (ruri_run_rootless_container rootless_host rootless_container []) = Some (Exec [''/bin/sh''])"
  by code_simp

lemma rootless_run_isolated_witness:
  "rootless_command_ok rootless_host rootless_container
     (calls_before (ruri_run_rootless_container rootless_host rootless_container [])) [''/bin/sh'']"
  using rootless_run_isolated[OF run_splits[OF rootless_runs]] by (auto simp: map_helper_def map_command_def)

end
