(* ===== verification/Ruri.thy ===== *)
theory Ruri
  imports Args_Props Rootless
begin

text \<open>
  ruri() of ruri.c, the whole program, as one program over the calls of Sys: the copy of the
  binary it runs from (ruri_clear_env), parse_args with its forks, the daemon of the pid file
  and the timeout watchdog of watchdog.c, and the three ways to run a container.

  As everywhere the answer to \<open>Fork\<close> chooses the process that is followed, so a trace
  may be that of the container, of one of its parents, of the daemon or of the watchdog.
  What the daemon and the watchdog observe besides is the record \<open>outside\<close>: the packets
  on the socket, the clock, and whether the watched process is there.  A list of observations
  that ends while the loop goes on stands for a process that is still waiting.
  Signal dispositions, redirections to /dev/null and sleeping are not modelled.
\<close>

record outside =
  o_reexecuted :: bool
  o_events :: "sys_call list \<Rightarrow> event list"
  o_now :: "sys_call list \<Rightarrow> int"
  o_watch :: "sys_call list \<Rightarrow> (bool \<times> int) list"

section \<open>The copy of the binary\<close>

text \<open>execve returns only on failure; otherwise the process goes on as ruri again, with
  ruri_rexec in its environment.\<close>

definition reexec :: "world \<Rightarrow> path \<Rightarrow> unit prog" where
  "reexec w p = seq (call w (Reexec p)) (\<lambda>r. if r < 0 then ret () else die (Exited ''executed again''))"

text \<open>The answer to Write_memfd is that of the first write(2) that fails, or 0.\<close>

definition ruri_clear_env :: "world \<Rightarrow> bool \<Rightarrow> unit prog" where
  "ruri_clear_env w reexecuted =
     (if reexecuted then ret ()
      else seq (call w Memfd)
        (\<lambda>fd. if fd < 0 then
            seq (warn_unless w False ''Failed to create memfd for ruri binary'')
             (\<lambda>_. seq (reexec w ''/proc/self/exe'') (\<lambda>_. die (Fatal ''Failed to re-exec ruri binary QwQ'')))
          else seq (call w (Write_memfd ''/proc/self/exe''))
            (\<lambda>r. seq (if r < 0 then reexec w ''/proc/self/exe'' else ret ())
              (\<lambda>_. let path = ''/proc/'' @ show_int (w_pid w) @ ''/fd/'' @ show_int fd in
                 seq (reexec w path) (\<lambda>_. reexec w ''/proc/self/exe'')))))"

section \<open>Arguments\<close>

text \<open>The two forks of -b, and the one of --fork; the parents end.\<close>

definition background_forks :: "world \<Rightarrow> args_state \<Rightarrow> unit prog" where
  "background_forks w st =
     (if background st \<and> \<not> (systemd_mode (as_container st) \<and> \<not> even_unstable st) then
        seq (call w Fork)
         (\<lambda>f1. if f1 > 0 then die (Exited ''0'')
           else seq (call w Fork) (\<lambda>f2. if f2 > 0 then die (Exited ''0'') else ret ()))
      else ret ())"

definition useless_fork :: "world \<Rightarrow> args_state \<Rightarrow> ruri_container \<Rightarrow> unit prog" where
  "useless_fork w st c =
     (if fork_exec st \<and> \<not> enable_unshare c \<and> \<not> rootless c then
        seq (call w Fork)
         (\<lambda>pid. if pid > 0 then seq (run w (Waitpid pid)) (\<lambda>_. die (Exited ''0'')) else ret ())
      else ret ())"

text \<open>The state of parse_args after its loop over argv.\<close>

definition args_end :: "args_env \<Rightarrow> argv \<Rightarrow> args_state result" where
  "args_end env argv =
     (if length argv \<le> 1 then Inl (Fatal ''Error: too few arguments QwQ'')
      else (case ruri_init_config (ae_kernel env) (ae_now env) (ae_heap env) of
          None \<Rightarrow> Inl out_of_bounds
        | Some c \<Rightarrow> args_loop env argv (initial_args c)))"

definition parse_args_prog :: "world \<Rightarrow> args_env \<Rightarrow> argv \<Rightarrow> ruri_container prog" where
  "parse_args_prog w env argv =
     seq (lift_result (args_end env argv))
      (\<lambda>st. seq (background_forks w st)
        (\<lambda>_. seq (lift_result (finish_args env st))
          (\<lambda>c. seq (useless_fork w st c) (\<lambda>_. ret c))))"

section \<open>The daemon of the pid file\<close>

text \<open>The grandchild: opens and locks the file, tells the parent, and loops on the socket.\<close>

definition pid_file_daemon :: "host \<Rightarrow> outside \<Rightarrow> ruri_container \<Rightarrow> host prog" where
  "pid_file_daemon h out c =
     (let w = h_world h; file = (case pid_file c of None \<Rightarrow> ''/dev/null'' | Some p \<Rightarrow> p) in
      seq (call w (if pid_file c = None then Open file else Create file))
       (\<lambda>fd. if fd < 0 then die (Exited ''1'')
         else seq (if pid_file c = None then ret 0 else call w (Lock_file file))
           (\<lambda>l. if l < 0 then die (Exited ''1'')
             else seq (ask (o_now out))
               (\<lambda>now. seq (run w (Pipe_write ''OK''))
                 (\<lambda>_. seq (ask (o_events out))
                   (\<lambda>evs. let d = daemon_loop c evs (daemon_start c True True [] now) in
                      seq (if d_leaving d \<noteq> None then run w (Unlock_file file) else ret ())
                       (\<lambda>_. seq (if d_umounted d then ruri_umount_container w (h_info h) (container_dir c) else ret ())
                        (\<lambda>_. die (Exited (case d_exit d of None \<Rightarrow> ''waiting'' | Some code \<Rightarrow> show_int code))))))))))"

text \<open>The parent goes on with the socket, if there is one.\<close>

definition daemon_ready :: "host \<Rightarrow> bool \<Rightarrow> host prog" where
  "daemon_ready h socket =
     (let w = h_world h; h' = h\<lparr>h_pid_fd := socket\<rparr> in
      seq (call w (Pipe_read 15))
       (\<lambda>n. if n > 0 then
           (if take (nat n) ''OK'' = ''OK'' then ret h'
            else die (Fatal ''Failed to get sync signal from pid file daemon.''))
         else seq (warn_unless w False ''failed to read sync signal from pid file daemon'') (\<lambda>_. ret h')))"

definition ruri_setup_pid_file_daemon :: "host \<Rightarrow> outside \<Rightarrow> ruri_container \<Rightarrow> host prog" where
  "ruri_setup_pid_file_daemon h out c =
     (let w = h_world h in
      seq (call w Socketpair)
       (\<lambda>s. seq (call w Pipe)
         (\<lambda>_. seq (call w Fork)
           (\<lambda>pid1. if pid1 > 0 then seq (run w (Waitpid pid1)) (\<lambda>_. daemon_ready h (s \<ge> 0))
             else seq (call w Fork)
               (\<lambda>pid2. if pid2 > 0 then die (Exited ''0'') else pid_file_daemon h out c)))))"

section \<open>The watchdog\<close>

definition ruri_setup_timeout_watchdog :: "host \<Rightarrow> outside \<Rightarrow> ruri_container \<Rightarrow> unit prog" where
  "ruri_setup_timeout_watchdog h out c =
     (let w = h_world h in
      seq (call w Fork)
       (\<lambda>pid1. if pid1 > 0 then run w (Waitpid pid1)
         else seq (call w Fork)
           (\<lambda>pid2. if pid2 < 0 then die (Fatal ''Failed to fork for timeout watchdog QwQ'')
             else if pid2 > 0 then die (Exited ''0'')
             else seq (ask (o_now out))
               (\<lambda>start. seq (ask (o_watch out))
                 (\<lambda>obs. seq (watchdog_loop h c (w_pid w) start obs) (\<lambda>_. die (Exited ''waiting'')))))))"

section \<open>The program\<close>

text \<open>The parent of a chroot container waits like that of a rootless one: the number of the
  signal is sent with 128 added.\<close>

definition run_container :: "host \<Rightarrow> ruri_container \<Rightarrow> run_mode \<Rightarrow> unit prog" where
  "run_container h c mode =
     (case mode of
        Run_unshare \<Rightarrow> ruri_run_unshare_container h c
      | Run_rootless \<Rightarrow> ruri_run_rootless_container h c
      | Run_chroot \<Rightarrow>
          seq (call (h_world h) Fork)
           (\<lambda>pid. if pid > 0 then rootless_wait h pid
             else if pid = 0 then ruri_run_chroot_container h c
             else die (Fatal ''Failed to fork for chroot container QwQ'')))"

text \<open>What ruri() does with the container it parsed: rootless for every user but root, the
  checks, and the choice of the way to run it.\<close>

definition checked_mode :: "process_ids \<Rightarrow> ruri_container \<Rightarrow> (ruri_container \<times> run_mode) result" where
  "checked_mode ids c =
     (let c' = (if euid ids \<noteq> 0 then c\<lparr>rootless := True\<rparr> else c) in
      res_bind (check_container ids c')
       (\<lambda>_. Inr (c', if enable_unshare c' \<and> \<not> rootless c' then Run_unshare
                     else if rootless c' then Run_rootless else Run_chroot)))"

definition ruri :: "host \<Rightarrow> outside \<Rightarrow> args_env \<Rightarrow> process_ids \<Rightarrow> argv \<Rightarrow> unit prog" where
  "ruri h out env ids argv =
     (let w = h_world h in
      seq (run w (Set_dumpable False))
       (\<lambda>_. seq (ruri_clear_env w (o_reexecuted out))
         (\<lambda>_. seq (parse_args_prog w env argv)
           (\<lambda>c. seq (lift_result (checked_mode ids c))
             (\<lambda>(c', mode). seq (ruri_setup_pid_file_daemon h out c')
               (\<lambda>h'. seq (if timeout c' > 0 then ruri_setup_timeout_watchdog h' out c' else ret ())
                 (\<lambda>_. run_container h' c' mode)))))))"

section \<open>What the parts call\<close>

abbreviation quiet_prog :: "'a prog \<Rightarrow> bool" where
  "quiet_prog p \<equiv> only (\<lambda>c. \<not> is_exec c) p"

lemma clear_env_quiet: "quiet_prog (ruri_clear_env w b)"
  unfolding ruri_clear_env_def reexec_def Let_def by (intro only_intros; simp)

lemma forks_quiet: "quiet_prog (background_forks w st)" "quiet_prog (useless_fork w st c)"
  unfolding background_forks_def useless_fork_def by (intro only_intros; simp)+

lemma parse_quiet: "quiet_prog (parse_args_prog w env argv)"
  unfolding parse_args_prog_def by (intro only_intros forks_quiet)

lemma daemon_quiet: "quiet_prog (ruri_setup_pid_file_daemon h out c)"
  unfolding ruri_setup_pid_file_daemon_def daemon_ready_def pid_file_daemon_def Let_def
  by (intro only_intros quiet.umount_only; simp)

lemma watchdog_quiet: "quiet_prog (ruri_setup_timeout_watchdog h out c)"
proof -
  have t: "quiet_prog (watchdog_timeout h c pid)" for h c pid
    unfolding watchdog_timeout_def watchdog_kill_def
    by (intro only_intros quiet.umount_only fork_quiet; simp)
  have "quiet_prog (watchdog_loop h c pid start obs)" for pid start obs
    by (induction h c pid start obs rule: watchdog_loop.induct) (auto intro!: only_intros t simp del: prog_simps)
  then show ?thesis unfolding ruri_setup_timeout_watchdog_def Let_def by (intro only_intros; simp)
qed

text \<open>Parsing returns the container of parse_args, and the mode is that of \<open>ruri_main\<close>.\<close>

lemma parse_prog_result: "triple P (parse_args_prog w env argv) (\<lambda>c tr. parse_args env argv = Inr c)"
proof -
  have "parse_args env argv = res_bind (args_end env argv) (finish_args env)"
    by (simp add: parse_args_def args_end_def split: option.splits)
  then show ?thesis
    unfolding parse_args_prog_def triple_def
    by (auto simp: seq_Inr lift_result_def split: sum.splits)
qed

lemma ruri_main_checked: "ruri_main env ids argv = res_bind (parse_args env argv) (checked_mode ids)"
  unfolding ruri_main_def by (rule arg_cong[where f = "res_bind (parse_args env argv)"]) (simp add: checked_mode_def Let_def fun_eq_iff)

lemma daemon_result:
  "triple P (ruri_setup_pid_file_daemon h out c) (\<lambda>h' tr. \<exists>b. h' = h\<lparr>h_pid_fd := b\<rparr>)"
  unfolding ruri_setup_pid_file_daemon_def daemon_ready_def pid_file_daemon_def Let_def
  by (intro triple_second triple_if triple_die triple_ret) blast+

section \<open>The program runs only confined commands\<close>

definition mode_ok :: "host \<Rightarrow> ruri_container \<Rightarrow> run_mode \<Rightarrow> sys_call list \<Rightarrow> string list \<Rightarrow> bool" where
  "mode_ok h c mode tr argv =
     (case mode of
        Run_unshare \<Rightarrow> (\<exists>c1 c2 c'. configured h c c1 \<and> c2 \<in> {c1, c1\<lparr>first_init := False\<rparr>} \<and> runs_as h c2 c'
          \<and> argv = command c' \<and> isolated (h_world h) c1 tr \<and> forked (h_world h) tr
          \<and> confined (root_entered (h_world h) c') h c' tr)
      | Run_rootless \<Rightarrow> map_helper h argv tr \<or> rootless_command_ok h c tr argv
      | Run_chroot \<Rightarrow> (\<exists>c'. runs_as h c c' \<and> argv = command c' \<and> confined (root_entered (h_world h) c') h c' tr))"

lemma run_container_guarded: "guards (\<lambda>_. True) (run_container h c mode) (mode_ok h c mode)"
proof (cases mode)
  case Run_unshare
  then show ?thesis using unshare_guarded[of h c] by (simp add: run_container_def mode_ok_def[abs_def])
next
  case Run_rootless
  then show ?thesis using rootless_run_guarded[of h c] by (simp add: run_container_def mode_ok_def[abs_def])
next
  case Run_chroot
  let ?N = "mode_ok h c Run_chroot"
  have "guards (\<lambda>_. True) (ruri_run_chroot_container h c) ?N"
    using container_guarded[of h c] by (simp add: mode_ok_def[abs_def])
  moreover have "quiet_prog (rootless_wait h pid)" for pid
    unfolding rootless_wait_def by (intro only_intros fork_quiet; simp)
  ultimately have "guards (\<lambda>_. True) (if pid > 0 then rootless_wait h pid else if pid = 0
      then ruri_run_chroot_container h c else die (Fatal ''Failed to fork for chroot container QwQ'')) ?N" for pid
    using guards_quiet[OF only_basic(2)] by (auto intro: guards_quiet)
  then show ?thesis unfolding run_container_def Run_chroot run_mode.case
    by (intro guards_seq[OF triple_any]) (auto intro: only_intros)
qed

lemma ruri_guarded:
  "guards (\<lambda>_. True) (ruri h out env ids argv)
     (\<lambda>tr cmd. \<exists>c mode b. ruri_main env ids argv = Inr (c, mode) \<and> mode_ok (h\<lparr>h_pid_fd := b\<rparr>) c mode tr cmd)"
    (is "guards _ _ ?N")
proof -
  let ?main = "\<lambda>c mode. ruri_main env ids argv = Inr (c, mode)"
  have run: "guards (\<lambda>_. ?main c mode \<and> (\<exists>b. h' = h\<lparr>h_pid_fd := b\<rparr>)) (run_container h' c mode) ?N" for h' c mode
    using run_container_guarded[of h' c mode] unfolding guards_def by blast
  have t: "triple P p (\<lambda>_ _. A)" if "\<And>tr. P tr \<Longrightarrow> A" for P A and p :: "unit prog"
    using that by (auto simp: triple_def)
  have daemon: "triple (\<lambda>_. A) (ruri_setup_pid_file_daemon h out c) (\<lambda>h' _. A \<and> (\<exists>b. h' = h\<lparr>h_pid_fd := b\<rparr>))" for A c
    using daemon_result[of "\<lambda>_. A" h out c] by (auto simp: triple_def)
  have rest: "guards (\<lambda>_. ?main c mode) (seq (ruri_setup_pid_file_daemon h out c)
      (\<lambda>h'. seq (if timeout c > 0 then ruri_setup_timeout_watchdog h' out c else ret ())
        (\<lambda>_. run_container h' c mode))) ?N" for c mode
    by (rule guards_seq[OF daemon daemon_quiet], rule guards_seq[OF t _ run]) (auto intro: only_intros watchdog_quiet)
  have checked: "guards (\<lambda>_. parse_args env argv = Inr c) (seq (lift_result (checked_mode ids c))
      (\<lambda>(c', mode). seq (ruri_setup_pid_file_daemon h out c')
        (\<lambda>h'. seq (if timeout c' > 0 then ruri_setup_timeout_watchdog h' out c' else ret ())
          (\<lambda>_. run_container h' c' mode)))) ?N" for c
  proof (rule guards_seq[OF triple_lift[where Q = "\<lambda>(c', mode) _. ?main c' mode"] only_lift])
    show "(case v of (c', mode) \<Rightarrow> \<lambda>_. ?main c' mode) tr"
      if "parse_args env argv = Inr c" "checked_mode ids c = Inr v" for v and tr :: "sys_call list"
      using that by (cases v) (simp add: ruri_main_checked)
    show "guards (case v of (c', mode) \<Rightarrow> \<lambda>_. ?main c' mode) (case v of (c', mode) \<Rightarrow>
        seq (ruri_setup_pid_file_daemon h out c')
        (\<lambda>h'. seq (if timeout c' > 0 then ruri_setup_timeout_watchdog h' out c' else ret ())
          (\<lambda>_. run_container h' c' mode))) ?N" for v
      using rest by (cases v) simp
  qed
  show ?thesis unfolding ruri_def Let_def
    by (rule guards_seq[OF triple_any only_basic(5)], simp, rule guards_seq[OF triple_any clear_env_quiet],
        rule guards_seq[OF parse_prog_result parse_quiet], rule checked)
qed

text \<open>C1: Whatever the arguments, the user and the answers of the kernel are, ruri executes a
  command only for arguments that parse and pass the checks, and only confined as the container
  they describe: after the change of root and the restrictions, where confined says which of
  them must have succeeded and which were tried; in its namespaces, when it is run in some; in a
  user namespace of its own, when it is rootless.  The only other commands are newuidmap and
  newgidmap of a rootless run.\<close>

theorem ruri_runs_only_confined:
  assumes "ruri h out env ids argv [] = (r, pre @ Exec cmd # post)"
  shows "\<exists>c mode b. ruri_main env ids argv = Inr (c, mode) \<and> mode_ok (h\<lparr>h_pid_fd := b\<rparr>) c mode pre cmd"
  using guardsD[OF ruri_guarded TrueI, of h out env ids argv "[]" r pre cmd post] assms by simp

section \<open>Witness\<close>

definition main_host :: host where
  "main_host = jail_host\<lparr>h_world := (h_world jail_host)\<lparr>w_ret := \<lambda>tr c. (case c of
     Fork \<Rightarrow> if Fork \<in> set tr then 0 else 42 | Pipe_read n \<Rightarrow> 2 | Open _ \<Rightarrow> -2 | _ \<Rightarrow> 0)\<rparr>\<rparr>"

definition main_outside :: outside where
  "main_outside = \<lparr>o_reexecuted = True, o_events = \<lambda>_. [], o_now = \<lambda>_. 0, o_watch = \<lambda>_. []\<rparr>"

definition main_env :: args_env where
  "main_env = sample_args_env\<lparr>ae_kernel := sample_kernel\<lparr>last_cap_file := Some 9\<rparr>\<rparr>"

definition main_argv :: argv where
  "main_argv = [''ruri'', ''-N'', ''/ct'', ''/bin/sh'']"

definition main_container :: ruri_container where
  "main_container = sample_container\<lparr>container_dir := Some ''/ct'',
     drop_caplist := 2 # 9 # replicate 113 (-114),
     command := [''/bin/sh''], env_list := [], no_new_privs := False, enable_unshare := False, use_rurienv := False,
     memory := None, container_id := 0, user := None\<rparr>"



definition main_calls :: "sys_call list" where
  "main_calls = [Set_dumpable False, Socketpair, Pipe, Fork, Waitpid 42, Pipe_read 15]"

lemma main_parse: "parse_args_prog (h_world main_host) main_env main_argv [Set_dumpable False]
   = (Inr main_container, [Set_dumpable False])"
  by code_simp

lemma main_answers:
  "w_ret (h_world main_host) tr Socketpair = 0" "w_ret (h_world main_host) tr (Pipe_read n) = 2"
  "Fork \<notin> set tr \<Longrightarrow> w_ret (h_world main_host) tr Fork = 42"
  by (simp_all add: main_host_def)

lemma main_daemon: "ruri_setup_pid_file_daemon main_host main_outside main_container [Set_dumpable False]
   = (Inr (main_host\<lparr>h_pid_fd := True\<rparr>), main_calls)"
  by (simp add: ruri_setup_pid_file_daemon_def daemon_ready_def Let_def seq_def main_answers main_calls_def)

lemma main_run: "first_command (run_container (main_host\<lparr>h_pid_fd := True\<rparr>) main_container Run_chroot main_calls)
   = Some (Exec [''/bin/sh''])"
  by code_simp

lemma main_runs:
  "first_command (ruri main_host main_outside main_env \<lparr>ruid = 0, euid = 0, rgid = 0, egid = 0\<rparr> main_argv [])
     = Some (Exec [''/bin/sh''])"
proof -
  have "checked_mode \<lparr>ruid = 0, euid = 0, rgid = 0, egid = 0\<rparr> main_container = Inr (main_container, Run_chroot)"
    by (simp add: checked_mode_def check_container_def main_container_def sample_container_def)
  then show ?thesis
    using main_parse main_daemon main_run
    by (simp add: ruri_def seq_def ruri_clear_env_def main_outside_def Let_def lift_result_def main_container_def sample_container_def)
qed

lemma ruri_runs_only_confined_witness:
  "\<exists>c mode b. ruri_main main_env \<lparr>ruid = 0, euid = 0, rgid = 0, egid = 0\<rparr> main_argv = Inr (c, mode)
     \<and> mode_ok (main_host\<lparr>h_pid_fd := b\<rparr>) c mode
         (calls_before (ruri main_host main_outside main_env \<lparr>ruid = 0, euid = 0, rgid = 0, egid = 0\<rparr> main_argv []))
         [''/bin/sh'']"
  by (rule ruri_runs_only_confined[OF run_splits[OF main_runs]])

end
