(* ===== verification/K2V.thy ===== *)
theory K2V
  imports K2V3_Access "HOL-Library.Sublist"
begin

text \<open>
  k2v.c, the predecessor of k2v3.c: ruri_correct_config reads files of older versions
  with it.  There is no cache: every getter checks the buffer (\<open>k2v_lint\<close>), strips it
  of comments and of lines that fail the checks (\<open>k2v_auto_tidy\<close>), searches a line by
  its key and reads the value.

  A warning prints a text and, if \<open>stop\<close> (k2v_stop_at_warning) is set, ends the
  program.  A loop over the lines of a buffer is a recursion over \<open>k2v_lines\<close>, which
  steps with get_current_line and goto_next_line.  Reading before the start of an
  object, or an object that was never written, is undefined behaviour.  strtof and the
  %f of printf are arguments.
\<close>

section \<open>Strings and lines\<close>

definition k2v_warning :: "bool \<Rightarrow> string \<Rightarrow> 'a \<Rightarrow> 'a result" where
  "k2v_warning stop msg v = (if stop then Inl (Fatal msg) else Inr v)"

text \<open>A backslash protects the next character; n, t, r and the quote keep it.\<close>

fun k2v_correct_backslash :: "string \<Rightarrow> string" where
  "k2v_correct_backslash [] = []"
| "k2v_correct_backslash [c] = [c]"
| "k2v_correct_backslash (c # d # cs) =
     (if c = backslash
      then (if d = CHR ''n'' \<or> d = CHR ''t'' \<or> d = CHR ''r'' \<or> d = dquote then [backslash, d] else [d])
        @ k2v_correct_backslash cs
      else c # k2v_correct_backslash (d # cs))"

definition get_current_line :: "string \<Rightarrow> string" where
  "get_current_line buf = takeWhile (\<lambda>c. c \<noteq> newline) buf"

definition goto_next_line :: "string \<Rightarrow> string option" where
  "goto_next_line buf =
     (case strchr newline buf of None \<Rightarrow> None | Some r \<Rightarrow> if tl r = [] then None else Some (tl r))"

lemma goto_next_line_shorter: "goto_next_line buf = Some q \<Longrightarrow> length q < length buf"
  by (auto simp: goto_next_line_def dest: strchr_shorter split: option.splits if_splits)

function k2v_lines :: "string \<Rightarrow> string list" where
  "k2v_lines p = get_current_line p # (case goto_next_line p of None \<Rightarrow> [] | Some q \<Rightarrow> k2v_lines q)"
  by auto
termination by (relation "measure length") (auto dest: goto_next_line_shorter)

declare k2v_lines.simps [simp del]

text \<open>for (...) { if (s[i] == ' ') continue; s = &s[i]; break; }: a string of blanks stays.\<close>

definition skip_blanks :: "string \<Rightarrow> string" where
  "skip_blanks s = (let r = dropWhile (\<lambda>c. c = blank) s in if r = [] then s else r)"

text \<open>The loop from the last character down to index 1 that cuts trailing blanks: the
  first character is not looked at, so that nothing is cut when only blanks follow it.
  On the empty string strlen(ret) - 1 wraps around.\<close>

fun trim_end :: "string \<Rightarrow> string result" where
  "trim_end [] = Inl (Undefined ''read before the start of a string'')"
| "trim_end (c # cs) =
     Inr (if list_all (\<lambda>x. x = blank) cs then c # cs
          else c # rev (dropWhile (\<lambda>x. x = blank) (rev cs)))"

section \<open>Comments\<close>

definition is_coment_line :: "string \<Rightarrow> bool" where
  "is_coment_line line =
     (if line = [] then True
      else case dropWhile (\<lambda>c. c = blank) line of [] \<Rightarrow> False | c # cs \<Rightarrow> c = CHR ''#'')"

function kept_lines :: "string \<Rightarrow> string list" where
  "kept_lines p =
     (if p = [] then []
      else (if is_coment_line (get_current_line p) then [] else [get_current_line p])
        @ (case strchr newline p of None \<Rightarrow> [] | Some r \<Rightarrow> kept_lines (tl r)))"
  by auto
termination by (relation "measure length") (auto dest: strchr_shorter)

declare kept_lines.simps [simp del]

definition append_line :: "string \<Rightarrow> string \<Rightarrow> string" where
  "append_line ret line = (if ret \<noteq> [] then ret @ newline # line else line)"

definition remove_comment :: "string \<Rightarrow> string option" where
  "remove_comment buf =
     (let ret = foldl append_line [] (kept_lines buf) in if ret \<noteq> [] then Some ret else None)"

section \<open>Key and value of a line\<close>

text \<open>The copying loop of line_get_left, up to the first equals sign that no backslash
  protects; a backslash protects only when two more characters follow.\<close>

fun left_scan :: "string \<Rightarrow> string" where
  "left_scan [] = []"
| "left_scan [c] = (if c = CHR ''='' then [] else [c])"
| "left_scan (c # d # cs) =
     (if c = backslash \<and> cs \<noteq> [] then c # d # left_scan cs
      else if c = CHR ''='' then [] else c # left_scan (d # cs))"

definition line_get_left :: "string \<Rightarrow> string result" where
  "line_get_left line =
     (let l = skip_blanks line in
      if l = [] then Inl (Undefined ''strlen of memory that was not written'') else trim_end (left_scan l))"

text \<open>The loop that goes to the value: None when it finds no equals sign.\<close>

fun after_eq :: "string \<Rightarrow> string option" where
  "after_eq [] = None"
| "after_eq [c] = (if c = CHR ''='' then Some [] else None)"
| "after_eq (c # d # cs) =
     (if c = backslash then after_eq cs else if c = CHR ''='' then Some (d # cs) else after_eq (d # cs))"

definition goto_value :: "string \<Rightarrow> string" where
  "goto_value line = (case after_eq line of None \<Rightarrow> line | Some p \<Rightarrow> p)"

definition line_get_right :: "string \<Rightarrow> string result" where
  "line_get_right line =
     res_bind (trim_end (skip_blanks (goto_value (skip_blanks line)))) (\<lambda>v. Inr (k2v_correct_backslash v))"

definition k2v_is_array :: "string \<Rightarrow> bool" where
  "k2v_is_array line =
     (case dropWhile (\<lambda>c. c = blank) (goto_value line) of [] \<Rightarrow> False | c # cs \<Rightarrow> c = CHR ''['')"

section \<open>The checks of a line\<close>

text \<open>Is there a quote in the key?\<close>

fun quote_in_key :: "string \<Rightarrow> bool" where
  "quote_in_key [] = False"
| "quote_in_key [c] = (c = dquote)"
| "quote_in_key (c # d # cs) =
     (if c = backslash then quote_in_key cs
      else if c = CHR ''='' then False else if c = dquote then True else quote_in_key (d # cs))"

text \<open>The value, whose first character is the opening one, ends with \<open>close\<close> and blanks:
  the loop runs down to index 1.\<close>

definition ends_with :: "char \<Rightarrow> string \<Rightarrow> bool" where
  "ends_with close p = (case dropWhile (\<lambda>x. x = blank) (rev (tl p)) of [] \<Rightarrow> True | c # cs \<Rightarrow> c = close)"

definition basic_lint :: "bool \<Rightarrow> string \<Rightarrow> bool result" where
  "basic_lint stop line0 =
     (let line = skip_blanks line0 in
      if CHR ''='' \<notin> set line then k2v_warning stop ''No key found'' False
      else if hd line = CHR ''='' then k2v_warning stop ''Key should not be empty'' False
      else if quote_in_key line then k2v_warning stop ''Key should not contain a quote'' False
      else case after_eq line of
        None \<Rightarrow> k2v_warning stop ''No key found'' False
      | Some v \<Rightarrow>
          if v = [] then k2v_warning stop ''Value should not be empty'' False
          else let p = skip_blanks v in
            if hd p = dquote then
              (if ends_with dquote p then Inr True
               else k2v_warning stop ''Value should end with a quote'' False)
            else if hd p = CHR ''['' then
              (if ends_with (CHR '']'') p then Inr True
               else k2v_warning stop ''Value should end with ]'' False)
            else k2v_warning stop ''Value should start with a quote or ['' False)"

text \<open>Counting characters that no backslash protects.\<close>

fun count_free :: "(char \<Rightarrow> bool) \<Rightarrow> string \<Rightarrow> nat" where
  "count_free P [] = 0"
| "count_free P [c] = (if c \<noteq> backslash \<and> P c then 1 else 0)"
| "count_free P (c # d # cs) =
     (if c = backslash then count_free P cs
      else (if P c then 1 else 0) + count_free P (d # cs))"

fun comma_count :: "bool \<Rightarrow> string \<Rightarrow> nat" where
  "comma_count in_quote [] = 0"
| "comma_count in_quote [c] = (if c = CHR '','' \<and> \<not> in_quote then 1 else 0)"
| "comma_count in_quote (c # d # cs) =
     (if c = backslash then comma_count in_quote cs
      else let q = (if c = dquote then \<not> in_quote else in_quote)
        in (if c = CHR '','' \<and> \<not> q then 1 else 0) + comma_count q (d # cs))"

text \<open>The last loop of the array check, at index i; prev is the index of the last opening
  quote, and 0 before the first.\<close>

fun no_empty_value :: "nat \<Rightarrow> nat \<Rightarrow> bool \<Rightarrow> string \<Rightarrow> bool" where
  "no_empty_value i prev in_quote [] = True"
| "no_empty_value i prev in_quote (c # cs) =
     (if c = backslash then (case cs of [] \<Rightarrow> True | d # ds \<Rightarrow> no_empty_value (i + 2) prev in_quote ds)
      else let q = (if c = dquote then \<not> in_quote else in_quote);
               prev' = (if c = dquote \<and> q then i else prev)
        in if \<not> q \<and> prev' + 1 = i then False else no_empty_value (i + 1) prev' q cs)"

definition array_lint :: "bool \<Rightarrow> string \<Rightarrow> bool result" where
  "array_lint stop line =
     (let p = skip_blanks (goto_value line);
          quotes = count_free (\<lambda>c. c = dquote) p;
          quote = (if quotes = 0 then 2 else quotes)
      in if count_free (\<lambda>c. c = CHR ''['' \<or> c = CHR '']'') p \<noteq> 2
           then k2v_warning stop ''Value should be in []'' False
         else if quotes mod 2 \<noteq> 0 then k2v_warning stop ''Value should be quoted properly'' False
         else if comma_count False p \<noteq> quote div 2 - 1
           then k2v_warning stop ''Values should be quoted and separated by commas'' False
         else if quote = 2 then Inr True
         else if no_empty_value 0 0 False p then Inr True
         else k2v_warning stop ''Value in array should not be empty'' False)"

definition scalar_lint :: "bool \<Rightarrow> string \<Rightarrow> bool result" where
  "scalar_lint stop line =
     (if count_free (\<lambda>c. c = dquote) (skip_blanks (goto_value line)) \<noteq> 2
      then k2v_warning stop ''Value should be quoted properly'' False else Inr True)"

definition line_lint :: "bool \<Rightarrow> string \<Rightarrow> bool result" where
  "line_lint stop line =
     res_bind (basic_lint stop line)
       (\<lambda>ok. if \<not> ok then Inr False
             else if k2v_is_array line then array_lint stop line else scalar_lint stop line)"

section \<open>Tidying and checking a buffer\<close>

fun tidy_loop :: "bool \<Rightarrow> string list \<Rightarrow> string option \<Rightarrow> string option result" where
  "tidy_loop stop [] ret = Inr ret"
| "tidy_loop stop (line # lines) ret =
     res_bind (line_lint stop line)
       (\<lambda>ok. tidy_loop stop lines
          (if ok then Some (case ret of None \<Rightarrow> line | Some r \<Rightarrow> r @ newline # line) else ret))"

definition k2v_auto_tidy :: "bool \<Rightarrow> string option \<Rightarrow> string option result" where
  "k2v_auto_tidy stop buf =
     (case buf of
        None \<Rightarrow> Inr None
      | Some b \<Rightarrow> (case remove_comment b of
            None \<Rightarrow> Inr None
          | Some tmp \<Rightarrow> tidy_loop stop (k2v_lines tmp) None))"

fun warn_equal :: "bool \<Rightarrow> string \<Rightarrow> string list \<Rightarrow> unit result" where
  "warn_equal stop key [] = Inr ()"
| "warn_equal stop key (k # ks) =
     res_bind (if k = key then k2v_warning stop ''Key should be unique'' () else Inr ())
       (\<lambda>_. warn_equal stop key ks)"

fun singularity_loop :: "bool \<Rightarrow> string list \<Rightarrow> string list \<Rightarrow> unit result" where
  "singularity_loop stop keys [] = Inr ()"
| "singularity_loop stop keys (line # lines) =
     res_bind (line_get_left line)
       (\<lambda>key. res_bind (warn_equal stop key keys) (\<lambda>_. singularity_loop stop (keys @ [key]) lines))"

definition check_singularity :: "bool \<Rightarrow> string option \<Rightarrow> unit result" where
  "check_singularity stop buf =
     (case buf of None \<Rightarrow> Inr () | Some b \<Rightarrow> singularity_loop stop [] (k2v_lines b))"

fun lint_loop :: "bool \<Rightarrow> string list \<Rightarrow> unit result" where
  "lint_loop stop [] = Inr ()"
| "lint_loop stop (line # lines) =
     res_bind (line_lint stop line)
       (\<lambda>ok. res_bind (if ok then Inr () else k2v_warning stop ''Lint error'' ())
          (\<lambda>_. lint_loop stop lines))"

definition k2v_lint :: "bool \<Rightarrow> string option \<Rightarrow> unit result" where
  "k2v_lint stop buf =
     (case buf of
        None \<Rightarrow> k2v_warning stop ''NULL buf'' ()
      | Some b \<Rightarrow>
          res_bind (if length b > 1024 * 1024 then k2v_warning stop ''Buf is too large'' () else Inr ())
            (\<lambda>_. let tmp = remove_comment b in
               res_bind (case tmp of None \<Rightarrow> Inr () | Some t \<Rightarrow> lint_loop stop (k2v_lines t))
                 (\<lambda>_. res_bind (k2v_auto_tidy stop tmp) (check_singularity stop))))"

section \<open>Opening a file\<close>

text \<open>The content is that of the file, None when it cannot be opened; len is what read(2)
  returns, negative when it fails.\<close>

definition k2v_get_filesize :: "bool \<Rightarrow> string option \<Rightarrow> nat result" where
  "k2v_get_filesize stop content =
     (case content of None \<Rightarrow> k2v_warning stop ''Failed to open file'' 0 | Some s \<Rightarrow> Inr (length s))"

definition k2v_open_file :: "bool \<Rightarrow> string option \<Rightarrow> int \<Rightarrow> nat \<Rightarrow> string option result" where
  "k2v_open_file stop content len bufsize =
     res_bind (k2v_get_filesize stop content)
       (\<lambda>n. res_bind (if n > bufsize then k2v_warning stop ''File size is larger than bufsize'' () else Inr ())
         (\<lambda>_. case content of
            None \<Rightarrow> Inr None
          | Some s \<Rightarrow>
              if len < 0 then Inr None else
              (let got = take (nat len) (take bufsize s); ret = takeWhile (\<lambda>c. c \<noteq> nul) got in
               res_bind (if length got \<noteq> length ret
                         then k2v_warning stop ''NUL is not the end of file'' () else Inr ())
                 (\<lambda>_. res_bind (k2v_lint stop (Some ret)) (\<lambda>_. Inr (Some ret))))))"

section \<open>Getters\<close>

fun line_search :: "string \<Rightarrow> string list \<Rightarrow> string option result" where
  "line_search key [] = Inr None"
| "line_search key (line # lines) =
     res_bind (line_get_left line)
       (\<lambda>left. if left = key then Inr (Some line) else line_search key lines)"

definition key_get_line :: "string \<Rightarrow> string option \<Rightarrow> string option result" where
  "key_get_line key buf = (case buf of None \<Rightarrow> Inr None | Some b \<Rightarrow> line_search key (k2v_lines b))"

text \<open>What all getters do first: NULL and empty arguments, the checks, the line of the
  key; a missing line is the default.\<close>

definition k2v_read :: "bool \<Rightarrow> string option \<Rightarrow> string option \<Rightarrow> 'a \<Rightarrow> (string \<Rightarrow> 'a result) \<Rightarrow> 'a result" where
  "k2v_read stop key buf dflt use =
     (case (key, buf) of
        (Some k, Some b) \<Rightarrow>
          if k = [] \<or> b = [] then Inr dflt
          else res_bind (k2v_lint stop (Some b))
            (\<lambda>_. res_bind (k2v_auto_tidy stop (Some b))
              (\<lambda>tidied. res_bind (key_get_line k tidied)
                (\<lambda>line. case line of None \<Rightarrow> Inr dflt | Some l \<Rightarrow> use l)))
      | _ \<Rightarrow> Inr dflt)"

definition have_key :: "bool \<Rightarrow> string option \<Rightarrow> string option \<Rightarrow> bool result" where
  "have_key stop key buf = k2v_read stop key buf False (\<lambda>_. Inr True)"

text \<open>p = strdup(&tmp[1]); p[strlen(p) - 1] = 0.\<close>

definition strip_quotes :: "string \<Rightarrow> string result" where
  "strip_quotes tmp =
     (if tl tmp = [] then Inl (Undefined ''store before the start of a string'') else Inr (butlast (tl tmp)))"

definition scalar_text :: "string \<Rightarrow> string result" where
  "scalar_text line = res_bind (line_get_right line) strip_quotes"

definition key_get_char :: "bool \<Rightarrow> string option \<Rightarrow> string option \<Rightarrow> string option result" where
  "key_get_char stop key buf = k2v_read stop key buf None
     (\<lambda>line. res_bind (scalar_text line) (\<lambda>p. Inr (if p = [] then None else Some p)))"

definition key_get_int :: "bool \<Rightarrow> string option \<Rightarrow> string option \<Rightarrow> int result" where
  "key_get_int stop key buf = k2v_read stop key buf 0
     (\<lambda>line. res_bind (scalar_text line) (\<lambda>p. Inr (atoi p)))"

definition key_get_long :: "bool \<Rightarrow> string option \<Rightarrow> string option \<Rightarrow> int result" where
  "key_get_long stop key buf = k2v_read stop key buf 0
     (\<lambda>line. res_bind (scalar_text line) (\<lambda>p. Inr (strtol p)))"

definition key_get_float ::
    "(string \<Rightarrow> 'f::zero) \<Rightarrow> bool \<Rightarrow> string option \<Rightarrow> string option \<Rightarrow> 'f result" where
  "key_get_float strtof stop key buf = k2v_read stop key buf 0
     (\<lambda>line. res_bind (scalar_text line) (\<lambda>p. Inr (strtof p)))"

definition key_get_bool :: "bool \<Rightarrow> string option \<Rightarrow> string option \<Rightarrow> bool result" where
  "key_get_bool stop key buf = k2v_read stop key buf False
     (\<lambda>line. res_bind (scalar_text line) (\<lambda>p. Inr (p = ''true'')))"

section \<open>Array values\<close>

text \<open>The first loop of __goto_next_val steps two characters at a blank.\<close>

fun at_bracket :: "string \<Rightarrow> bool" where
  "at_bracket [] = False"
| "at_bracket [c] = (c = CHR '']'')"
| "at_bracket (c # d # cs) = (if c = blank then at_bracket cs else c = CHR '']'')"

text \<open>The second loop: from the second quote on, until the third, every character sets the
  result to the text after the next comma, or ends the array when there is none.\<close>

fun next_scan :: "nat \<Rightarrow> string option \<Rightarrow> string \<Rightarrow> string option" where
  "next_scan quote ret [] = ret"
| "next_scan quote ret [c] =
     (if c = backslash then ret
      else if (if c = dquote then quote + 1 else quote) = 2
        then (case strchr (CHR '','') [c] of None \<Rightarrow> None | Some r \<Rightarrow> Some (tl r))
      else ret)"
| "next_scan quote ret (c # d # cs) =
     (if c = backslash then next_scan quote ret cs
      else let q = (if c = dquote then quote + 1 else quote) in
        if q = 2 then (case strchr (CHR '','') (c # d # cs) of
            None \<Rightarrow> None
          | Some r \<Rightarrow> next_scan q (Some (tl r)) (d # cs))
        else next_scan q ret (d # cs))"

definition goto_next_val :: "string \<Rightarrow> string option" where
  "goto_next_val p = (if at_bracket p then None else next_scan 0 None p)"

text \<open>The copying loop of __current_val: tmp holds \<open>acc\<close> up to index j, and \<open>pend\<close> at it.
  After a backslash j stays at the protected character, which the next one overwrites.\<close>

function (sequential) val_scan :: "string \<Rightarrow> string \<Rightarrow> string \<Rightarrow> string" where
  "val_scan acc pend [] = acc @ pend"
| "val_scan acc pend (c # cs) =
     (if c = backslash then
        (if length cs \<ge> 2 then val_scan (acc @ [c]) [hd cs] (tl cs) else acc @ [c])
      else if c = dquote then acc
      else val_scan (acc @ [c]) [] cs)"
  by pat_completeness auto
termination by (relation "measure (\<lambda>(_, _, s). length s)") auto

definition current_val :: "string \<Rightarrow> string option result" where
  "current_val p =
     (case strchr dquote p of
        None \<Rightarrow> Inr None
      | Some r \<Rightarrow>
          if tl r = [] then Inl (Undefined ''strdup of memory that was not written'')
          else let ret = val_scan [] [] (tl r) in
            Inr (if ret \<noteq> [] \<and> hd ret = CHR '']'' then None else Some ret))"

lemma strchr_suffix: "strchr x (c # s) = Some r \<Longrightarrow> suffix (tl r) s"
  by (drule strchr_Some_suffix) (auto simp: Cons_eq_append_conv suffix_def)

lemma next_scan_suffix:
  "next_scan quote ret p = Some q \<Longrightarrow> ret = Some q \<or> p \<noteq> [] \<and> suffix q (tl p)"
proof (induction quote ret p rule: next_scan.induct)
  case (2 quote ret c)
  then show ?case using strchr_suffix[of "CHR '',''" c "[]"] by (auto split: if_splits option.splits)
next
  case (3 quote ret c d cs)
  have skip: "suffix q (d # cs)" if "cs \<noteq> []" "suffix q (tl cs)"
    using that by (cases cs) (auto intro: suffix_ConsI)
  let ?q = "if c = dquote then quote + 1 else quote"
  consider (esc) "c = backslash" | (comma) "c \<noteq> backslash" "?q = 2" | (other) "c \<noteq> backslash" "?q \<noteq> 2" by blast
  then show ?case
  proof cases
    case esc
    then show ?thesis using 3 skip by auto
  next
    case comma
    obtain r where r: "strchr (CHR '','') (c # d # cs) = Some r" "next_scan ?q (Some (tl r)) (d # cs) = Some q"
      using 3(4) comma by (auto simp: Let_def split: option.splits)
    then show ?thesis using 3(2)[OF comma(1) refl comma(2) r(1,2)] strchr_suffix[OF r(1)]
      by (auto intro: suffix_ConsI)
  next
    case other
    have "next_scan ?q ret (d # cs) = Some q" using 3(4) other by (simp add: Let_def split: if_splits)
    then show ?thesis using 3(3)[OF other(1) refl other(2)] by (auto intro: suffix_ConsI)
  qed
qed auto

lemma goto_next_val_suffix: "goto_next_val p = Some q \<Longrightarrow> p \<noteq> [] \<and> suffix q (tl p)"
  by (auto simp: goto_next_val_def split: if_splits dest: next_scan_suffix)

lemma goto_next_val_shorter: "goto_next_val p = Some q \<Longrightarrow> length q < length p"
  by (drule goto_next_val_suffix) (auto simp: neq_Nil_conv dest: suffix_length_le)

function str_array_loop :: "string option \<Rightarrow> string list result" where
  "str_array_loop None = Inr []"
| "str_array_loop (Some p) =
     res_bind (current_val p)
       (\<lambda>val. case val of
          None \<Rightarrow> Inr []
        | Some v \<Rightarrow> res_bind (str_array_loop (goto_next_val p)) (\<lambda>vs. Inr (v # vs)))"
  by pat_completeness auto
termination
  by (relation "measure (\<lambda>s. case s of None \<Rightarrow> 0 | Some p \<Rightarrow> Suc (length p))")
     (auto dest: goto_next_val_shorter split: option.splits)

definition array_to_str_array :: "string \<Rightarrow> string list result" where
  "array_to_str_array array =
     (if array = ''[]'' \<or> array = [CHR ''['', dquote, dquote, CHR '']''] then Inr []
      else if ch_at array 0 \<noteq> CHR ''['' then Inr []
      else str_array_loop (Some (tl array)))"

text \<open>Array getters: the filled prefix of the caller's array; its length is the result.
  The callers' limits are positive constants.\<close>

definition key_get_array ::
    "(string \<Rightarrow> 'a) \<Rightarrow> bool \<Rightarrow> string option \<Rightarrow> string option \<Rightarrow> nat \<Rightarrow> 'a list result" where
  "key_get_array conv stop key buf limit =
     (if limit = 0 then Inr []
      else k2v_read stop key buf []
        (\<lambda>line. res_bind (line_get_right line)
          (\<lambda>tmp. res_bind (array_to_str_array tmp) (\<lambda>strs. Inr (map conv (take limit strs))))))"

definition key_get_int_array :: "bool \<Rightarrow> string option \<Rightarrow> string option \<Rightarrow> nat \<Rightarrow> int list result" where
  "key_get_int_array = key_get_array atoi"

definition key_get_char_array :: "bool \<Rightarrow> string option \<Rightarrow> string option \<Rightarrow> nat \<Rightarrow> string list result" where
  "key_get_char_array = key_get_array (\<lambda>s. s)"

definition key_get_float_array ::
    "(string \<Rightarrow> 'f::zero) \<Rightarrow> bool \<Rightarrow> string option \<Rightarrow> string option \<Rightarrow> nat \<Rightarrow> 'f list result" where
  "key_get_float_array strtof = key_get_array strtof"

section \<open>Generators\<close>

text \<open>The generated text and, for those that measure it, the size of the buffer.\<close>

definition quoted_line :: "string \<Rightarrow> string \<Rightarrow> string" where
  "quoted_line key v = key @ CHR ''='' # dquote # v @ [dquote, newline]"

definition char_to_k2v :: "string option \<Rightarrow> string option \<Rightarrow> string option" where
  "char_to_k2v key v = map_option (\<lambda>k. quoted_line k (text_of v)) key"

definition char_to_k2v_size :: "string \<Rightarrow> string option \<Rightarrow> nat" where
  "char_to_k2v_size key v = length key + length (text_of v) + 5"

definition int_to_k2v :: "string option \<Rightarrow> int \<Rightarrow> string option" where
  "int_to_k2v key v = map_option (\<lambda>k. quoted_line k (show_int v)) key"

definition long_to_k2v :: "string option \<Rightarrow> int \<Rightarrow> string option" where
  "long_to_k2v key v = map_option (\<lambda>k. quoted_line k (show_int v)) key"

definition bool_to_k2v :: "string option \<Rightarrow> bool \<Rightarrow> string option" where
  "bool_to_k2v key v = map_option (\<lambda>k. quoted_line k (if v then ''true'' else ''false'')) key"

definition float_to_k2v :: "('f \<Rightarrow> string) \<Rightarrow> string option \<Rightarrow> 'f \<Rightarrow> string option" where
  "float_to_k2v fmt key v = map_option (\<lambda>k. quoted_line k (fmt v)) key"

fun elems_loop :: "string list \<Rightarrow> string" where
  "elems_loop [] = []"
| "elems_loop (v # vs) = dquote # v @ dquote # (if vs \<noteq> [] then [CHR '',''] else []) @ elems_loop vs"

definition array_line :: "string \<Rightarrow> string list option \<Rightarrow> string" where
  "array_line key vs =
     (case vs of
        None \<Rightarrow> key @ ''=[]'' @ [newline]
      | Some ws \<Rightarrow> if ws = [] then key @ ''=[]'' @ [newline]
          else key @ ''=['' @ elems_loop ws @ [CHR '']'', newline])"

definition char_array_to_k2v :: "string option \<Rightarrow> string list option \<Rightarrow> string option" where
  "char_array_to_k2v key vs = map_option (\<lambda>k. array_line k vs) key"

fun elems_size :: "string list \<Rightarrow> nat" where
  "elems_size [] = 0"
| "elems_size (v # vs) = length v + 2 + (if vs \<noteq> [] then 1 else 0) + elems_size vs"

definition char_array_to_k2v_size :: "string \<Rightarrow> string list \<Rightarrow> nat" where
  "char_array_to_k2v_size key vs = length key + 5 + elems_size vs"

definition int_array_to_k2v :: "string option \<Rightarrow> int list option \<Rightarrow> string option" where
  "int_array_to_k2v key vs = map_option (\<lambda>k. array_line k (map_option (map show_int) vs)) key"

definition float_array_to_k2v :: "('f \<Rightarrow> string) \<Rightarrow> string option \<Rightarrow> 'f list option \<Rightarrow> string option" where
  "float_array_to_k2v fmt key vs = map_option (\<lambda>k. array_line k (map_option (map fmt) vs)) key"

definition k2v_add_comment :: "string option \<Rightarrow> string \<Rightarrow> string" where
  "k2v_add_comment buf comment = text_of buf @ ''# '' @ comment @ [newline]"

definition k2v_add_newline :: "string option \<Rightarrow> string" where
  "k2v_add_newline buf = text_of buf @ [newline]"

definition k2v_add_config_func :: "string option \<Rightarrow> string \<Rightarrow> string" where
  "k2v_add_config_func buf tmp = text_of buf @ tmp"

end
