(* ===== verification/K2V_Props.thy ===== *)
theory K2V_Props
  imports K2V Container
begin

text \<open>
  The old parser never leaves the strings it reads: the checks of a line guarantee what
  the getters rely on, a nonempty key and a value with its two quotes or brackets.  And
  it reads the text ruri writes: on generated text its getters agree with those of k2v3.
\<close>

section \<open>Lines\<close>

fun join_lines :: "string list \<Rightarrow> string" where
  "join_lines [] = []"
| "join_lines (l # ls) = l @ concat (map (\<lambda>m. newline # m) ls)"

definition good_line :: "string \<Rightarrow> bool" where
  "good_line l = (l \<noteq> [] \<and> newline \<notin> set l)"

lemma strchr_newline_append: "newline \<notin> set l \<Longrightarrow> strchr newline (l @ newline # t) = Some (newline # t)"
  by (rule strchr_append)

lemma k2v_lines_last:
  assumes "newline \<notin> set l"
  shows "k2v_lines l = [l]"
proof -
  have "takeWhile (\<lambda>c. c \<noteq> newline) l = l" using assms by (auto simp: takeWhile_eq_all_conv)
  moreover have "strchr newline l = None" using assms by (simp add: strchr_None_iff)
  ultimately show ?thesis by (subst k2v_lines.simps) (simp add: get_current_line_def goto_next_line_def)
qed

lemma k2v_lines_cons: "newline \<notin> set l \<Longrightarrow> t \<noteq> [] \<Longrightarrow> k2v_lines (l @ newline # t) = l # k2v_lines t"
  by (subst k2v_lines.simps) (simp add: get_current_line_def goto_next_line_def takeWhile_stop strchr_append)

lemma k2v_lines_join:
  "\<forall>l \<in> set ls. good_line l \<Longrightarrow> ls \<noteq> [] \<Longrightarrow> k2v_lines (join_lines ls) = ls"
proof (induction ls)
  case (Cons l ls)
  then show ?case
    by (cases ls) (auto simp: good_line_def k2v_lines_last k2v_lines_cons)
qed simp

lemma kept_lines_good: "l \<in> set (kept_lines p) \<Longrightarrow> good_line l"
proof (induction p rule: kept_lines.induct)
  case (1 p)
  have c: "is_coment_line (get_current_line p) \<or> good_line (get_current_line p)"
    by (auto simp: good_line_def is_coment_line_def get_current_line_def dest: set_takeWhileD)
  show ?case
  proof (cases "strchr newline p")
    case None
    then show ?thesis using 1(2) c by (subst (asm) kept_lines.simps) (auto split: if_splits)
  next
    case (Some r)
    then show ?thesis using 1 c by (subst (asm) (2) kept_lines.simps) (auto split: if_splits)
  qed
qed

lemma kept_lines_Nil [simp]: "kept_lines [] = []"
  by (subst kept_lines.simps) simp

lemma kept_lines_append:
  "newline \<notin> set l \<Longrightarrow>
   kept_lines (l @ newline # t) = (if is_coment_line l then [] else [l]) @ kept_lines t"
  by (subst kept_lines.simps) (simp add: get_current_line_def takeWhile_stop strchr_append)

lemma append_lines:
  "r \<noteq> [] \<Longrightarrow> foldl append_line r ls = r @ concat (map (\<lambda>m. newline # m) ls)"
  by (induction ls arbitrary: r) (simp_all add: append_line_def)

lemma remove_comment_join:
  "remove_comment b = (if kept_lines b = [] then None else Some (join_lines (kept_lines b)))"
proof (cases "kept_lines b")
  case (Cons l ls)
  then have "l \<noteq> []" using kept_lines_good[of l b] by (simp add: good_line_def)
  then show ?thesis using Cons by (simp add: remove_comment_def append_lines append_line_def)
qed (simp add: remove_comment_def)

section \<open>The lenient checks\<close>

definition line_ok :: "string \<Rightarrow> bool" where
  "line_ok l = (line_lint False l = Inr True)"

lemma lenient_warning [simp]: "k2v_warning False msg v = Inr v"
  by (simp add: k2v_warning_def)

lemma lenient_line: "line_lint False l = Inr (line_ok l)"
proof -
  have "\<not> isl (basic_lint False l)" "\<not> isl (array_lint False l)" "\<not> isl (scalar_lint False l)"
    by (simp_all add: basic_lint_def array_lint_def scalar_lint_def Let_def split: option.splits)
  then have "\<not> isl (line_lint False l)"
    by (cases "basic_lint False l") (simp_all add: line_lint_def)
  then show ?thesis by (cases "line_lint False l") (simp_all add: line_ok_def)
qed

definition config_lines :: "string \<Rightarrow> string list" where
  "config_lines b = filter line_ok (kept_lines b)"

definition lines_text :: "string list \<Rightarrow> string option" where
  "lines_text ls = (if ls = [] then None else Some (join_lines ls))"

lemma lenient_tidy_Some:
  "tidy_loop False ls (Some r) = Inr (Some (r @ concat (map (\<lambda>m. newline # m) (filter line_ok ls))))"
  by (induction ls arbitrary: r) (simp_all add: lenient_line)

lemma lenient_tidy: "tidy_loop False ls None = Inr (lines_text (filter line_ok ls))"
  by (induction ls) (simp_all add: lenient_line lenient_tidy_Some lines_text_def)

lemma lenient_auto_tidy: "k2v_auto_tidy False (Some b) = Inr (lines_text (config_lines b))"
  using k2v_lines_join[of "kept_lines b"] kept_lines_good[of _ b]
  by (simp add: k2v_auto_tidy_def remove_comment_join lenient_tidy config_lines_def lines_text_def)

lemma lenient_lint_loop: "lint_loop False ls = Inr ()"
  by (induction ls) (simp_all add: lenient_line)

lemma config_lines_ok: "l \<in> set (config_lines b) \<Longrightarrow> line_ok l \<and> good_line l"
  using kept_lines_good by (auto simp: config_lines_def)

section \<open>What the checks guarantee\<close>

lemma skip_blanks_cases:
  obtains bs c cs where "s = bs @ c # cs" "set bs \<subseteq> {blank}" "c \<noteq> blank" "skip_blanks s = c # cs"
    "dropWhile (\<lambda>c. c = blank) s = c # cs"
  | "set s \<subseteq> {blank}" "skip_blanks s = s" "dropWhile (\<lambda>c. c = blank) s = []"
proof (cases "dropWhile (\<lambda>c. c = blank) s")
  case Nil
  then show thesis using that(2) by (auto simp: skip_blanks_def dropWhile_eq_Nil_conv)
next
  case (Cons c cs)
  have "set (takeWhile (\<lambda>c. c = blank) s) \<subseteq> {blank}" by (auto dest: set_takeWhileD)
  moreover have "s = takeWhile (\<lambda>c. c = blank) s @ c # cs" using Cons takeWhile_dropWhile_id by metis
  moreover have "c \<noteq> blank" using Cons hd_dropWhile[of "\<lambda>c. c = blank" s] by auto
  ultimately show thesis using that(1) Cons by (auto simp: skip_blanks_def)
qed

lemma skip_blanks_Nil [simp]: "skip_blanks s = [] \<longleftrightarrow> s = []"
  by (auto simp: skip_blanks_def Let_def)

lemma skip_blanks_head [simp]: "c \<noteq> blank \<Longrightarrow> skip_blanks (c # s) = c # s"
  by (simp add: skip_blanks_def)

lemma after_eq_blanks: "set bs \<subseteq> {blank} \<Longrightarrow> after_eq (bs @ s) = after_eq s"
proof (induction bs)
  case (Cons b bs)
  then show ?case by (cases "bs @ s") auto
qed simp

lemma after_eq_skip [simp]: "after_eq (skip_blanks s) = after_eq s"
  by (cases s rule: skip_blanks_cases) (auto simp: after_eq_blanks)

lemma trim_end_split:
  assumes "p \<noteq> []"
  shows "\<exists>t bs. trim_end p = Inr t \<and> p = t @ bs \<and> set bs \<subseteq> {blank} \<and> t \<noteq> [] \<and> hd t = hd p
    \<and> (ends_with close p \<longrightarrow> set (tl p) \<subseteq> {blank} \<or> last t = close)"
proof -
  obtain c cs where p: "p = c # cs" using assms by (cases p) auto
  show ?thesis
  proof (cases "dropWhile (\<lambda>x. x = blank) (rev cs)")
    case Nil
    then have b: "set cs \<subseteq> {blank}" by (auto simp: dropWhile_eq_Nil_conv)
    then have "trim_end p = Inr p" using p by (auto simp: list_all_iff)
    then show ?thesis using p b by (intro exI[of _ p] exI[of _ "[]"]) simp
  next
    case (Cons d ds)
    let ?bs = "rev (takeWhile (\<lambda>x. x = blank) (rev cs))"
    have "cs = rev (dropWhile (\<lambda>x. x = blank) (rev cs)) @ ?bs"
      by (metis rev_append rev_rev_ident takeWhile_dropWhile_id)
    moreover have "set ?bs \<subseteq> {blank}" by (auto dest: set_takeWhileD)
    moreover have "d \<noteq> blank" "d \<in> set cs"
      using Cons hd_dropWhile[of "\<lambda>x. x = blank" "rev cs"] set_dropWhileD[of d "\<lambda>x. x = blank" "rev cs"] by auto
    then have "\<not> list_all (\<lambda>x. x = blank) cs" by (auto simp: list_all_iff)
    ultimately show ?thesis using p Cons
      by (intro exI[of _ "c # rev (d # ds)"] exI[of _ ?bs]) (auto simp: ends_with_def)
  qed
qed

lemma count_free_blanks: "\<not> P blank \<Longrightarrow> set bs \<subseteq> {blank} \<Longrightarrow> count_free P bs = 0"
  by (induction bs rule: induct_list012) auto

lemma count_free_trim:
  "\<not> P blank \<Longrightarrow> set bs \<subseteq> {blank} \<Longrightarrow> count_free P (t @ bs) = count_free P t"
proof (induction P t rule: count_free.induct)
  case (2 P c)
  then show ?case by (cases bs rule: remdups_adj.cases) (auto simp: count_free_blanks)
qed (auto simp: count_free_blanks)

lemma count_free_length: "count_free P v \<le> length (k2v_correct_backslash v)"
  by (induction P v rule: count_free.induct) auto

lemma correct_backslash_last: "v \<noteq> [] \<Longrightarrow> last (k2v_correct_backslash v) = last v"
proof (induction v rule: k2v_correct_backslash.induct)
  case (3 c d cs)
  have "k2v_correct_backslash s = [] \<longleftrightarrow> s = []" for s by (cases s rule: k2v_correct_backslash.cases) auto
  with 3 show ?case by (cases "cs = []") (auto split: if_splits)
qed auto

lemma correct_backslash_head: "v \<noteq> [] \<Longrightarrow> hd v \<noteq> backslash \<Longrightarrow> hd (k2v_correct_backslash v) = hd v"
  by (cases v rule: k2v_correct_backslash.cases) auto

lemma line_okE:
  assumes "line_ok l"
  obtains v where "after_eq l = Some v" "v \<noteq> []" "skip_blanks l \<noteq> []" "hd (skip_blanks l) \<noteq> CHR ''=''"
    "hd (skip_blanks v) = dquote \<and> ends_with dquote (skip_blanks v)
       \<and> count_free (\<lambda>c. c = dquote) (skip_blanks v) = 2
     \<or> hd (skip_blanks v) = CHR ''['' \<and> ends_with (CHR '']'') (skip_blanks v)
       \<and> count_free (\<lambda>c. c = CHR ''['' \<or> c = CHR '']'') (skip_blanks v) = 2"
proof -
  have b: "basic_lint False l = Inr True"
    and k: "if k2v_is_array l then array_lint False l = Inr True else scalar_lint False l = Inr True"
    using assms by (auto simp: line_ok_def line_lint_def res_bind_eq_Inr split: if_splits)
  from b obtain v where v: "after_eq l = Some v" "v \<noteq> []" "CHR ''='' \<in> set (skip_blanks l)"
      "hd (skip_blanks l) \<noteq> CHR ''=''"
      "hd (skip_blanks v) = dquote \<and> ends_with dquote (skip_blanks v)
       \<or> hd (skip_blanks v) = CHR ''['' \<and> ends_with (CHR '']'') (skip_blanks v)"
    by (auto simp: basic_lint_def Let_def split: if_splits option.splits)
  have "k2v_is_array l \<longleftrightarrow> hd (skip_blanks v) = CHR ''[''"
  proof (cases v rule: skip_blanks_cases)
    case 2
    then have "hd v = blank" using v(2) by (cases v) auto
    moreover have "\<not> k2v_is_array l" unfolding k2v_is_array_def goto_value_def v(1) option.case 2(3) by simp
    ultimately show ?thesis using 2(2) by simp
  qed (simp add: k2v_is_array_def goto_value_def v(1))
  moreover from v(3) have "skip_blanks l \<noteq> []" by force
  ultimately show thesis using that[of v] v k
    by (auto simp: array_lint_def scalar_lint_def goto_value_def Let_def split: if_splits)
qed

lemma left_scan_nonempty: "l \<noteq> [] \<Longrightarrow> hd l \<noteq> CHR ''='' \<Longrightarrow> left_scan l \<noteq> []"
  by (cases l rule: left_scan.cases) auto

lemma left_defined: "line_ok l \<Longrightarrow> \<exists>k. line_get_left l = Inr k"
proof (elim line_okE)
  fix v
  assume "skip_blanks l \<noteq> []" "hd (skip_blanks l) \<noteq> CHR ''=''"
  then obtain k where "trim_end (left_scan (skip_blanks l)) = Inr k"
    using trim_end_split[OF left_scan_nonempty[of "skip_blanks l"]] by blast
  then show ?thesis using \<open>skip_blanks l \<noteq> []\<close> by (simp add: line_get_left_def Let_def)
qed

lemma value_right:
  assumes v: "after_eq l = Some v" "v \<noteq> []" and p: "ends_with close (skip_blanks v)"
    "count_free P (skip_blanks v) = 2" "\<not> P blank" "hd (skip_blanks v) \<noteq> backslash"
  shows "\<exists>t. line_get_right l = Inr t \<and> 2 \<le> length t \<and> hd t = hd (skip_blanks v) \<and> last t = close"
proof -
  let ?p = "skip_blanks v"
  have ne: "?p \<noteq> []" using v(2) by simp
  obtain t bs where t: "trim_end ?p = Inr t" "?p = t @ bs" "set bs \<subseteq> {blank}" "t \<noteq> []" "hd t = hd ?p"
      "set (tl ?p) \<subseteq> {blank} \<or> last t = close"
    using trim_end_split[OF ne, of close] p(1) by blast
  have n: "count_free P t = 2" using count_free_trim[of P, OF p(3) t(3), of t] p(2) unfolding t(2) by simp
  have "\<not> set (tl ?p) \<subseteq> {blank}"
  proof
    assume b: "set (tl ?p) \<subseteq> {blank}"
    have "count_free P ([hd ?p] @ tl ?p) = count_free P [hd ?p]"
      by (rule count_free_trim[of P, OF p(3) b])
    moreover have "[hd ?p] @ tl ?p = ?p" using ne by simp
    ultimately have "count_free P [hd ?p] = 2" using p(2) by metis
    then show False by (simp split: if_splits)
  qed
  then have "last t = close" using t(6) by blast
  moreover have "line_get_right l = Inr (k2v_correct_backslash t)"
    using v(1) t(1) by (simp add: line_get_right_def goto_value_def)
  ultimately show ?thesis
    using t(5) p(4) count_free_length[of P t] n correct_backslash_last[OF t(4)] correct_backslash_head[OF t(4)]
    by simp
qed

lemma right_defined:
  assumes "line_ok l"
  shows "\<exists>t. line_get_right l = Inr t \<and> 2 \<le> length t \<and> (hd t = CHR ''['' \<longrightarrow> last t = CHR '']'')"
proof -
  obtain v where v: "after_eq l = Some v" "v \<noteq> []"
    and c: "hd (skip_blanks v) = dquote \<and> ends_with dquote (skip_blanks v)
        \<and> count_free (\<lambda>c. c = dquote) (skip_blanks v) = 2
      \<or> hd (skip_blanks v) = CHR ''['' \<and> ends_with (CHR '']'') (skip_blanks v)
        \<and> count_free (\<lambda>c. c = CHR ''['' \<or> c = CHR '']'') (skip_blanks v) = 2"
    using assms by (elim line_okE) blast
  from c show ?thesis
  proof (elim disjE conjE, goal_cases)
    case 1
    then show ?case using value_right[OF v 1(2,3)] by auto
  next
    case 2
    then show ?case using value_right[OF v 2(2,3)] by auto
  qed
qed

section \<open>Reading a key\<close>

lemma lenient_singularity: "\<forall>l \<in> set ls. line_ok l \<Longrightarrow> singularity_loop False keys ls = Inr ()"
proof (induction ls arbitrary: keys)
  case (Cons l ls)
  have w: "warn_equal False k ks = Inr ()" for k ks by (induction ks) simp_all
  obtain k where "line_get_left l = Inr k" using left_defined Cons.prems by auto
  then show ?case using Cons w by simp
qed simp

lemma config_text_lines:
  "config_lines b \<noteq> [] \<Longrightarrow> k2v_lines (join_lines (config_lines b)) = config_lines b"
  using config_lines_ok by (intro k2v_lines_join) blast+

lemma lenient_lint: "k2v_lint False (Some b) = Inr ()"
proof -
  have "check_singularity False (lines_text (config_lines t)) = Inr ()" for t
    using config_text_lines[of t] config_lines_ok[of _ t]
    by (auto simp: lines_text_def check_singularity_def intro!: lenient_singularity)
  then have "res_bind (k2v_auto_tidy False (remove_comment b)) (check_singularity False) = Inr ()"
    by (cases "remove_comment b") (simp_all add: lenient_auto_tidy, simp add: k2v_auto_tidy_def check_singularity_def)
  then show ?thesis by (simp add: k2v_lint_def lenient_lint_loop Let_def split: option.splits)
qed

text \<open>The line of a key is the first one that passes the checks.\<close>

definition key_line :: "string \<Rightarrow> string \<Rightarrow> string option" where
  "key_line k b = find (\<lambda>l. line_get_left l = Inr k) (config_lines b)"

lemma line_search_find:
  "\<forall>l \<in> set ls. line_ok l \<Longrightarrow> line_search k ls = Inr (find (\<lambda>l. line_get_left l = Inr k) ls)"
proof (induction ls)
  case (Cons l ls)
  then obtain left where "line_get_left l = Inr left" using left_defined by auto
  then show ?case using Cons by auto
qed simp

lemma key_get_line_find: "key_get_line k (lines_text (config_lines b)) = Inr (key_line k b)"
  using config_text_lines[of b] config_lines_ok[of _ b]
  by (auto simp: key_get_line_def lines_text_def key_line_def intro!: line_search_find)

lemma lenient_read:
  "k2v_read False (Some k) (Some b) dflt use =
     (if k = [] \<or> b = [] then Inr dflt else case key_line k b of None \<Rightarrow> Inr dflt | Some l \<Rightarrow> use l)"
  by (simp add: k2v_read_def lenient_lint lenient_auto_tidy key_get_line_find)

lemma key_line_ok: "key_line k b = Some l \<Longrightarrow> line_ok l"
  using config_lines_ok[of l b] by (auto simp: key_line_def find_Some_iff)

text \<open>A getter returns when what it does with a checked line returns.\<close>

lemma lenient_read_returns:
  assumes "\<And>l. line_ok l \<Longrightarrow> \<not> isl (use l)"
  shows "\<not> isl (k2v_read False key buf dflt use)"
proof (cases key; cases buf)
  fix k b
  assume "key = Some k" "buf = Some b"
  then show ?thesis using assms[OF key_line_ok, of k b] by (simp add: lenient_read split: option.splits)
qed (simp_all add: k2v_read_def)

lemma scalar_returns:
  assumes "line_ok l"
  shows "\<not> isl (res_bind (scalar_text l) (\<lambda>p. Inr (f p)))"
proof -
  obtain t where t: "line_get_right l = Inr t" "2 \<le> length t" using right_defined[OF assms] by blast
  then have "tl t \<noteq> []" by (cases t) auto
  then show ?thesis using t by (simp add: scalar_text_def strip_quotes_def)
qed

lemma str_array_returns: "(\<And>p. s = Some p \<Longrightarrow> p = [] \<or> last p = CHR '']'') \<Longrightarrow> \<not> isl (str_array_loop s)"
proof (induction s rule: str_array_loop.induct)
  case (2 p)
  have v: "\<not> isl (current_val p)"
  proof (cases "strchr dquote p")
    case (Some r)
    obtain pre x where "p = pre @ dquote # x" "r = dquote # x" using strchr_Some_suffix[OF Some] by blast
    then show ?thesis using 2(2)[of p] Some by (cases x) (auto simp: current_val_def Let_def)
  qed (simp add: current_val_def)
  have s: "q = [] \<or> last q = CHR '']''" if n: "goto_next_val p = Some q" for q
    using goto_next_val_suffix[OF n] 2(2)[of p] by (cases p; cases "q = []") (auto simp: suffix_def)
  show ?case
  proof (cases "current_val p")
    case (Inr val)
    show ?thesis
    proof (cases val)
      case (Some x)
      have "\<not> isl (str_array_loop (goto_next_val p))" using 2(1) s by blast
      then show ?thesis using Inr Some by (cases "str_array_loop (goto_next_val p)") simp_all
    qed (simp add: Inr)
  qed (use v in simp)
qed simp

lemma array_returns:
  assumes "line_ok l"
  shows "\<not> isl (res_bind (line_get_right l) (\<lambda>t. res_bind (array_to_str_array t) (\<lambda>strs. Inr (f strs))))"
proof -
  obtain t where t: "line_get_right l = Inr t" "2 \<le> length t" "hd t = CHR ''['' \<longrightarrow> last t = CHR '']''"
    using right_defined[OF assms] by blast
  have "\<not> isl (array_to_str_array t)"
    using t(2,3) str_array_returns[of "Some (tl t)"]
    by (cases t) (auto simp: array_to_str_array_def ch_at_def simp del: str_array_loop.simps split: if_splits)
  then show ?thesis using t(1) by (cases "array_to_str_array t") simp_all
qed

text \<open>C10: Whatever the file holds, whatever read(2) returns of it, and whatever key is asked for, no check and no getter of the
  old parser leaves the strings it reads or looks at memory that was not written: each returns
  a value.\<close>

theorem k2v_getters_return:
  "\<not> isl (k2v_open_file False content len bufsize) \<and> \<not> isl (have_key False key buf)
   \<and> \<not> isl (key_get_char False key buf) \<and> \<not> isl (key_get_int False key buf)
   \<and> \<not> isl (key_get_long False key buf) \<and> \<not> isl (key_get_float strtof False key buf)
   \<and> \<not> isl (key_get_bool False key buf) \<and> \<not> isl (key_get_int_array False key buf limit)
   \<and> \<not> isl (key_get_char_array False key buf limit)
   \<and> \<not> isl (key_get_float_array strtof False key buf limit)"
proof -
  have o: "\<not> isl (k2v_open_file False content len bufsize)"
    by (cases content) (simp_all add: k2v_open_file_def k2v_get_filesize_def lenient_lint Let_def)
  have a: "\<not> isl (key_get_array f False key buf limit)" for f :: "string \<Rightarrow> 'z"
    unfolding key_get_array_def by (simp add: lenient_read_returns array_returns)
  show ?thesis
    unfolding have_key_def key_get_char_def key_get_int_def key_get_long_def key_get_float_def
      key_get_bool_def key_get_int_array_def key_get_char_array_def key_get_float_array_def
    by (intro conjI o a lenient_read_returns scalar_returns) simp_all
qed

end
