(* ===== verification/K2V_Generated.thy ===== *)
theory K2V_Generated
  imports K2V_Props
begin

text \<open>
  The old parser on the text the generators of k2v3.c write (and those of k2v.c, which
  write the same): which lines it keeps, that they pass its checks, and what its getters
  return.  Values are the plain ones of Container; array elements must not hold an opening
  bracket either, since the old checks count brackets inside quotes.
\<close>

section \<open>The scans on keys and plain values\<close>

lemma valid_key_chars:
  assumes "valid_key k" "c \<in> set k"
  shows "c \<noteq> CHR ''='' \<and> c \<noteq> newline \<and> c \<noteq> blank \<and> c \<noteq> CHR ''#'' \<and> c \<noteq> dquote \<and> c \<noteq> backslash"
  using assms by (auto simp: valid_key_def key_char_def Let_def)

definition key_like :: "string \<Rightarrow> bool" where
  "key_like k = (\<forall>c \<in> set k. c \<noteq> CHR ''='' \<and> c \<noteq> dquote \<and> c \<noteq> backslash)"

lemma valid_key_like: "valid_key k \<Longrightarrow> key_like k"
  using valid_key_chars by (auto simp: key_like_def)

lemma key_scans:
  assumes "key_like k"
  shows "left_scan (k @ CHR ''='' # t) = k" "after_eq (k @ CHR ''='' # t) = Some t"
    "\<not> quote_in_key (k @ CHR ''='' # t)"
  using assms
proof (induction k)
  case Nil
  { case 1 show ?case by (cases t) auto
  next case 2 show ?case by (cases t) auto
  next case 3 show ?case by (cases t) auto }
next
  case (Cons c k)
  obtain d ds where d: "k @ CHR ''='' # t = d # ds" by (cases k) auto
  have c: "c \<noteq> CHR ''=''" "c \<noteq> dquote" "c \<noteq> backslash" "key_like k"
    if "key_like (c # k)" using that by (auto simp: key_like_def)
  { case 1 then show ?case using Cons.IH(1) c d by simp
  next case 2 then show ?case using Cons.IH(2) c d by simp
  next case 3 then show ?case using Cons.IH(3) c d by simp }
qed

lemma count_free_filter: "backslash \<notin> set s \<Longrightarrow> count_free P s = length (filter P s)"
  by (induction P s rule: count_free.induct) auto

lemma comma_count_step:
  "c \<noteq> backslash \<Longrightarrow> comma_count q (c # cs) =
     (let q' = (if c = dquote then \<not> q else q) in (if c = CHR '','' \<and> \<not> q' then 1 else 0) + comma_count q' cs)"
  by (cases cs) (auto simp: Let_def)

lemma next_scan_step:
  "c \<noteq> backslash \<Longrightarrow> next_scan n ret (c # cs) =
     (let m = (if c = dquote then n + 1 else n) in
      if m = 2 then (case strchr (CHR '','') (c # cs) of None \<Rightarrow> None | Some r \<Rightarrow> next_scan m (Some (tl r)) cs)
      else next_scan m ret cs)"
  by (cases cs) (auto simp: Let_def split: option.splits)

lemma next_scan_done: "3 \<le> n \<Longrightarrow> next_scan n ret s = ret"
  by (induction n ret s rule: next_scan.induct) (auto simp: Let_def)

definition old_elem :: "string \<Rightarrow> bool" where
  "old_elem v = (v \<noteq> [] \<and> plain_text v \<and> CHR ''['' \<notin> set v)"

lemma old_elem_chars:
  assumes "old_elem v" "c \<in> set v"
  shows "c \<noteq> dquote \<and> c \<noteq> backslash \<and> c \<noteq> newline \<and> c \<noteq> CHR ''['' \<and> c \<noteq> CHR '']''"
  using assms by (auto simp: old_elem_def plain_text_def)

lemma scans_in_quotes:
  assumes "\<forall>c \<in> set v. c \<noteq> dquote \<and> c \<noteq> backslash"
  shows "comma_count True (v @ t) = comma_count True t"
    "no_empty_value i prev True (v @ t) = no_empty_value (i + length v) prev True t"
    "next_scan (Suc 0) ret (v @ t) = next_scan (Suc 0) ret t"
    "val_scan acc [] (v @ dquote # t) = acc @ v"
  using assms
proof (induction v arbitrary: i acc)
  case (Cons c v)
  { case 1 then show ?case using Cons.IH(1) by (simp add: comma_count_step)
  next case 2 then show ?case using Cons.IH(2)[of "Suc i"] by simp
  next case 3 then show ?case using Cons.IH(3) by (simp add: next_scan_step)
  next case 4 then show ?case using Cons.IH(4)[of "acc @ [c]"] by simp }
qed simp_all

section \<open>The elements of an array\<close>

lemma old_elems_filter:
  assumes "\<forall>v \<in> set vs. old_elem v"
  shows "backslash \<notin> set (quoted_elems vs)" "newline \<notin> set (quoted_elems vs)"
    "filter (\<lambda>c. c = CHR ''['' \<or> c = CHR '']'') (quoted_elems vs) = []"
    "length (filter (\<lambda>c. c = dquote) (quoted_elems vs)) = 2 * length vs"
proof -
  have f: "filter (\<lambda>c. c = dquote) v = []" if "old_elem v" for v
    using old_elem_chars[OF that] by (auto simp: filter_empty_conv)
  show "length (filter (\<lambda>c. c = dquote) (quoted_elems vs)) = 2 * length vs"
    using assms by (induction vs rule: quoted_elems.induct) (simp_all add: f)
qed (use assms quoted_elems_chars[of _ vs] old_elem_chars in \<open>fastforce simp: filter_empty_conv\<close>)+

lemma elems_commas:
  "\<forall>v \<in> set vs. old_elem v \<Longrightarrow> comma_count False (quoted_elems vs @ [CHR '']'']) = length vs - 1"
proof (induction vs rule: quoted_elems.induct)
  case (2 v)
  have "\<forall>c \<in> set v. c \<noteq> dquote \<and> c \<noteq> backslash" using 2 old_elem_chars by auto
  then show ?case by (simp add: comma_count_step scans_in_quotes)
next
  case (3 v w vs)
  have "\<forall>c \<in> set v. c \<noteq> dquote \<and> c \<noteq> backslash" using 3 old_elem_chars by auto
  then show ?case using 3 by (simp add: comma_count_step scans_in_quotes del: quoted_elems.simps(3))
      (simp add: comma_count_step scans_in_quotes)
qed simp

lemma elems_not_empty:
  "\<forall>v \<in> set vs. old_elem v \<Longrightarrow> vs \<noteq> [] \<Longrightarrow> no_empty_value i prev False (quoted_elems vs @ [CHR '']''])"
proof (induction vs arbitrary: i prev rule: quoted_elems.induct)
  case (2 v)
  have "\<forall>c \<in> set v. c \<noteq> dquote \<and> c \<noteq> backslash" "v \<noteq> []" using 2 old_elem_chars by (auto simp: old_elem_def)
  then show ?case by (simp add: scans_in_quotes)
next
  case (3 v w vs)
  have "\<forall>c \<in> set v. c \<noteq> dquote \<and> c \<noteq> backslash" "v \<noteq> []" using 3 old_elem_chars by (auto simp: old_elem_def)
  moreover have "\<forall>u \<in> set (w # vs). old_elem u" using 3(2) by simp
  ultimately show ?case using 3(1)[of "Suc (Suc (Suc (i + length v)))" i]
    by (simp add: scans_in_quotes del: quoted_elems.simps(3)) (simp add: scans_in_quotes)
qed simp

lemma elems_read:
  "\<forall>v \<in> set vs. old_elem v \<Longrightarrow> vs \<noteq> [] \<Longrightarrow> str_array_loop (Some (quoted_elems vs @ [CHR '']''])) = Inr vs"
proof (induction vs rule: quoted_elems.induct)
  case (2 v)
  have v: "\<forall>c \<in> set v. c \<noteq> dquote \<and> c \<noteq> backslash" "v \<noteq> []" "hd v \<noteq> CHR '']''"
    using 2 old_elem_chars[of v "hd v"] old_elem_chars by (auto simp: old_elem_def)
  have "current_val (quoted_elems [v] @ [CHR '']'']) = Inr (Some v)"
    using v by (simp add: current_val_def strchr_head scans_in_quotes(4))
  moreover have "at_bracket (quoted_elems [v] @ [CHR '']'']) = False" using v(2) by (cases v) auto
  then have "goto_next_val (quoted_elems [v] @ [CHR '']'']) = None"
    using v(1) by (simp add: goto_next_val_def next_scan_step scans_in_quotes strchr_def)
  ultimately show ?case by simp
next
  case (3 v w vs)
  let ?r = "quoted_elems (w # vs) @ [CHR '']'']"
  let ?p = "dquote # v @ dquote # CHR '','' # ?r"
  have v: "\<forall>c \<in> set v. c \<noteq> dquote \<and> c \<noteq> backslash" "v \<noteq> []" "hd v \<noteq> CHR '']''"
    using 3(2) old_elem_chars[of v "hd v"] old_elem_chars by (auto simp: old_elem_def)
  have c: "current_val ?p = Inr (Some v)"
    using v by (simp add: current_val_def strchr_head scans_in_quotes(4))
  obtain r where r: "?r = dquote # r" using quoted_elems_head[of "w # vs"] by auto
  have "\<not> at_bracket ?p" using v(2) by (cases v) auto
  moreover have "next_scan 0 None ?p = Some ?r"
    using v(1) unfolding r
    by (simp add: next_scan_step scans_in_quotes strchr_def next_scan_done)
  ultimately have "goto_next_val ?p = Some ?r" by (simp add: goto_next_val_def)
  moreover have "str_array_loop (Some ?r) = Inr (w # vs)" using 3 by simp
  ultimately have "str_array_loop (Some ?p) = Inr (v # w # vs)"
    using c by (subst str_array_loop.simps) (simp del: str_array_loop.simps)
  then show ?case by simp
qed simp

section \<open>The lines of generated text\<close>

fun old_item_ok :: "k2v3_item \<Rightarrow> bool" where
  "old_item_ok (Scalar_item k v) = (valid_key k \<and> opt_plain v)"
| "old_item_ok (Array_item k vs) = (valid_key k \<and> (\<forall>v \<in> set vs. old_elem v))"
| "old_item_ok (Comment_item s) = (newline \<notin> set s)"
| "old_item_ok Newline_item = True"

fun item_lines :: "k2v3_item \<Rightarrow> string list" where
  "item_lines (Scalar_item k v) = [k @ CHR ''='' # dquote # text_of v @ [dquote]]"
| "item_lines (Array_item k vs) = [k @ CHR ''='' # CHR ''['' # quoted_elems vs @ [CHR '']'']]"
| "item_lines (Comment_item s) = []"
| "item_lines Newline_item = []"

lemma plain_value: "opt_plain v \<Longrightarrow> plain_text (text_of v)"
  by (cases v) (simp_all add: opt_plain_def text_of_def plain_text_def)

lemma key_comment: "valid_key k \<Longrightarrow> \<not> is_coment_line (k @ t)"
proof -
  assume k: "valid_key k"
  then obtain c cs where "k = c # cs" by (auto simp: valid_key_def neq_Nil_conv)
  then show ?thesis using valid_key_chars[OF k, of c] by (simp add: is_coment_line_def)
qed

lemma kept_item:
  assumes "old_item_ok it"
  shows "kept_lines (item_text it @ t) = item_lines it @ kept_lines t"
proof (cases it)
  case (Scalar_item k v)
  have "newline \<notin> set (k @ CHR ''='' # dquote # text_of v @ [dquote])"
    using assms Scalar_item valid_key_chars[of k newline] plain_value[of v] by (auto simp: plain_text_def)
  from kept_lines_append[OF this, of t] show ?thesis
    using Scalar_item assms key_comment[of k] by (simp add: char_to_k2v3_def)
next
  case (Array_item k vs)
  have "newline \<notin> set (k @ CHR ''='' # CHR ''['' # quoted_elems vs @ [CHR '']''])"
    using assms Array_item valid_key_chars[of k newline] old_elems_filter(2)[of vs] by auto
  from kept_lines_append[OF this, of t] show ?thesis
    using Array_item assms key_comment[of k]
    by (cases "vs = []") (simp_all add: char_array_to_k2v3_def array_to_k2v3_def)
next
  case (Comment_item s)
  have "newline \<notin> set (CHR ''#'' # blank # s)" using assms Comment_item by simp
  from kept_lines_append[OF this, of t] show ?thesis
    using Comment_item by (simp add: k2v3_add_comment_def text_of_def is_coment_line_def)
next
  case Newline_item
  then show ?thesis using kept_lines_append[of "[]" t]
    by (simp add: k2v3_add_newline_def text_of_def is_coment_line_def)
qed

lemma kept_items:
  "\<forall>it \<in> set items. old_item_ok it \<Longrightarrow> kept_lines (config_text items) = concat (map item_lines items)"
proof (induction items)
  case Nil
  then show ?case by simp
qed (simp add: kept_item)

text \<open>Key, value and checks of such a line.\<close>

lemma skip_key: "valid_key k \<Longrightarrow> skip_blanks (k @ t) = k @ t"
proof -
  assume k: "valid_key k"
  then obtain c cs where "k = c # cs" by (auto simp: valid_key_def neq_Nil_conv)
  then show ?thesis using valid_key_chars[OF k, of c] by simp
qed

lemma trim_end_closed: "c \<noteq> blank \<Longrightarrow> p \<noteq> [] \<Longrightarrow> trim_end (p @ [c]) = Inr (p @ [c])"
  by (cases p) auto

lemma trim_key:
  assumes "valid_key k"
  shows "trim_end k = Inr k"
proof (cases k rule: rev_exhaust)
  case Nil
  then show ?thesis using assms by (simp add: valid_key_def)
next
  case (snoc p c)
  then show ?thesis using valid_key_chars[OF assms, of c] trim_end_closed[of c p] by (cases "p = []") auto
qed

lemma plain_backslash: "backslash \<notin> set s \<Longrightarrow> k2v_correct_backslash s = s"
  by (induction s rule: k2v_correct_backslash.induct) auto

lemma key_value_line:
  assumes "valid_key k" "p \<noteq> []" "hd p \<noteq> blank" "last p \<noteq> blank" "2 \<le> length p" "backslash \<notin> set p"
  shows "line_get_left (k @ CHR ''='' # p) = Inr k" "line_get_right (k @ CHR ''='' # p) = Inr p"
    "basic_lint False (k @ CHR ''='' # p) = Inr (hd p = dquote \<and> ends_with dquote p
       \<or> hd p = CHR ''['' \<and> ends_with (CHR '']'') p)"
    "goto_value (k @ CHR ''='' # p) = p" "skip_blanks p = p"
proof -
  let ?l = "k @ CHR ''='' # p"
  have k: "k \<noteq> []" "hd ?l \<noteq> CHR ''=''" "skip_blanks ?l = ?l"
    using assms(1) skip_key valid_key_chars[of k "hd k"] by (auto simp: valid_key_def)
  obtain c cs where p: "p = c # cs" using assms(2) by (cases p) auto
  show s: "skip_blanks p = p" using p assms(3) by simp
  note scans = key_scans[OF valid_key_like[OF assms(1)], of p]
  show "line_get_left ?l = Inr k" using k scans(1) trim_key[OF assms(1)] by (simp add: line_get_left_def)
  show g: "goto_value ?l = p" using scans(2) by (simp add: goto_value_def)
  have "trim_end p = Inr p"
  proof -
    have "p = butlast p @ [last p]" "butlast p \<noteq> []" using assms(2,5) by (auto simp flip: length_greater_0_conv)
    then show ?thesis using trim_end_closed[of "last p" "butlast p"] assms(4) by metis
  qed
  then show "line_get_right ?l = Inr p"
    using k g s plain_backslash[OF assms(6)] by (simp add: line_get_right_def)
  show "basic_lint False ?l = Inr (hd p = dquote \<and> ends_with dquote p
       \<or> hd p = CHR ''['' \<and> ends_with (CHR '']'') p)"
    using k scans s assms(2) by (auto simp: basic_lint_def Let_def)
qed

lemma ends_with_last: "c \<noteq> blank \<Longrightarrow> ends_with c (a # s @ [c])"
  by (simp add: ends_with_def)

lemma scalar_line:
  assumes "valid_key k" "plain_text v"
  shows "line_ok (k @ CHR ''='' # dquote # v @ [dquote])"
    "line_get_left (k @ CHR ''='' # dquote # v @ [dquote]) = Inr k"
    "scalar_text (k @ CHR ''='' # dquote # v @ [dquote]) = Inr v"
proof -
  let ?p = "dquote # v @ [dquote]"
  have b: "backslash \<notin> set ?p" using assms(2) by (auto simp: plain_text_def)
  note kv = key_value_line[OF assms(1) _ _ _ _ b]
  have n: "filter (\<lambda>c. c = dquote) v = []" using assms(2) by (auto simp: plain_text_def filter_empty_conv)
  have "count_free (\<lambda>c. c = dquote) ?p = 2" using count_free_filter[OF b] n by simp
  moreover have "\<not> k2v_is_array (k @ CHR ''='' # ?p)" using kv(4) by (simp add: k2v_is_array_def)
  ultimately show "line_ok (k @ CHR ''='' # ?p)"
    using kv(3-5) ends_with_last[of dquote dquote v] by (simp add: line_ok_def line_lint_def scalar_lint_def)
  show "line_get_left (k @ CHR ''='' # ?p) = Inr k" using kv(1) by simp
  show "scalar_text (k @ CHR ''='' # ?p) = Inr v" using kv(2) by (simp add: scalar_text_def strip_quotes_def)
qed

lemma array_text_line:
  assumes "valid_key k" "\<forall>v \<in> set vs. old_elem v"
  shows "line_ok (k @ CHR ''='' # CHR ''['' # quoted_elems vs @ [CHR '']''])"
    "line_get_left (k @ CHR ''='' # CHR ''['' # quoted_elems vs @ [CHR '']'']) = Inr k"
    "res_bind (line_get_right (k @ CHR ''='' # CHR ''['' # quoted_elems vs @ [CHR '']''])) array_to_str_array = Inr vs"
proof -
  let ?p = "CHR ''['' # quoted_elems vs @ [CHR '']'']"
  note f = old_elems_filter[OF assms(2)]
  have b: "backslash \<notin> set ?p" using f(1) by simp
  note kv = key_value_line[OF assms(1) _ _ _ _ b]
  have "count_free (\<lambda>c. c = CHR ''['' \<or> c = CHR '']'') ?p = 2" using count_free_filter[OF b] f(3) by simp
  moreover have q: "count_free (\<lambda>c. c = dquote) ?p = 2 * length vs" using count_free_filter[OF b] f(4) by simp
  moreover have "comma_count False ?p = length vs - 1" using elems_commas[OF assms(2)] by (simp add: comma_count_step)
  moreover have "vs \<noteq> [] \<Longrightarrow> no_empty_value 0 0 False ?p" using elems_not_empty[OF assms(2)] by simp
  ultimately have "array_lint False (k @ CHR ''='' # ?p) = Inr True"
    using kv(4,5) by (cases "vs = []") (simp_all add: array_lint_def Let_def)
  moreover have "k2v_is_array (k @ CHR ''='' # ?p)" using kv(4) by (simp add: k2v_is_array_def)
  ultimately show "line_ok (k @ CHR ''='' # ?p)"
    using kv(3) ends_with_last[of "CHR '']''" "CHR ''[''" "quoted_elems vs"] by (simp add: line_ok_def line_lint_def)
  show "line_get_left (k @ CHR ''='' # ?p) = Inr k" using kv(1) by simp
  have "quoted_elems vs @ [CHR '']''] \<noteq> [dquote, dquote, CHR '']'']"
    using assms(2) by (cases vs rule: quoted_elems.cases) (auto simp: old_elem_def)
  then have "array_to_str_array ?p = Inr vs"
    using elems_read[OF assms(2)] by (cases "vs = []") (auto simp: array_to_str_array_def ch_at_def simp del: str_array_loop.simps)
  then show "res_bind (line_get_right (k @ CHR ''='' # ?p)) array_to_str_array = Inr vs" using kv(2) by simp
qed

section \<open>What the old getters find in generated text\<close>

definition new_text :: "string \<Rightarrow> config_item list \<Rightarrow> string" where
  "new_text pre its = pre @ config_text (map item_of its)"

text \<open>A preamble of comments and empty lines.\<close>

definition only_comments :: "string \<Rightarrow> bool" where
  "only_comments pre = (\<forall>t. kept_lines (pre @ t) = kept_lines t)"

definition old_ok :: "config_item \<Rightarrow> bool" where
  "old_ok it = old_item_ok (item_of it)"

lemma item_lines_ok:
  assumes "old_item_ok it"
  shows "\<forall>l \<in> set (item_lines it). line_ok l \<and> (\<exists>k \<in> set (item_keys it). line_get_left l = Inr k)"
proof (cases it)
  case (Scalar_item k v)
  then show ?thesis using assms scalar_line(1,2)[of k "text_of v"] plain_value[of v] by simp
next
  case (Array_item k vs)
  then show ?thesis using assms array_text_line(1,2)[of k vs] by simp
qed simp_all

lemma generated_lines:
  assumes "only_comments pre" "\<forall>it \<in> set its. old_ok it"
  shows "config_lines (new_text pre its) = concat (map (item_lines \<circ> item_of) its)"
proof -
  have "kept_lines (new_text pre its) = concat (map (item_lines \<circ> item_of) its)"
    using assms kept_items[of "map item_of its"] by (simp add: only_comments_def new_text_def old_ok_def)
  moreover have "\<forall>l \<in> set (concat (map (item_lines \<circ> item_of) its)). line_ok l"
    using assms(2) item_lines_ok by (fastforce simp: old_ok_def)
  ultimately show ?thesis by (simp add: config_lines_def filter_id_conv)
qed

lemma find_append: "find P (xs @ ys) = (case find P xs of None \<Rightarrow> find P ys | Some x \<Rightarrow> Some x)"
  by (induction xs) auto

lemma find_generated:
  assumes "distinct (keys_of its)" "\<forall>it \<in> set its. old_ok it" "it \<in> set its"
    "l \<in> set (item_lines (item_of it))" "line_get_left l = Inr k"
  shows "find (\<lambda>l. line_get_left l = Inr k) (concat (map (item_lines \<circ> item_of) its)) = Some l"
  using assms
proof (induction its)
  case (Cons i its)
  have one: "item_lines (item_of j) = [l']" if "l' \<in> set (item_lines (item_of j))" for j l'
    using that by (cases "item_of j") auto
  have ks: "k' \<in> set (item_keys (item_of j))" if "old_ok j" "l' \<in> set (item_lines (item_of j))" "line_get_left l' = Inr k'" for j l' k'
    using item_lines_ok[of "item_of j"] that by (auto simp: old_ok_def)
  show ?case
  proof (cases "it = i")
    case True
    then show ?thesis using one[OF Cons.prems(4)] Cons.prems(5) by simp
  next
    case False
    then have "it \<in> set its" "k \<notin> set (item_keys (item_of i))"
      using Cons.prems ks[of it l k] by (auto simp: keys_of_def)
    moreover have "find (\<lambda>l. line_get_left l = Inr k) (item_lines (item_of i)) = None"
      using ks[of i _ k] Cons.prems(2) \<open>k \<notin> set (item_keys (item_of i))\<close> by (auto simp: find_None_iff)
    ultimately show ?thesis using Cons.IH Cons.prems by (simp add: keys_of_def find_append)
  qed
qed simp

lemma generated_key_line:
  assumes "only_comments pre" "distinct (keys_of its)" "\<forall>it \<in> set its. old_ok it" "it \<in> set its"
  shows "item_of it = Scalar_item k v \<Longrightarrow>
      key_line k (new_text pre its) = Some (k @ CHR ''='' # dquote # text_of v @ [dquote])"
    and "item_of it = Array_item k vs \<Longrightarrow>
      key_line k (new_text pre its) = Some (k @ CHR ''='' # CHR ''['' # quoted_elems vs @ [CHR '']''])"
proof -
  note f = find_generated[OF assms(2-4)] and ok = assms(3)[rule_format, OF assms(4), unfolded old_ok_def]
  show "item_of it = Scalar_item k v \<Longrightarrow>
      key_line k (new_text pre its) = Some (k @ CHR ''='' # dquote # text_of v @ [dquote])"
    unfolding key_line_def generated_lines[OF assms(1,3)]
    using f scalar_line(2)[of k "text_of v"] ok plain_value[of v] by simp
  show "item_of it = Array_item k vs \<Longrightarrow>
      key_line k (new_text pre its) = Some (k @ CHR ''='' # CHR ''['' # quoted_elems vs @ [CHR '']''])"
    unfolding key_line_def generated_lines[OF assms(1,3)]
    using f array_text_line(2)[of k vs] ok by simp
qed

definition generated :: "string \<Rightarrow> config_item list \<Rightarrow> bool" where
  "generated pre its = (only_comments pre \<and> distinct (keys_of its) \<and> (\<forall>it \<in> set its. old_ok it))"

lemma read_line:
  "k \<noteq> [] \<Longrightarrow> key_line k b = Some l \<Longrightarrow> k2v_read False (Some k) (Some b) dflt use = use l"
  by (cases "b = []") (simp_all add: lenient_read key_line_def config_lines_def)

lemma item_key_of_line:
  "old_ok it \<Longrightarrow> k \<in> set (item_keys (item_of it)) \<Longrightarrow> \<exists>l \<in> set (item_lines (item_of it)). line_get_left l = Inr k"
  using item_lines_ok[of "item_of it"] by (cases "item_of it") (auto simp: old_ok_def)

lemma old_have_key:
  assumes "generated pre its" "k \<noteq> []"
  shows "have_key False (Some k) (Some (new_text pre its)) = Inr (k \<in> set (keys_of its))"
proof -
  have g: "only_comments pre" "\<forall>it \<in> set its. old_ok it" using assms(1) by (auto simp: generated_def)
  have it: "(\<exists>l \<in> set (item_lines (item_of it)). line_get_left l = Inr k) \<longleftrightarrow> k \<in> set (item_keys (item_of it))"
    if "it \<in> set its" for it
    using that g(2) item_key_of_line[of it k] item_lines_ok[of "item_of it"] by (auto simp: old_ok_def)
  have "(\<exists>l \<in> set (config_lines (new_text pre its)). line_get_left l = Inr k) \<longleftrightarrow> k \<in> set (keys_of its)"
    unfolding generated_lines[OF g] keys_of_def by (simp add: it)
  then have "key_line k (new_text pre its) \<noteq> None \<longleftrightarrow> k \<in> set (keys_of its)"
    by (auto simp: key_line_def find_None_iff)
  then show ?thesis
    using read_line[OF assms(2), of "new_text pre its" _ False "\<lambda>_. Inr True"] assms(2)
    by (cases "key_line k (new_text pre its)") (auto simp: have_key_def lenient_read)
qed

lemma old_scalar:
  assumes "generated pre its" "it \<in> set its" "item_of it = Scalar_item k v"
  shows "k2v_read False (Some k) (Some (new_text pre its)) dflt
      (\<lambda>line. res_bind (scalar_text line) (\<lambda>p. Inr (f p))) = Inr (f (text_of v))"
proof -
  have g: "only_comments pre" "distinct (keys_of its)" "\<forall>it \<in> set its. old_ok it"
    using assms(1) by (auto simp: generated_def)
  then have ok: "valid_key k" "opt_plain v" using assms(2,3) by (auto simp: old_ok_def)
  have "k \<noteq> []" using ok(1) by (simp add: valid_key_def)
  then show ?thesis
    using read_line[OF _ generated_key_line(1)[OF g assms(2,3)], where dflt = dflt and
        use = "\<lambda>line. res_bind (scalar_text line) (\<lambda>p. Inr (f p))"]
      scalar_line(3)[OF ok(1) plain_value[OF ok(2)]] by simp
qed

lemma old_get_char:
  "generated pre its \<Longrightarrow> Plain (Scalar_item k v) \<in> set its \<Longrightarrow>
   key_get_char False (Some k) (Some (new_text pre its)) = Inr v"
proof -
  assume g: "generated pre its" and it: "Plain (Scalar_item k v) \<in> set its"
  then have "opt_plain v" by (auto simp: generated_def old_ok_def)
  then have "(if text_of v = [] then None else Some (text_of v)) = v"
    by (cases v) (simp_all add: text_of_def opt_plain_def)
  then show ?thesis using old_scalar[OF g it, of k v None "\<lambda>p. if p = [] then None else Some p"]
    by (simp add: key_get_char_def)
qed

lemma old_get_bool:
  "generated pre its \<Longrightarrow> Bool_item k b \<in> set its \<Longrightarrow>
   key_get_bool False (Some k) (Some (new_text pre its)) = Inr b"
  using old_scalar[of pre its "Bool_item k b" k "Some (show_bool b)" False "\<lambda>p. p = ''true''"]
  by (simp add: key_get_bool_def text_of_def) (simp add: show_bool_def)

lemma old_get_int:
  "generated pre its \<Longrightarrow> Int_item k i \<in> set its \<Longrightarrow> int_range i \<Longrightarrow>
   key_get_int False (Some k) (Some (new_text pre its)) = Inr i"
  using old_scalar[of pre its "Int_item k i" k "Some (show_int i)" 0 atoi]
  by (simp add: key_get_int_def text_of_def int_range_def atoi_show_int)

lemma old_get_long:
  "generated pre its \<Longrightarrow> Long_item k i \<in> set its \<Longrightarrow> - (2 ^ 63) \<le> i \<Longrightarrow> i < 2 ^ 63 \<Longrightarrow>
   key_get_long False (Some k) (Some (new_text pre its)) = Inr i"
  using old_scalar[of pre its "Long_item k i" k "Some (show_int i)" 0 strtol]
  by (simp add: key_get_long_def text_of_def strtol_show_int)

lemma old_get_char_array:
  assumes "generated pre its" "Plain (Array_item k vs) \<in> set its" "length vs \<le> limit"
  shows "key_get_char_array False (Some k) (Some (new_text pre its)) limit = Inr vs"
proof -
  have g: "only_comments pre" "distinct (keys_of its)" "\<forall>it \<in> set its. old_ok it"
    using assms(1) by (auto simp: generated_def)
  then have ok: "valid_key k" "\<forall>v \<in> set vs. old_elem v" using assms(2) by (auto simp: old_ok_def)
  have "k \<noteq> []" using ok(1) by (simp add: valid_key_def)
  moreover obtain t where "line_get_right (k @ CHR ''='' # CHR ''['' # quoted_elems vs @ [CHR '']'']) = Inr t"
      "array_to_str_array t = Inr vs"
    using array_text_line(3)[OF ok] by (auto simp: res_bind_eq_Inr)
  ultimately show ?thesis
    using read_line[OF _ generated_key_line(2)[OF g assms(2)], where dflt = "[]" and
        use = "\<lambda>line. res_bind (line_get_right line)
          (\<lambda>tmp. res_bind (array_to_str_array tmp) (\<lambda>strs. Inr (map (\<lambda>s. s) (take limit strs))))"] assms(3)
    by (cases "limit = 0") (simp_all add: key_get_char_array_def key_get_array_def)
qed

section \<open>What the old parser does not read\<close>

text \<open>A blank after a comma passes the checks and loses the values that follow; a blank after
  the opening bracket makes the check of empty values reject the line; a character protected
  by a backslash is overwritten by the next one; a key of one character keeps its blanks.\<close>

lemma blank_after_comma_loses_values:
  assumes "old_elem v" "CHR '','' \<notin> set rest"
  shows "str_array_loop (Some (dquote # v @ dquote # CHR '','' # blank # rest)) = Inr [v]"
proof -
  let ?p = "dquote # v @ dquote # CHR '','' # blank # rest"
  have v: "\<forall>c \<in> set v. c \<noteq> dquote \<and> c \<noteq> backslash" "v \<noteq> []" "hd v \<noteq> CHR '']''"
    using assms(1) old_elem_chars[of v "hd v"] old_elem_chars by (auto simp: old_elem_def)
  have "current_val ?p = Inr (Some v)"
    using v by (simp add: current_val_def strchr_head scans_in_quotes(4))
  moreover have "\<not> at_bracket ?p" using v(2) by (cases v) auto
  then have "goto_next_val ?p = None"
    using v(1) assms(2) strchr_ix_None_iff[of "CHR '',''" rest]
    by (simp add: goto_next_val_def next_scan_step scans_in_quotes strchr_def)
  ultimately show ?thesis by simp
qed

lemma blank_after_bracket_rejected: "\<not> no_empty_value 0 0 False (CHR ''['' # blank # rest)"
  by simp

lemma escaped_character_overwritten:
  "c \<noteq> dquote \<Longrightarrow> c \<noteq> backslash \<Longrightarrow>
   val_scan acc [] (backslash # d # c # rest) = val_scan (acc @ [backslash, c]) [] rest"
  by simp

lemma short_key_keeps_blank:
  "c \<notin> {blank, CHR ''='', backslash} \<Longrightarrow> line_get_left (c # blank # CHR ''='' # rest) = Inr [c, blank]"
  "c \<notin> {blank, CHR ''='', backslash} \<Longrightarrow> d \<notin> {blank, CHR ''='', backslash} \<Longrightarrow>
   line_get_left (c # d # blank # CHR ''='' # rest) = Inr [c, d]"
  by (cases rest; simp add: line_get_left_def)+

end
