(* ===== verification/Correct_Config.thy ===== *)
theory Correct_Config
  imports Args_Props K2V_Generated
begin

text \<open>
  ruri_correct_config (config.c): a configuration file of an older version is read with
  the old parser, leniently, key by key; a missing key gets its default; then the file is
  replaced by what ruri_container_info_to_k2v writes for the container read.

  What the function asks of libcap, the kernel and the clock is the \<open>args_env\<close> of the
  command line that calls it; the operations on the file are a list in their order.
\<close>

section \<open>Reading with defaults\<close>

type_synonym correct_step = "ruri_container \<Rightarrow> ruri_container result"

text \<open>if (!have_key(key, buf)) ... else ...\<close>

definition with_key :: "string \<Rightarrow> string \<Rightarrow> (ruri_container \<Rightarrow> ruri_container) \<Rightarrow> correct_step \<Rightarrow> correct_step" where
  "with_key buf key absent present c =
     res_bind (have_key False (Some key) (Some buf)) (\<lambda>b. if b then present c else Inr (absent c))"

definition correct_bool ::
    "string \<Rightarrow> string \<Rightarrow> bool \<Rightarrow> ((bool \<Rightarrow> bool) \<Rightarrow> ruri_container \<Rightarrow> ruri_container) \<Rightarrow> correct_step" where
  "correct_bool buf key dflt upd = with_key buf key (upd (\<lambda>_. dflt))
     (\<lambda>c. res_bind (key_get_bool False (Some key) (Some buf)) (\<lambda>v. Inr (upd (\<lambda>_. v) c)))"

definition correct_char ::
    "string \<Rightarrow> string \<Rightarrow> ((string option \<Rightarrow> string option) \<Rightarrow> ruri_container \<Rightarrow> ruri_container) \<Rightarrow> correct_step" where
  "correct_char buf key upd = with_key buf key (upd (\<lambda>_. None))
     (\<lambda>c. res_bind (key_get_char False (Some key) (Some buf)) (\<lambda>v. Inr (upd (\<lambda>_. v) c)))"

definition correct_int ::
    "string \<Rightarrow> string \<Rightarrow> int \<Rightarrow> ((int \<Rightarrow> int) \<Rightarrow> ruri_container \<Rightarrow> ruri_container) \<Rightarrow> correct_step" where
  "correct_int buf key dflt upd = with_key buf key (upd (\<lambda>_. dflt))
     (\<lambda>c. res_bind (key_get_int False (Some key) (Some buf)) (\<lambda>v. Inr (upd (\<lambda>_. v) c)))"

definition correct_long ::
    "string \<Rightarrow> string \<Rightarrow> int \<Rightarrow> ((int \<Rightarrow> int) \<Rightarrow> ruri_container \<Rightarrow> ruri_container) \<Rightarrow> correct_step" where
  "correct_long buf key dflt upd = with_key buf key (upd (\<lambda>_. dflt))
     (\<lambda>c. res_bind (key_get_long False (Some key) (Some buf)) (\<lambda>v. Inr (upd (\<lambda>_. v) c)))"

text \<open>Arrays: as in ruri_read_config, but an incomplete pair or triple empties the list.\<close>

definition correct_array ::
    "string \<Rightarrow> string \<Rightarrow> nat \<Rightarrow> nat \<Rightarrow> nat \<Rightarrow> nat
       \<Rightarrow> ((string list \<Rightarrow> string list) \<Rightarrow> ruri_container \<Rightarrow> ruri_container) \<Rightarrow> correct_step" where
  "correct_array buf key limit cells terms grp upd = with_key buf key (upd (\<lambda>_. []))
     (\<lambda>c. res_bind (key_get_char_array False (Some key) (Some buf) limit)
       (\<lambda>vs. if length vs + terms > cells then Inl out_of_bounds
             else Inr (upd (\<lambda>_. if length vs mod grp \<noteq> 0 then [] else vs) c)))"

text \<open>nullcaplist\<close>

definition null_caplist :: caplist where
  "null_caplist = [ruri_init_value, 0]"

definition default_caps :: "cap_kernel \<Rightarrow> caplist \<Rightarrow> caplist option" where
  "default_caps kern list = ruri_build_caplist kern list False null_caplist null_caplist"

text \<open>The loop over the strings of drop_caplist: after an invalid name the whole default list
  is built, and then cut after index i like every other entry.\<close>

fun correct_caps_loop :: "args_env \<Rightarrow> nat \<Rightarrow> string list \<Rightarrow> caplist \<Rightarrow> caplist option" where
  "correct_caps_loop env i [] list = Some list"
| "correct_caps_loop env i (s # ss) list =
     (if atoi s > 0 then arr_set list i (atoi s)
      else case ruri_cap_from_name (libcap_from_name env) s of
          Some cap \<Rightarrow> arr_set list i cap
        | None \<Rightarrow> default_caps (ae_kernel env) list)
     \<bind> (\<lambda>l. arr_set l (i + 1) ruri_init_value)
     \<bind> correct_caps_loop env (i + 1) ss"

definition set_caps :: "caplist option \<Rightarrow> ruri_container \<Rightarrow> ruri_container result" where
  "set_caps l c = (case l of None \<Rightarrow> Inl out_of_bounds | Some caps \<Rightarrow> Inr (c\<lparr>drop_caplist := caps\<rparr>))"

definition correct_caps :: "args_env \<Rightarrow> string \<Rightarrow> correct_step" where
  "correct_caps env buf c =
     res_bind (have_key False (Some ''drop_caplist'') (Some buf))
       (\<lambda>b. if \<not> b then set_caps (default_caps (ae_kernel env) (drop_caplist c)) c
            else res_bind (key_get_char_array False (Some ''drop_caplist'') (Some buf) ruri_cap_last_cap)
              (\<lambda>strs. set_caps (correct_caps_loop env 0 strs (drop_caplist c)) c))"

text \<open>Without network the container is always unshared.\<close>

definition correct_network :: "string \<Rightarrow> correct_step" where
  "correct_network buf = with_key buf ''no_network'' (\<lambda>c. c\<lparr>no_network := False\<rparr>)
     (\<lambda>c. res_bind (key_get_bool False (Some ''no_network'') (Some buf))
        (\<lambda>v. Inr (if v then c\<lparr>no_network := v, enable_unshare := True\<rparr> else c\<lparr>no_network := v\<rparr>)))"

definition correct_steps_early :: "args_env \<Rightarrow> string \<Rightarrow> correct_step list" where
  "correct_steps_early env buf =
    [\<lambda>c. res_bind (key_get_char False (Some ''container_dir'') (Some buf)) (\<lambda>v. Inr (c\<lparr>container_dir := v\<rparr>)),
     correct_caps env buf,
     correct_array buf ''command'' ruri_max_commands (ruri_max_commands + 1) 1 1 command_update,
     correct_array buf ''env'' ruri_max_envs (ruri_max_envs + 2) 2 2 env_list_update,
     correct_array buf ''extra_mountpoint'' ruri_max_mountpoints (ruri_max_mountpoints + 2) 2 2 extra_mountpoint_update,
     correct_array buf ''char_devs'' ruri_max_char_devs ruri_max_char_devs 1 3 char_devs_update,
     correct_array buf ''extra_ro_mountpoint'' ruri_max_mountpoints (ruri_max_mountpoints + 2) 2 2
       extra_ro_mountpoint_update,
     correct_bool buf ''no_new_privs'' False no_new_privs_update,
     correct_bool buf ''enable_seccomp'' False enable_default_seccomp_update,
     correct_bool buf ''no_warnings'' False no_warnings_update,
     correct_bool buf ''enable_unshare'' False enable_unshare_update,
     correct_bool buf ''rootless'' False rootless_update,
     correct_bool buf ''mount_host_runtime'' False mount_host_runtime_update,
     correct_char buf ''qemu_path'' qemu_path_update,
     correct_char buf ''cross_arch'' cross_arch_update,
     correct_bool buf ''use_rurienv'' True use_rurienv_update,
     correct_bool buf ''ro_root'' False ro_root_update]"

definition correct_steps_late :: "string \<Rightarrow> correct_step list" where
  "correct_steps_late buf =
    [correct_int buf ''hidepid'' ruri_init_value hidepid_update,
     correct_char buf ''cpuset'' cpuset_update,
     correct_char buf ''memory'' memory_update,
     correct_int buf ''cpupercent'' ruri_init_value cpupercent_update,
     correct_bool buf ''just_chroot'' False just_chroot_update,
     correct_bool buf ''unmask_dirs'' False unmask_dirs_update,
     correct_char buf ''work_dir'' work_dir_update,
     correct_char buf ''rootfs_source'' rootfs_source_update,
     correct_network buf,
     correct_char buf ''hostname'' hostname_update,
     correct_bool buf ''use_kvm'' False use_kvm_update,
     correct_long buf ''timens_realtime_offset'' 0 timens_realtime_offset_update,
     correct_long buf ''timens_monotonic_offset'' 0 timens_monotonic_offset_update,
     correct_int buf ''oom_score_adj'' 0 oom_score_adj_update,
     correct_bool buf ''systemd_mode'' False systemd_mode_update,
     correct_bool buf ''enable_seccomp_whitelist'' False enable_seccomp_whitelist_update]"

definition correct_steps :: "args_env \<Rightarrow> string \<Rightarrow> correct_step list" where
  "correct_steps env buf = correct_steps_early env buf @ correct_steps_late buf"

definition read_old_config :: "args_env \<Rightarrow> string option \<Rightarrow> ruri_container result" where
  "read_old_config env content =
     res_bind (k2v_get_filesize False content)
       (\<lambda>size. if size \<ge> 65536 then Inl (Fatal ''Config file is too large, it should be less than 65536 bytes.'')
         else res_bind (k2v_open_file False content (int size) (size + 4))
           (\<lambda>opened. case opened of
              None \<Rightarrow> Inl (Fatal ''Failed to read config file'')
            | Some buf \<Rightarrow> res_bind (have_key False (Some ''container_dir'') (Some buf))
                (\<lambda>b. if \<not> b then Inl (Fatal ''Invalid config file, there is no key:container_dir'')
                  else case ruri_init_config (ae_kernel env) (ae_now env) (ae_heap env) of
                    None \<Rightarrow> Inl out_of_bounds
                  | Some c \<Rightarrow> foldl res_bind (Inr c) (correct_steps env buf))))"

section \<open>Replacing the file\<close>

datatype config_op = Unlink_config | Remove_config | Open_config | Write_config string

definition ruri_correct_config :: "args_env \<Rightarrow> bool \<Rightarrow> string option \<Rightarrow> config_op list \<times> unit result" where
  "ruri_correct_config env creatable content =
     (case read_old_config env content of
        Inl e \<Rightarrow> ([], Inl e)
      | Inr c \<Rightarrow>
          if creatable then
            ([Unlink_config, Remove_config, Open_config,
              Write_config (ruri_container_info_to_k2v (self_exe env) (libcap_to_name env) c)], Inr ())
          else ([Unlink_config, Remove_config, Open_config],
            Inl (Fatal ''Error: failed to open output file QwQ'')))"

section \<open>Correcting a file that ruri wrote\<close>

lemma shebang_comment:
  assumes "\<forall>p. exe = Some p \<longrightarrow> newline \<notin> set p"
  shows "only_comments (shebang exe)"
proof -
  obtain line where l: "shebang exe = (CHR ''#'' # line) @ newline # newline # []" "newline \<notin> set line"
  proof -
    have "newline \<notin> set (if exe = None \<or> exe = Some [] then ''/usr/bin/ruri'' else the exe)"
      using assms by (cases exe) auto
    then show ?thesis using that by (cases exe) (fastforce simp: shebang_def Let_def split: if_splits)+
  qed
  have n: "newline \<notin> set (CHR ''#'' # line)" using l(2) by simp
  show ?thesis
    unfolding only_comments_def
  proof
    fix t
    have "kept_lines (shebang exe @ t) = kept_lines (newline # t)"
      using kept_lines_append[OF n, of "newline # t"] l(1) by (simp add: is_coment_line_def)
    also have "\<dots> = kept_lines t" using kept_lines_append[of "[]" t] by (simp add: is_coment_line_def)
    finally show "kept_lines (shebang exe @ t) = kept_lines t" .
  qed
qed

text \<open>The old checks count brackets inside quotes.\<close>

definition no_open_bracket :: "string list \<Rightarrow> bool" where
  "no_open_bracket vs = (\<forall>v \<in> set vs. CHR ''['' \<notin> set v)"

definition old_plain :: "(int \<Rightarrow> string option) \<Rightarrow> ruri_container \<Rightarrow> bool" where
  "old_plain cap_to_name c = no_open_bracket (extra_mountpoint c @ extra_ro_mountpoint c @ env_list c
     @ char_devs c @ command c @ seccomp_denied_syscall c @ masked_path c
     @ map (cap_text cap_to_name) (caps_of (drop_caplist c)))"

lemma old_elems: "(\<forall>v \<in> set vs. old_elem v) \<longleftrightarrow> list_plain vs \<and> no_open_bracket vs"
  by (auto simp: list_plain_def no_open_bracket_def old_elem_def)

lemma shown_plain: "opt_plain (Some (show_bool b))" "opt_plain (Some (show_int i))"
  by (simp_all add: opt_plain_def)

lemma container_generated:
  assumes "config_plain c" "old_plain ctn c" "cap_names_ok ctn cfn (caps_of (drop_caplist c))"
    "\<forall>p. exe = Some p \<longrightarrow> newline \<notin> set p"
  shows "generated (shebang exe) (container_items ctn c)"
proof -
  have n: "no_open_bracket (a @ b) \<longleftrightarrow> no_open_bracket a \<and> no_open_bracket b" for a b
    by (auto simp: no_open_bracket_def)
  have "\<forall>it \<in> set (value_items (container_items ctn c)). old_ok it"
    using assms(1,2) cap_texts_plain[OF assms(3)]
    by (simp add: container_values config_plain_def old_plain_def n old_ok_def valid_key_def key_char_def Let_def
        old_elems shown_plain del: set_map)
  moreover have "old_ok it" if "it \<in> set (container_items ctn c)" "item_keys (item_of it) = []" for it
    using container_items_ok[OF assms(1,3)] that by (cases it rule: item_of.cases; cases "item_of it")
      (auto simp: old_ok_def)
  ultimately have "\<forall>it \<in> set (container_items ctn c). old_ok it" by (auto simp: value_items_def)
  then show ?thesis
    using shebang_comment[OF assms(4)] container_keys_distinct by (simp add: generated_def)
qed

lemma info_is_new_text:
  "ruri_container_info_to_k2v exe ctn c = new_text (shebang exe) (container_items ctn c)"
  by (simp add: ruri_container_info_to_k2v_def foldl_add_item new_text_def)

lemma with_key_present:
  "generated pre its \<Longrightarrow> it \<in> set its \<Longrightarrow> k \<in> set (item_keys (item_of it)) \<Longrightarrow>
   with_key (new_text pre its) k absent present c = present c"
proof -
  assume g: "generated pre its" and it: "it \<in> set its" "k \<in> set (item_keys (item_of it))"
  have "valid_key k" using g it by (cases "item_of it") (auto simp: generated_def old_ok_def)
  then have "k \<noteq> []" by (simp add: valid_key_def)
  moreover have "k \<in> set (keys_of its)" using it by (auto simp: keys_of_def)
  ultimately show ?thesis using old_have_key[OF g, of k] by (simp add: with_key_def)
qed

text \<open>What each kind of step does on generated text.\<close>

lemma step_bool:
  "generated pre its \<Longrightarrow> Bool_item k b \<in> set its \<Longrightarrow>
   correct_bool (new_text pre its) k d upd c = Inr (upd (\<lambda>_. b) c)"
  by (simp add: correct_bool_def with_key_present[of pre its "Bool_item k b"] old_get_bool)

lemma step_char:
  "generated pre its \<Longrightarrow> Plain (Scalar_item k v) \<in> set its \<Longrightarrow>
   correct_char (new_text pre its) k upd c = Inr (upd (\<lambda>_. v) c)"
  by (simp add: correct_char_def with_key_present[of pre its "Plain (Scalar_item k v)"] old_get_char)

lemma step_int:
  "generated pre its \<Longrightarrow> Int_item k i \<in> set its \<Longrightarrow> int_range i \<Longrightarrow>
   correct_int (new_text pre its) k d upd c = Inr (upd (\<lambda>_. i) c)"
  by (simp add: correct_int_def with_key_present[of pre its "Int_item k i"] old_get_int)

lemma step_long:
  "generated pre its \<Longrightarrow> Long_item k i \<in> set its \<Longrightarrow> - (2 ^ 63) \<le> i \<Longrightarrow> i < 2 ^ 63 \<Longrightarrow>
   correct_long (new_text pre its) k d upd c = Inr (upd (\<lambda>_. i) c)"
  by (simp add: correct_long_def with_key_present[of pre its "Long_item k i"] old_get_long)

lemma step_array:
  "generated pre its \<Longrightarrow> Plain (Array_item k vs) \<in> set its \<Longrightarrow> length vs \<le> limit \<Longrightarrow>
   length vs mod grp = 0 \<Longrightarrow> length vs + terms \<le> cells \<Longrightarrow>
   correct_array (new_text pre its) k limit cells terms grp upd c = Inr (upd (\<lambda>_. vs) c)"
  by (simp add: correct_array_def with_key_present[of pre its "Plain (Array_item k vs)"] old_get_char_array)

lemma step_network:
  "generated pre its \<Longrightarrow> Bool_item ''no_network'' b \<in> set its \<Longrightarrow>
   correct_network (new_text pre its) c = Inr (c\<lparr>no_network := b, enable_unshare := enable_unshare c \<or> b\<rparr>)"
  by (cases b) (simp_all add: correct_network_def with_key_present[of pre its "Bool_item ''no_network'' b" "''no_network''" for b]
      old_get_bool)

lemma correct_caps_read:
  "read_caps_loop (libcap_from_name env) i strs list = Inr l \<Longrightarrow> correct_caps_loop env i strs list = Some l"
proof (induction strs arbitrary: i list)
  case (Cons s strs)
  then show ?case
    by (auto simp: Option.bind_eq_Some_conv split: option.splits if_splits)
qed simp

text \<open>The container the old parser finds in a file written for \<open>c\<close>, \<open>c0\<close> being the one it starts
  from and \<open>l\<close> the array of the capabilities: five settings are those of \<open>c0\<close>.\<close>

definition read_back :: "ruri_container \<Rightarrow> caplist \<Rightarrow> ruri_container \<Rightarrow> ruri_container" where
  "read_back c0 l c = c0\<lparr>container_dir := container_dir c, drop_caplist := l, command := command c,
     env_list := env_list c, extra_mountpoint := extra_mountpoint c, char_devs := char_devs c,
     extra_ro_mountpoint := extra_ro_mountpoint c, no_new_privs := no_new_privs c,
     enable_default_seccomp := enable_default_seccomp c, no_warnings := no_warnings c,
     enable_unshare := enable_unshare c \<or> no_network c, rootless := rootless c,
     mount_host_runtime := mount_host_runtime c, qemu_path := qemu_path c, cross_arch := cross_arch c,
     use_rurienv := use_rurienv c, ro_root := ro_root c, hidepid := hidepid c, cpuset := cpuset c,
     memory := memory c, cpupercent := cpupercent c, just_chroot := just_chroot c,
     unmask_dirs := unmask_dirs c, work_dir := work_dir c, rootfs_source := rootfs_source c,
     no_network := no_network c, hostname := hostname c, use_kvm := use_kvm c,
     timens_realtime_offset := timens_realtime_offset c,
     timens_monotonic_offset := timens_monotonic_offset c, oom_score_adj := oom_score_adj c,
     systemd_mode := systemd_mode c, enable_seccomp_whitelist := enable_seccomp_whitelist c\<rparr>"

lemma step_dir:
  "generated pre its \<Longrightarrow> Plain (Scalar_item ''container_dir'' v) \<in> set its \<Longrightarrow>
   res_bind (key_get_char False (Some ''container_dir'') (Some (new_text pre its))) (\<lambda>v. Inr (c\<lparr>container_dir := v\<rparr>))
     = Inr (c\<lparr>container_dir := v\<rparr>)"
  by (simp add: old_get_char)

lemma step_caps:
  assumes "generated pre its" "Plain (Array_item ''drop_caplist'' strs) \<in> set its" "length strs \<le> ruri_cap_last_cap"
    "correct_caps_loop env 0 strs (drop_caplist c) = Some l"
  shows "correct_caps env (new_text pre its) c = Inr (c\<lparr>drop_caplist := l\<rparr>)"
proof -
  have "''drop_caplist'' \<in> set (keys_of its)" using assms(2) by (force simp: keys_of_def)
  then show ?thesis
    using assms old_have_key[OF assms(1), of "''drop_caplist''"]
    by (simp add: correct_caps_def old_get_char_array set_caps_def)
qed

lemma correct_steps_result:
  assumes plain: "config_plain c" and names: "cap_names_ok ctn (libcap_from_name env) (caps_of (drop_caplist c))"
    and gen: "generated (shebang exe) (container_items ctn c)"
    and len: "length (caps_of (drop_caplist c)) \<le> ruri_cap_last_cap"
    and devs: "length (char_devs c) < ruri_max_char_devs"
    and caps: "correct_caps_loop env 0 (map (cap_text ctn) (caps_of (drop_caplist c))) (drop_caplist c0) = Some l"
  shows "foldl res_bind (Inr c0) (correct_steps env (ruri_container_info_to_k2v exe ctn c)) = Inr (read_back c0 l c)"
proof -
  have it: "x \<in> set (value_items (container_items ctn c)) \<Longrightarrow> x \<in> set (container_items ctn c)" for x
    by (rule in_value_items)
  note in_items = it[unfolded container_values]
  have lens: "length (env_list c) mod 2 = 0" "length (extra_mountpoint c) mod 2 = 0"
    "length (extra_ro_mountpoint c) mod 2 = 0" "length (char_devs c) mod 3 = 0"
    "length (env_list c) \<le> ruri_max_envs" "length (extra_mountpoint c) \<le> ruri_max_mountpoints"
    "length (extra_ro_mountpoint c) \<le> ruri_max_mountpoints" "length (command c) \<le> ruri_max_commands"
    "length (char_devs c) \<le> ruri_max_char_devs" "length (char_devs c) + 1 \<le> ruri_max_char_devs"
    using plain devs by (simp_all add: config_plain_def)
  have ints: "int_range (hidepid c)" "int_range (cpupercent c)" "int_range (oom_score_adj c)"
    "- (2 ^ 63) \<le> timens_realtime_offset c" "timens_realtime_offset c < 2 ^ 63"
    "- (2 ^ 63) \<le> timens_monotonic_offset c" "timens_monotonic_offset c < 2 ^ 63"
    using plain by (simp_all add: config_plain_def)
  note bools = step_bool[OF gen in_items] and chars = step_char[OF gen in_items]
    and nums = step_int[OF gen in_items] step_long[OF gen in_items] and arrays = step_array[OF gen in_items]
  show ?thesis
    unfolding info_is_new_text correct_steps_def correct_steps_early_def correct_steps_late_def read_back_def
    by (simp add: foldl_append bools chars nums arrays lens devs devs[folded Suc_le_eq] ints ints[simplified] step_dir[OF gen in_items] step_network[OF gen in_items]
        step_caps[OF gen in_items _ _] caps len)
qed

lemma info_nul:
  assumes "config_plain c" "cap_names_ok ctn cfn (caps_of (drop_caplist c))"
    "\<forall>p. exe = Some p \<longrightarrow> newline \<notin> set p \<and> nul \<notin> set p"
  shows "nul \<notin> set (ruri_container_info_to_k2v exe ctn c)"
  using assms(3) config_text_nul[OF container_items_ok[OF assms(1,2)]]
  by (cases exe) (auto simp: ruri_container_info_to_k2v_def foldl_add_item shebang_def Let_def)

lemma open_without_nul:
  assumes "nul \<notin> set text"
  shows "k2v_open_file False (Some text) (int (length text)) (length text + 4) = Inr (Some text)"
proof -
  have "\<forall>c \<in> set text. c \<noteq> nul" using assms by blast
  then show ?thesis
    by (simp add: k2v_open_file_def k2v_get_filesize_def lenient_lint Let_def takeWhile_eq_all_conv[THEN iffD2])
qed

text \<open>A capability name that is unknown makes the code build the default list, of which only
  the first entry stays: the list is cut after the index of the name.\<close>

lemma default_caps_total:
  assumes "0 \<le> get_last_cap kern" "get_last_cap kern < int ruri_cap_last_cap" "length list = ruri_cap_last_cap + 1"
  shows "\<exists>d. default_caps kern list = Some d \<and> length d = ruri_cap_last_cap + 1
    \<and> set (caps_of d) = default_dropped (get_last_cap kern) False"
proof -
  have n: "ruri_build_caplist kern list False null_caplist null_caplist
      = ruri_build_caplist kern list False empty_caplist empty_caplist"
    by (simp add: ruri_build_caplist_def arr_get_def empty_caplist_def null_caplist_def)
  show ?thesis
    unfolding default_caps_def n
    using build_caplist_spec[OF assms(1-3), of empty_caplist empty_caplist False] empty_caplist_facts
    by (auto simp: caplist_wf_def)
qed

lemma unknown_capability_cuts_default:
  assumes "0 \<le> get_last_cap (ae_kernel env)" "get_last_cap (ae_kernel env) < int ruri_cap_last_cap"
    and "length list = ruri_cap_last_cap + 1"
    and "atoi s \<le> 0" "ruri_cap_from_name (libcap_from_name env) s = None"
  shows "\<exists>d. default_caps (ae_kernel env) list = Some d
    \<and> correct_caps_loop env 0 [s] list = Some (d[1 := ruri_init_value])
    \<and> caps_of (d[1 := ruri_init_value]) = take 1 (caps_of d)"
proof -
  obtain d where d: "default_caps (ae_kernel env) list = Some d" "length d = ruri_cap_last_cap + 1"
    using default_caps_total[OF assms(1-3)] by blast
  obtain x y zs where "d = x # y # zs"
    using d(2) by (cases d; cases "tl d") (auto simp: ruri_cap_last_cap_def)
  then show ?thesis using d assms(4,5) by (simp add: arr_set_def caps_of_def)
qed

text \<open>What is lost: the user, the denied system calls, the masked paths and two flags.\<close>

definition corrected :: "ruri_container \<Rightarrow> ruri_container" where
  "corrected c = c\<lparr>user := None, seccomp_denied_syscall := [], masked_path := [],
     enable_tty_signals := False, skip_setgroups := False, enable_unshare := enable_unshare c \<or> no_network c\<rparr>"

lemma items_of_read_back:
  assumes "ruri_init_config kern now h = Some c0" "caps_of l = caps_of (drop_caplist c)"
  shows "container_items ctn (read_back c0 l c) = container_items ctn (corrected c)"
proof -
  have "user c0 = None" "seccomp_denied_syscall c0 = []" "masked_path c0 = []"
    "\<not> enable_tty_signals c0" "\<not> skip_setgroups c0"
    using assms(1) by (auto simp: ruri_init_config_def Option.bind_eq_Some_conv)
  then show ?thesis using assms(2)
    by (simp add: container_items_def items_basic_def items_runtime_def items_arrays_def items_late_def
        read_back_def corrected_def)
qed

text \<open>C9: Correcting a configuration file that ruri itself wrote replaces it by the file of
  the same container without its user, its denied system calls, its masked paths,
  enable_tty_signals and skip_setgroups, which ruri_correct_config does not carry over, and
  unshared if it has no network; every other setting is read by the old parser as the new one wrote it.\<close>

theorem corrected_config_text:
  assumes plain: "config_plain c" "old_plain (libcap_to_name env) c"
    and names: "cap_names_ok (libcap_to_name env) (libcap_from_name env) (caps_of (drop_caplist c))"
    and caps: "caplist_wf lc (drop_caplist c)" "lc < int ruri_cap_last_cap" "caps_of (drop_caplist c) \<noteq> []"
    and kern: "0 \<le> get_last_cap (ae_kernel env)" "get_last_cap (ae_kernel env) < int ruri_cap_last_cap"
    and devs: "length (char_devs c) < ruri_max_char_devs"
    and exe: "\<forall>p. self_exe env = Some p \<longrightarrow> newline \<notin> set p \<and> nul \<notin> set p"
    and fits: "length (ruri_container_info_to_k2v (self_exe env) (libcap_to_name env) c) < 65536"
  shows "ruri_correct_config env True (Some (ruri_container_info_to_k2v (self_exe env) (libcap_to_name env) c))
    = ([Unlink_config, Remove_config, Open_config, Write_config
        (ruri_container_info_to_k2v (self_exe env) (libcap_to_name env) (corrected c))], Inr ())"
proof -
  let ?ctn = "libcap_to_name env" and ?cfn = "libcap_from_name env"
  let ?text = "ruri_container_info_to_k2v (self_exe env) ?ctn c" and ?caps = "caps_of (drop_caplist c)"
  have nl: "\<forall>p. self_exe env = Some p \<longrightarrow> newline \<notin> set p" using exe by blast
  note gen = container_generated[OF plain names nl]
  obtain c0 where c0: "ruri_init_config (ae_kernel env) (ae_now env) (ae_heap env) = Some c0"
    "length (drop_caplist c0) = ruri_cap_last_cap + 1"
    using init_config_total[OF kern] by blast
  have len: "length ?caps \<le> ruri_cap_last_cap" using caplist_wf_length_entries(1)[OF caps(1,2)] .
  obtain r where r: "read_caps_loop ?cfn 0 (map (cap_text ?ctn) ?caps) (drop_caplist c0) = Inr (?caps @ ruri_init_value # r)"
    using read_caps_loop_texts[OF names, of "[]" "drop_caplist c0"] len c0(2) caps(3) by auto
  define l where "l = ?caps @ ruri_init_value # r"
  have "ruri_init_value \<notin> set ?caps" by (auto simp: caps_of_def dest: set_takeWhileD)
  then have l: "caps_of l = ?caps" by (simp add: l_def)
  have "read_old_config env (Some ?text) = foldl res_bind (Inr c0) (correct_steps env ?text)"
    using fits open_without_nul[OF info_nul[OF plain(1) names exe]]
      old_have_key[OF gen, of "''container_dir''"] c0(1)
    by (simp add: read_old_config_def k2v_get_filesize_def info_is_new_text container_keys)
  also have "\<dots> = Inr (read_back c0 l c)"
    by (rule correct_steps_result[OF plain(1) names gen len devs])
       (use correct_caps_read[OF r] in \<open>simp add: l_def\<close>)
  finally show ?thesis
    using items_of_read_back[OF c0(1) l, of ?ctn]
    by (simp add: ruri_correct_config_def info_is_new_text)
qed

theorem corrected_config_text_witness:
  "\<exists>t. ruri_correct_config sample_args_env True
      (Some (ruri_container_info_to_k2v None sample_cap_name (sample_container\<lparr>char_devs := []\<rparr>)))
    = ([Unlink_config, Remove_config, Open_config, Write_config t], Inr ())
    \<and> t = ruri_container_info_to_k2v None sample_cap_name (sample_container\<lparr>user := None\<rparr>)"
proof -
  have env: "libcap_to_name sample_args_env = sample_cap_name" "libcap_from_name sample_args_env = sample_cap_value"
    "self_exe sample_args_env = None" "ae_kernel sample_args_env = sample_kernel"
    by (simp_all add: sample_args_env_def)
  have e: "sample_container\<lparr>char_devs := []\<rparr> = sample_container"
    "corrected sample_container = sample_container\<lparr>user := None\<rparr>"
    by (simp_all add: sample_container_def corrected_def)
  have devs: "char_devs sample_container = []" by (simp add: sample_container_def)
  have o: "old_plain sample_cap_name sample_container"
    by (simp add: old_plain_def no_open_bracket_def sample_facts(3) cap_text_def sample_cap_name_def)
       (simp add: sample_container_def)
  have "length (shebang None) \<le> 100" by (simp add: shebang_def pmcrts_zero_def Let_def)
  moreover have "sum_list (map item_len (container_items sample_cap_name sample_container)) \<le> 11000"
    using sample_len[of "[]"] by (simp add: container_items_def e(1))
  ultimately have "length (ruri_container_info_to_k2v None sample_cap_name sample_container) < 65536"
    using config_text_len[of "container_items sample_cap_name sample_container"]
    by (simp add: ruri_container_info_to_k2v_def foldl_add_item)
  then show ?thesis
    using corrected_config_text[of sample_container sample_args_env 40] sample_facts sample_plain[of "[]"] o devs
    by (simp add: env e list_plain_def ruri_cap_last_cap_def ruri_max_char_devs_def sample_kernel_last)
qed


end
