(* ===== verification/Spec2Isabelle.thy ===== *)
theory Spec2Isabelle
  imports Ruri Correct_Config
begin

text \<open>
  ruri starts Linux containers: it reads a command line, optionally a configuration file,
  prepares a root directory, restricts the process (namespaces, mounts, cgroups, seccomp,
  capabilities, no_new_privs, user) and executes a command.  This development models the C
  sources under src/ and proves what a container may rely on.

  How the program runs.  \<open>main\<close> calls \<open>ruri()\<close> (src/ruri.c): \<open>parse_args\<close> fills one
  \<open>struct RURI_CONTAINER\<close> from argv, and from a configuration file through
  \<open>ruri_read_config\<close> (src/config.c), which uses the parser and getters of src/k2v3.c;
  capability names go through src/caplist.c.  \<open>check_container\<close> refuses bad combinations.
  Then one of three ways is taken: \<open>ruri_run_unshare_container\<close> (src/unshare.c),
  \<open>ruri_run_rootless_container\<close> (src/rootless.c) or \<open>ruri_run_chroot_container\<close>
  (src/chroot.c).  The first two enter namespaces, fork, and end in the entry points of
  chroot.c, which call mount.c, cgroup.c, rurienv.c (the record of a running container in
  container_dir/.rurienv), elf-magic.c, seccomp.c and caplist.c, look up the user with passwd.c,
  and execute the command.  A daemon started by watchdog.c keeps the pid file; umount.c and
  ps.c end and report on containers.

  Conventions (theory Prelude).  A C string is the HOL string before its NUL, a pointer into
  it the suffix it points to; a NULL pointer is None; a NULL-terminated array of strings is a
  list, fixed arrays keep their capacity, and a store outside is an error value.  uid_t and
  gid_t are 32 bit words, other integers are int with the wrap-around written out.  A program that
  exits with ruri_error, or that runs into undefined behaviour, is the left side of a sum.

  Effects (theory Sys).  A function that talks to the kernel is a \<open>prog\<close>: it extends the
  list of system calls made so far, and its answers come from a \<open>world\<close>, functions of
  everything done before.  Nothing is assumed of a world, so a theorem about a prog holds
  whatever the kernel answers.  The answer to Fork chooses the process that is followed.

  Theories, in the order of their imports, with the files they model:

    Prelude          strings, characters, results, atoi and strtol
    Caplist          src/caplist.c; build_caplist, drop_caps as array walks
    Passwd           src/passwd.c: user, group and subordinate id files
    K2V3             src/k2v3.c: the parser of the configuration format
    K2V3_Access      src/k2v3.c: getters and generators
    Container        struct RURI_CONTAINER (src/include/ruri.h), ruri_init_config
    Config           src/config.c: ruri_container_info_to_k2v, ruri_read_config
    K2V, K2V_Props   src/k2v.c, the older parser; its getters stay in their strings
    K2V_Generated    src/k2v.c on the text that ruri writes
    Correct_Config   src/config.c: ruri_correct_config
    Rurienv          src/rurienv.c
    Args, Args_Props src/ruri.c: parse_args, check_container, the start of a container
    Sys              calls, answers and programs over them
    Mounting         src/mount.c
    Cgroup           src/cgroup.c
    Seccomp          src/seccomp.c with both profiles rule by rule
    Umount           src/umount.c and the killing of src/ps.c
    ElfMagic         src/elf-magic.c
    Watchdog         src/watchdog.c and the status report of src/ps.c
    Chroot           src/chroot.c
    Trace_Logic      triples over programs: what has happened when one returns
    Chroot_Props     src/chroot.c: no setup step executes, changes user or root
    Confinement      src/chroot.c: the state in which a command runs
    Unshare          src/unshare.c
    Rootless         src/rootless.c
    Ruri             src/ruri.c: ruri() as a whole, the forks of src/watchdog.c

  Interfaces.  The locales of the development are the contracts between these parts, each
  interpreted on the model's own definitions: \<open>cap_store\<close> (what add, delete and member of
  a capability list promise to build_caplist), \<open>line_db\<close> (a file of lines with a key and a
  value, for the lookups of passwd.c), \<open>kv_store\<close> (the cache of k2v3),
  \<open>step_relation\<close> (the options as a relation between parser states),
  \<open>file_policy\<close>, \<open>call_policy\<close> and \<open>setup_policy\<close> (which calls a program
  may make: a policy admitting the calls of the primitives is respected by every function of
  mount.c, cgroup.c, chroot.c built from them).

  What the lemmas show.

    Safety.  ruri_runs_only_confined is the statement about the whole program; it puts together
    what is proved of its three ways.  command_runs_confined: whatever the kernel answers, a
    command is executed only after the root directory was entered and a numeric user set, both with
    success, and after the load of the filter, the drop of every capability of the list and
    no_new_privs were tried (the first two with success in strict mode, outside of it the code
    only warns); unshare_command_isolated and
    rootless_run_isolated lift this to the forks and namespaces of the other two ways.
    unprivileged_confined says what is left of the capabilities,
    whitelist_follows_capabilities what the filter admits for them.  named_user_only_tried
    is the exception: a user given by name whom the process cannot become is only warned of.

    Parsers.  The k2v3 parser returns on every text and its strict mode accepts exactly the
    texts without a warning; the text that ruri writes reads back (generated_config_reads_back,
    config_reads_back, join_restores_stored_info, stat_reads_back); the scans of
    passwd.c are searches in the list of entries of the file.

    Command line.  Invariants of the container parse_args returns, the equivalence of bundled
    flags with their sequence, what is known about a container that is started.

    Host.  Which mount, cgroup and unmount calls are made, in which order; the daemon as a state
    machine with its invariant and its end.

    Old files.  No check or getter of the older parser reads outside its strings
    (k2v_getters_return); correcting a file ruri wrote loses five settings and no other
    (corrected_config_text).

  Bounds and fuel.  Loops over a text are recursions with a measure; the array walks of
  Caplist recurse on the distance to RURI_CAP_LAST_CAP + 1 = 115, the capacity of the array;
  the searches in arrays stop at their capacity with an error.  The main loop of parse_args
  recurses on argc - index, which every option increases.  Array capacities are those of
  ruri.h (1024 arguments, environment strings and mount point strings, 384 strings for
  devices, 2048 system calls).  The nine rounds of unmounting in ruri_umount_container and the
  limits of the array getters are the code's own.  No definition takes fuel: every loop ends by
  its measure.

  Not modelled.  cprintf.c, info.c, rurifetch.c, easteregg/ and the tables of ps.c only
  print.  main.c and signal.c call the program and print on a crash.  The redirections
  of output to a log file or /dev/null, signal dispositions, sleeping, the warnings that have no
  influence on results, and cgroup.c's debug dump are left out.
  build.c is the build script; srce/seccomp.c is a copy of seccomp.c no build file names.  The
  build modelled is the default one, with libcap, libseccomp and .rurienv: the rules that
  seccomp.c adds without libcap are not modelled.  libcap, libseccomp and the kernel are
  arguments: the texts of capability names, which system call names are known, and every
  answer.  Floating point conversion (the timeout) is an argument as well.
\<close>

end
